(* ===== verification/Prelude.thy ===== *)
theory Prelude
  imports Main "HOL-Library.Word"
begin

text \<open>
  Shared ground of the development: the machine integer types of the C and C++ sources, the
  two byte orders they serialise in, the ordered association the sources use as
  \<open>std::map\<close>, and the list facts the components share.

  \<^item> \<open>be_bytes32\<close> / \<open>be_word32\<close>: the big-endian 32-bit field of the PulseAudio wire format;
    \<open>le_bytes32\<close> / \<open>le_word32\<close>: the little-endian one a \<open>memcpy\<close> of an \<open>int32_t\<close> produces on
    the (aarch64, x86) targets.
  \<^item> \<open>map_put\<close>, \<open>map_find\<close>, \<open>map_erase\<close>: \<open>std::map\<close> as a key-sorted association list, so that
    iteration order is the one the code sees. The locale \<open>ordered_map\<close> states its contract.
\<close>

unbundle bit_operations_syntax

type_synonym u8 = "8 word"
type_synonym u16 = "16 word"
type_synonym u32 = "32 word"
type_synonym u64 = "64 word"
type_synonym bytes = "u8 list"

named_theorems codec \<open>round trips of the byte codecs\<close>
named_theorems attr_simps \<open>which record fields an operation leaves alone\<close>

section \<open>Byte order\<close>

definition be_bytes32 :: "u32 \<Rightarrow> bytes" where
  "be_bytes32 v = [ucast (drop_bit 24 v), ucast (drop_bit 16 v), ucast (drop_bit 8 v), ucast v]"

definition be_word32 :: "u8 \<Rightarrow> u8 \<Rightarrow> u8 \<Rightarrow> u8 \<Rightarrow> u32" where
  "be_word32 a b c d =
     push_bit 24 (ucast a) OR push_bit 16 (ucast b) OR push_bit 8 (ucast c) OR ucast d"

definition le_bytes32 :: "u32 \<Rightarrow> bytes" where
  "le_bytes32 v = [ucast v, ucast (drop_bit 8 v), ucast (drop_bit 16 v), ucast (drop_bit 24 v)]"

definition le_word32 :: "u8 \<Rightarrow> u8 \<Rightarrow> u8 \<Rightarrow> u8 \<Rightarrow> u32" where
  "le_word32 a b c d = be_word32 d c b a"

definition le_bytes16 :: "u16 \<Rightarrow> bytes" where
  "le_bytes16 v = [ucast v, ucast (drop_bit 8 v)]"

definition le_word16 :: "u8 \<Rightarrow> u8 \<Rightarrow> u16" where
  "le_word16 a b = ucast a OR push_bit 8 (ucast b)"

lemma length_be_bytes32 [simp]: "length (be_bytes32 v) = 4"
  by (simp add: be_bytes32_def)

lemma length_le_bytes32 [simp]: "length (le_bytes32 v) = 4"
  by (simp add: le_bytes32_def)

lemma length_le_bytes16 [simp]: "length (le_bytes16 v) = 2"
  by (simp add: le_bytes16_def)

lemma be_word32_of_bytes [codec]:
  "be_word32 (ucast (drop_bit 24 v)) (ucast (drop_bit 16 v)) (ucast (drop_bit 8 v)) (ucast v) = v"
proof (rule bit_word_eqI)
  fix n assume "n < LENGTH(32)"
  then consider "n < 8" | "8 \<le> n \<and> n < 16" | "16 \<le> n \<and> n < 24" | "24 \<le> n \<and> n < 32"
    by fastforce
  then show "bit (be_word32 (ucast (drop_bit 24 v)) (ucast (drop_bit 16 v))
      (ucast (drop_bit 8 v)) (ucast v)) n = bit v n"
    by cases (auto simp: be_word32_def bit_simps)
qed

lemma le_word32_of_bytes [codec]:
  "le_word32 (ucast v) (ucast (drop_bit 8 v)) (ucast (drop_bit 16 v)) (ucast (drop_bit 24 v)) = v"
  by (simp add: le_word32_def be_word32_of_bytes)

lemma le_word16_of_bytes [codec]: "le_word16 (ucast v) (ucast (drop_bit 8 v)) = v"
  unfolding le_word16_def
  by (rule bit_word_eqI) (auto simp: bit_simps)

lemma bit_u8_beyond: "8 \<le> n \<Longrightarrow> \<not> bit (w :: u8) n"
  by (metis bit_imp_le_length leD len_num1 len_bit0 mult_1_right numeral_Bit0 mult_2 numeral_One one_add_one)

lemma be_bytes32_of_word [codec]: "be_bytes32 (be_word32 a b c d) = [a, b, c, d]"
  unfolding be_bytes32_def be_word32_def
  by (auto intro!: bit_word_eqI simp: bit_simps bit_u8_beyond)

lemma word64_halves [codec]:
  "push_bit 32 (ucast (ucast (drop_bit 32 (v :: u64)) :: u32)) OR ucast (ucast v :: u32) = v"
  by (rule bit_word_eqI) (auto simp: bit_simps)

section \<open>Bits and bounds\<close>

lemma less_exp_iff_bits:
  fixes x :: "'a::len word"
  assumes "k < LENGTH('a)"
  shows "x < 2 ^ k \<longleftrightarrow> (\<forall>n. bit x n \<longrightarrow> n < k)"
proof -
  have u: "uint (2 ^ k :: 'a word) = 2 ^ k"
    using assms by transfer (simp add: take_bit_eq_mod)
  have "x < 2 ^ k \<longleftrightarrow> uint x < 2 ^ k" by (simp add: word_less_def u)
  also have "\<dots> \<longleftrightarrow> take_bit k (uint x) = uint x" by (simp add: take_bit_int_eq_self_iff)
  also have "\<dots> \<longleftrightarrow> (\<forall>n. bit x n \<longrightarrow> n < k)"
    by (auto simp: bit_eq_iff bit_take_bit_iff bit_uint_iff dest: bit_imp_le_length)
  finally show ?thesis .
qed

lemma u8_high: "(b :: u8) < 0x80 \<longleftrightarrow> \<not> bit b 7"
proof -
  have "(\<forall>n. bit b n \<longrightarrow> n < 7) \<longleftrightarrow> \<not> bit b 7"
    using bit_imp_le_length [of b] by (auto simp: less_Suc_eq eval_nat_numeral)
  then show ?thesis using less_exp_iff_bits [of 7 b] by simp
qed

lemma u8_eqI:
  assumes "bit x 0 = bit y 0" "bit x 1 = bit y 1" "bit x 2 = bit y 2" "bit x 3 = bit y 3"
    "bit x 4 = bit y 4" "bit x 5 = bit y 5" "bit x 6 = bit y 6" "bit x 7 = bit (y :: u8) 7"
  shows "x = y"
proof (rule bit_word_eqI)
  fix n assume "n < LENGTH(8)"
  then consider "n = 0" | "n = 1" | "n = 2" | "n = 3" | "n = 4" | "n = 5" | "n = 6" | "n = 7" by fastforce
  then show "bit x n = bit y n" using assms by cases simp_all
qed

lemma bits_below: "(x :: 'a::len word) < 2 ^ k \<Longrightarrow> k < LENGTH('a) \<Longrightarrow> bit x n \<Longrightarrow> n < k"
  using less_exp_iff_bits [of k x] by auto

lemma below_exp: "(x :: 'a::len word) < 2 ^ k \<Longrightarrow> k < LENGTH('a) \<Longrightarrow> k \<le> n \<Longrightarrow> \<not> bit x n"
  using less_exp_iff_bits [of k x] by auto

section \<open>Ordered maps\<close>

text \<open>
  \<open>std::map\<close> is a key-sorted association list: \<open>map_find\<close> is \<open>find\<close>, \<open>map_put\<close> is
  \<open>m[k] = v\<close>, \<open>map_erase\<close> is \<open>erase\<close>, and the list order is the iteration order.
\<close>

type_synonym ('k, 'v) smap = "('k \<times> 'v) list"

definition map_find :: "'k \<Rightarrow> ('k, 'v) smap \<Rightarrow> 'v option" where
  "map_find k m = map_of m k"

fun map_put :: "'k::linorder \<Rightarrow> 'v \<Rightarrow> ('k, 'v) smap \<Rightarrow> ('k, 'v) smap" where
  "map_put k v [] = [(k, v)]"
| "map_put k v ((k', v') # m) =
     (if k < k' then (k, v) # (k', v') # m
      else if k = k' then (k, v) # m
      else (k', v') # map_put k v m)"

definition map_erase :: "'k \<Rightarrow> ('k, 'v) smap \<Rightarrow> ('k, 'v) smap" where
  "map_erase k m = filter (\<lambda>e. fst e \<noteq> k) m"

definition map_inv :: "('k::linorder, 'v) smap \<Rightarrow> bool" where
  "map_inv m \<longleftrightarrow> sorted_wrt (<) (map fst m)"

text \<open>The contract a client of an ordered map relies on.\<close>

locale ordered_map =
  fixes find :: "'k::linorder \<Rightarrow> 'm \<Rightarrow> 'v option"
    and put :: "'k \<Rightarrow> 'v \<Rightarrow> 'm \<Rightarrow> 'm"
    and erase :: "'k \<Rightarrow> 'm \<Rightarrow> 'm"
    and empty :: 'm
    and invar :: "'m \<Rightarrow> bool"
  assumes find_empty: "find k empty = None"
    and find_put: "invar m \<Longrightarrow> find k (put k' v m) = (if k = k' then Some v else find k m)"
    and find_erase: "invar m \<Longrightarrow> find k (erase k' m) = (if k = k' then None else find k m)"
    and invar_empty: "invar empty"
    and invar_put: "invar m \<Longrightarrow> invar (put k v m)"
    and invar_erase: "invar m \<Longrightarrow> invar (erase k m)"
begin

text \<open>Taking an entry out: look it up and erase it, as every \<open>Take*\<close> operation does.\<close>

lemma put_then_take: "invar m \<Longrightarrow> find k (erase k (put k v m)) = None"
  by (simp add: find_erase invar_put)

lemma put_frame: "invar m \<Longrightarrow> k \<noteq> k' \<Longrightarrow> find k (put k' v m) = find k m"
  by (simp add: find_put)

lemma erase_frame: "invar m \<Longrightarrow> k \<noteq> k' \<Longrightarrow> find k (erase k' m) = find k m"
  by (simp add: find_erase)

end

lemma fst_set_map_put: "fst ` set (map_put k v m) = insert k (fst ` set m)"
  by (induction k v m rule: map_put.induct) (simp_all add: insert_commute)

lemma map_inv_put: "map_inv m \<Longrightarrow> map_inv (map_put k v m)"
proof (induction m)
  case Nil
  then show ?case by (simp add: map_inv_def)
next
  case (Cons e m)
  then show ?case
    using fst_set_map_put [of k v m]
    by (cases e) (force simp: map_inv_def)
qed

lemma map_find_put:
  "map_inv m \<Longrightarrow> map_find k (map_put k' v m) = (if k = k' then Some v else map_find k m)"
proof (induction m)
  case Nil
  then show ?case by (simp add: map_find_def)
next
  case (Cons e m)
  then show ?case by (cases e) (auto simp: map_inv_def map_find_def)
qed

lemma map_find_erase: "map_find k (map_erase k' m) = (if k = k' then None else map_find k m)"
  by (induction m) (auto simp: map_find_def map_erase_def)

lemma map_inv_erase: "map_inv m \<Longrightarrow> map_inv (map_erase k m)"
  by (simp add: map_inv_def map_erase_def sorted_wrt_map sorted_wrt_filter)

interpretation smap: ordered_map map_find map_put map_erase "[]" map_inv
  by unfold_locales
    (simp_all add: map_find_put map_find_erase map_inv_put map_inv_erase,
     simp_all add: map_find_def map_inv_def)

lemma map_inv_distinct: "map_inv m \<Longrightarrow> distinct (map fst m)"
  by (simp add: map_inv_def strict_sorted_iff)

lemma map_find_in_set: "map_find k m = Some v \<Longrightarrow> (k, v) \<in> set m"
  by (simp add: map_find_def map_of_SomeD)

lemma map_find_iff: "map_inv m \<Longrightarrow> map_find k m = Some v \<longleftrightarrow> (k, v) \<in> set m"
  by (simp add: map_find_def map_inv_distinct map_of_eq_Some_iff)

lemma set_map_put:
  "map_inv m \<Longrightarrow> set (map_put k v m) = insert (k, v) {e \<in> set m. fst e \<noteq> k}"
proof (induction m)
  case Nil
  then show ?case by simp
next
  case (Cons e m)
  then show ?case by (cases e) (auto simp: map_inv_def)
qed

lemma set_map_erase: "set (map_erase k m) = {e \<in> set m. fst e \<noteq> k}"
  by (auto simp: map_erase_def)

text \<open>Rewriting every value in place (iterating with \<open>auto &e : m\<close> and mutating \<open>e.second\<close>).\<close>

lemma map_inv_map_snd: "map_inv m \<Longrightarrow> map_inv (map (\<lambda>(k, v). (k, f k v)) m)"
  by (simp add: map_inv_def comp_def case_prod_unfold)

section \<open>Lists\<close>

lemma map_nth_upt: "n \<le> length xs \<Longrightarrow> map ((!) xs) [0..<n] = take n xs"
  by (simp add: list_eq_iff_nth_eq)

section \<open>Decimal numbers\<close>

text \<open>\<open>std::to_string\<close> and the \<open>%u\<close> and \<open>%d\<close> conversions of \<open>printf\<close>.\<close>

fun to_string :: "nat \<Rightarrow> string" where
  "to_string n = (if n < 10 then [char_of (48 + n)] else to_string (n div 10) @ [char_of (48 + n mod 10)])"

declare to_string.simps [simp del]

definition int_string :: "int \<Rightarrow> string" where
  "int_string i = (if i < 0 then CHR ''-'' # to_string (nat (- i)) else to_string (nat i))"

definition of_digits :: "string \<Rightarrow> nat" where
  "of_digits cs = foldl (\<lambda>a c. 10 * a + (of_char c - 48)) 0 cs"

lemma to_string_digits: "c \<in> set (to_string n) \<Longrightarrow> of_char c \<in> {48..<58 :: nat}"
proof (induction n rule: to_string.induct)
  case (1 n)
  then show ?case by (subst (asm) to_string.simps) (auto split: if_splits)
qed

lemma of_digits_to_string: "of_digits (to_string n) = n"
proof (induction n rule: to_string.induct)
  case (1 n)
  have "48 + n mod 10 < 256" using mod_less_divisor [of 10 n] by linarith
  then have digit: "(48 + n mod 10) mod 256 = 48 + n mod 10" by (rule mod_less)
  show ?case
  proof (cases "n < 10")
    case True
    then show ?thesis by (subst to_string.simps) (simp add: of_digits_def)
  next
    case False
    then show ?thesis using "1.IH" [OF False] by (subst to_string.simps) (simp add: of_digits_def digit)
  qed
qed

lemma to_string_inject [simp]: "to_string m = to_string n \<longleftrightarrow> m = n"
  by (metis of_digits_to_string)

lemma length_to_string: "n < 10 ^ k \<Longrightarrow> 0 < k \<Longrightarrow> length (to_string n) \<le> k"
proof (induction n arbitrary: k rule: to_string.induct)
  case (1 n)
  show ?case
  proof (cases "n < 10")
    case True
    with "1.prems" show ?thesis by (simp add: to_string.simps)
  next
    case False
    then obtain j where k: "k = Suc j" "0 < j" using "1.prems" by (cases k; cases "k - 1") auto
    have "n div 10 < 10 ^ j" using "1.prems" k by (simp add: less_mult_imp_div_less mult.commute)
    from "1.IH" [OF False this k(2)] show ?thesis using False k by (subst to_string.simps) simp
  qed
qed

lemma to_string_nonempty [simp]: "to_string n \<noteq> []"
  by (subst to_string.simps) simp

lemma minus_not_digit: "to_string n \<noteq> CHR ''-'' # cs"
  using to_string_digits [of "CHR ''-''" n] by auto

lemma int_string_inject [simp]: "int_string i = int_string j \<longleftrightarrow> i = j"
  using minus_not_digit by (auto simp: int_string_def) (metis minus_not_digit)

end
