(* ===== verification/Pa_Wire.thy ===== *)
theory Pa_Wire
  imports Prelude "HOL-Library.List_Lexorder"
begin

text \<open>
  The PulseAudio native protocol on the wire: \<open>waydroid/audio/pa_wire.h\<close>.

  A \<open>TagWriter\<close> is its byte buffer, and \<open>Put*\<close> appends to it. A \<open>TagReader\<close> is the record
  \<open>TagReader\<close> of the bytes, the cursor and the sticky failure flag; a \<open>Get*\<close> that returns
  \<open>false\<close> in C++ is \<open>None\<close> here, paired with the reader it leaves behind. Out-parameters are
  the value under \<open>Some\<close>: every caller gives up at the first \<open>false\<close> and never looks at a
  partially written one. Cursors and lengths (\<open>size_t\<close>) are \<open>nat\<close>: they are bounded by the
  length of the packet, which lives in memory. Field values keep their width.

  \<open>safe_get\<close> is the safety contract of a reader operation: the cursor stays inside the packet
  and \<open>false\<close> is returned exactly when the sticky failure flag is set. The round trips are in
  the theory \<open>Pa_Codec\<close>.
\<close>

section \<open>Constants\<close>

abbreviation (input) PROTOCOL_VERSION :: u32 where "PROTOCOL_VERSION \<equiv> 13"
abbreviation (input) VERSION_MASK :: u32 where "VERSION_MASK \<equiv> 0x0000FFFF"
abbreviation (input) INVALID_INDEX :: u32 where "INVALID_INDEX \<equiv> 0xFFFFFFFF"

abbreviation (input) COMMAND_ERROR :: u32 where "COMMAND_ERROR \<equiv> 0"
abbreviation (input) COMMAND_REPLY :: u32 where "COMMAND_REPLY \<equiv> 2"
abbreviation (input) COMMAND_CREATE_PLAYBACK_STREAM :: u32 where "COMMAND_CREATE_PLAYBACK_STREAM \<equiv> 3"
abbreviation (input) COMMAND_DELETE_PLAYBACK_STREAM :: u32 where "COMMAND_DELETE_PLAYBACK_STREAM \<equiv> 4"
abbreviation (input) COMMAND_CREATE_RECORD_STREAM :: u32 where "COMMAND_CREATE_RECORD_STREAM \<equiv> 5"
abbreviation (input) COMMAND_EXIT :: u32 where "COMMAND_EXIT \<equiv> 7"
abbreviation (input) COMMAND_AUTH :: u32 where "COMMAND_AUTH \<equiv> 8"
abbreviation (input) COMMAND_SET_CLIENT_NAME :: u32 where "COMMAND_SET_CLIENT_NAME \<equiv> 9"
abbreviation (input) COMMAND_DRAIN_PLAYBACK_STREAM :: u32 where "COMMAND_DRAIN_PLAYBACK_STREAM \<equiv> 12"
abbreviation (input) COMMAND_GET_PLAYBACK_LATENCY :: u32 where "COMMAND_GET_PLAYBACK_LATENCY \<equiv> 14"
abbreviation (input) COMMAND_GET_SERVER_INFO :: u32 where "COMMAND_GET_SERVER_INFO \<equiv> 20"
abbreviation (input) COMMAND_CORK_PLAYBACK_STREAM :: u32 where "COMMAND_CORK_PLAYBACK_STREAM \<equiv> 41"
abbreviation (input) COMMAND_FLUSH_PLAYBACK_STREAM :: u32 where "COMMAND_FLUSH_PLAYBACK_STREAM \<equiv> 42"
abbreviation (input) COMMAND_TRIGGER_PLAYBACK_STREAM :: u32 where "COMMAND_TRIGGER_PLAYBACK_STREAM \<equiv> 43"
abbreviation (input) COMMAND_SET_PLAYBACK_STREAM_NAME :: u32 where "COMMAND_SET_PLAYBACK_STREAM_NAME \<equiv> 46"
abbreviation (input) COMMAND_PREBUF_PLAYBACK_STREAM :: u32 where "COMMAND_PREBUF_PLAYBACK_STREAM \<equiv> 60"
abbreviation (input) COMMAND_REQUEST :: u32 where "COMMAND_REQUEST \<equiv> 61"
abbreviation (input) COMMAND_OVERFLOW :: u32 where "COMMAND_OVERFLOW \<equiv> 62"
abbreviation (input) COMMAND_UNDERFLOW :: u32 where "COMMAND_UNDERFLOW \<equiv> 63"
abbreviation (input) COMMAND_SET_PLAYBACK_STREAM_BUFFER_ATTR :: u32
  where "COMMAND_SET_PLAYBACK_STREAM_BUFFER_ATTR \<equiv> 72"
abbreviation (input) COMMAND_STARTED :: u32 where "COMMAND_STARTED \<equiv> 86"

abbreviation (input) ERR_ACCESS :: u32 where "ERR_ACCESS \<equiv> 1"
abbreviation (input) ERR_INVALID :: u32 where "ERR_INVALID \<equiv> 3"
abbreviation (input) ERR_NOENTITY :: u32 where "ERR_NOENTITY \<equiv> 5"
abbreviation (input) ERR_VERSION :: u32 where "ERR_VERSION \<equiv> 17"
abbreviation (input) ERR_NOTSUPPORTED :: u32 where "ERR_NOTSUPPORTED \<equiv> 19"

abbreviation (input) SAMPLE_U8 :: u8 where "SAMPLE_U8 \<equiv> 0"
abbreviation (input) SAMPLE_ALAW :: u8 where "SAMPLE_ALAW \<equiv> 1"
abbreviation (input) SAMPLE_ULAW :: u8 where "SAMPLE_ULAW \<equiv> 2"
abbreviation (input) SAMPLE_S16LE :: u8 where "SAMPLE_S16LE \<equiv> 3"
abbreviation (input) SAMPLE_S16BE :: u8 where "SAMPLE_S16BE \<equiv> 4"
abbreviation (input) SAMPLE_FLOAT32LE :: u8 where "SAMPLE_FLOAT32LE \<equiv> 5"
abbreviation (input) SAMPLE_S32LE :: u8 where "SAMPLE_S32LE \<equiv> 7"
abbreviation (input) SAMPLE_S24LE :: u8 where "SAMPLE_S24LE \<equiv> 9"
abbreviation (input) SAMPLE_S24BE :: u8 where "SAMPLE_S24BE \<equiv> 10"
abbreviation (input) SAMPLE_S24_32BE :: u8 where "SAMPLE_S24_32BE \<equiv> 12"

text \<open>The tag characters, as their ASCII codes.\<close>

abbreviation (input) TAG_STRING :: u8 where "TAG_STRING \<equiv> 116"
abbreviation (input) TAG_STRING_NULL :: u8 where "TAG_STRING_NULL \<equiv> 78"
abbreviation (input) TAG_U32 :: u8 where "TAG_U32 \<equiv> 76"
abbreviation (input) TAG_U8 :: u8 where "TAG_U8 \<equiv> 66"
abbreviation (input) TAG_U64 :: u8 where "TAG_U64 \<equiv> 82"
abbreviation (input) TAG_S64 :: u8 where "TAG_S64 \<equiv> 114"
abbreviation (input) TAG_SAMPLE_SPEC :: u8 where "TAG_SAMPLE_SPEC \<equiv> 97"
abbreviation (input) TAG_ARBITRARY :: u8 where "TAG_ARBITRARY \<equiv> 120"
abbreviation (input) TAG_BOOLEAN_TRUE :: u8 where "TAG_BOOLEAN_TRUE \<equiv> 49"
abbreviation (input) TAG_BOOLEAN_FALSE :: u8 where "TAG_BOOLEAN_FALSE \<equiv> 48"
abbreviation (input) TAG_TIMEVAL :: u8 where "TAG_TIMEVAL \<equiv> 84"
abbreviation (input) TAG_USEC :: u8 where "TAG_USEC \<equiv> 85"
abbreviation (input) TAG_CHANNEL_MAP :: u8 where "TAG_CHANNEL_MAP \<equiv> 109"
abbreviation (input) TAG_CVOLUME :: u8 where "TAG_CVOLUME \<equiv> 118"
abbreviation (input) TAG_PROPLIST :: u8 where "TAG_PROPLIST \<equiv> 80"
abbreviation (input) TAG_VOLUME :: u8 where "TAG_VOLUME \<equiv> 86"

abbreviation (input) VOLUME_NORM :: u32 where "VOLUME_NORM \<equiv> 0x10000"

abbreviation (input) DESCRIPTOR_SIZE :: nat where "DESCRIPTOR_SIZE \<equiv> 20"
abbreviation (input) CHANNEL_COMMAND :: u32 where "CHANNEL_COMMAND \<equiv> 0xFFFFFFFF"
abbreviation (input) FLAG_SHMDATA :: u32 where "FLAG_SHMDATA \<equiv> 0x80000000"
abbreviation (input) SEEK_MASK :: u32 where "SEEK_MASK \<equiv> 0x000000FF"

section \<open>Sample specs, channel maps, buffer attributes\<close>

record SampleSpec =
  ss_format :: u8
  ss_channels :: u8
  ss_rate :: u32

definition default_SampleSpec :: SampleSpec where
  "default_SampleSpec = \<lparr>ss_format = SAMPLE_S16LE, ss_channels = 2, ss_rate = 48000\<rparr>"

definition FrameSize :: "SampleSpec \<Rightarrow> nat" where
  "FrameSize ss =
     (let width =
        (if ss_format ss \<in> {SAMPLE_U8, SAMPLE_ALAW, SAMPLE_ULAW} then 1
         else if ss_format ss \<in> {SAMPLE_S16LE, SAMPLE_S16BE} then 2
         else if ss_format ss \<in> {SAMPLE_S24LE, SAMPLE_S24BE} then 3
         else 4)
      in width * unat (ss_channels ss))"

definition Valid :: "SampleSpec \<Rightarrow> bool" where
  "Valid ss \<longleftrightarrow> ss_channels ss > 0 \<and> ss_channels ss \<le> 32 \<and> ss_rate ss > 0 \<and>
     ss_rate ss \<le> 384000 \<and> ss_format ss \<le> SAMPLE_S24_32BE"

definition BytesToUsec :: "SampleSpec \<Rightarrow> u64 \<Rightarrow> u64" where
  "BytesToUsec ss n =
     (let fs = FrameSize ss
      in if fs = 0 \<or> ss_rate ss = 0 then 0
         else (n div of_nat fs) * 1000000 div ucast (ss_rate ss))"

definition UsecToBytes :: "SampleSpec \<Rightarrow> u64 \<Rightarrow> u64" where
  "UsecToBytes ss usec = (usec * ucast (ss_rate ss) div 1000000) * of_nat (FrameSize ss)"

record ChannelMap =
  cm_channels :: u8
  cm_map :: "u8 list"

definition default_ChannelMap :: ChannelMap where
  "default_ChannelMap = \<lparr>cm_channels = 2, cm_map = [1, 2] @ replicate 30 0\<rparr>"

definition wf_ChannelMap :: "ChannelMap \<Rightarrow> bool" where
  "wf_ChannelMap cm \<longleftrightarrow> length (cm_map cm) = 32 \<and> unat (cm_channels cm) \<le> 32"

record BufferAttr =
  ba_maxlength :: u32
  ba_tlength :: u32
  ba_prebuf :: u32
  ba_minreq :: u32
  ba_fragsize :: u32

definition default_BufferAttr :: BufferAttr where
  "default_BufferAttr = \<lparr>ba_maxlength = INVALID_INDEX, ba_tlength = INVALID_INDEX,
     ba_prebuf = INVALID_INDEX, ba_minreq = INVALID_INDEX, ba_fragsize = INVALID_INDEX\<rparr>"

lemma FrameSize_pos: "Valid ss \<Longrightarrow> 0 < FrameSize ss"
  by (auto simp: Valid_def FrameSize_def Let_def word_gt_0 unat_gt_0)

lemma unat_channels_le: "Valid ss \<Longrightarrow> unat (ss_channels ss) \<le> 32"
  unfolding Valid_def word_le_nat_alt by simp

lemma FrameSize_le: "Valid ss \<Longrightarrow> FrameSize ss \<le> 128"
  using unat_channels_le [of ss] by (auto simp: FrameSize_def Let_def)

section \<open>TagWriter\<close>

definition Raw8 :: "u8 \<Rightarrow> bytes \<Rightarrow> bytes" where
  "Raw8 v buf = buf @ [v]"

definition Raw32 :: "u32 \<Rightarrow> bytes \<Rightarrow> bytes" where
  "Raw32 v buf = buf @ be_bytes32 v"

definition Raw64 :: "u64 \<Rightarrow> bytes \<Rightarrow> bytes" where
  "Raw64 v buf = Raw32 (ucast v) (Raw32 (ucast (drop_bit 32 v)) buf)"

definition PutU8 :: "u8 \<Rightarrow> bytes \<Rightarrow> bytes" where
  "PutU8 v buf = Raw8 v (Raw8 TAG_U8 buf)"

definition PutU32 :: "u32 \<Rightarrow> bytes \<Rightarrow> bytes" where
  "PutU32 v buf = Raw32 v (Raw8 TAG_U32 buf)"

definition PutU64 :: "u64 \<Rightarrow> bytes \<Rightarrow> bytes" where
  "PutU64 v buf = Raw64 v (Raw8 TAG_U64 buf)"

text \<open>\<open>int64_t\<close> is two's complement: the cast to \<open>uint64_t\<close> reduces modulo \<open>2^64\<close>.\<close>

definition PutS64 :: "int \<Rightarrow> bytes \<Rightarrow> bytes" where
  "PutS64 v buf = Raw64 (of_int v) (Raw8 TAG_S64 buf)"

definition PutUsec :: "u64 \<Rightarrow> bytes \<Rightarrow> bytes" where
  "PutUsec v buf = Raw64 v (Raw8 TAG_USEC buf)"

definition PutVolume :: "u32 \<Rightarrow> bytes \<Rightarrow> bytes" where
  "PutVolume v buf = Raw32 v (Raw8 TAG_VOLUME buf)"

definition PutBool :: "bool \<Rightarrow> bytes \<Rightarrow> bytes" where
  "PutBool v buf = Raw8 (if v then TAG_BOOLEAN_TRUE else TAG_BOOLEAN_FALSE) buf"

text \<open>A C string is its bytes up to the terminating NUL; \<open>None\<close> is \<open>nullptr\<close>.\<close>

definition c_str :: "bytes \<Rightarrow> bytes" where
  "c_str s = takeWhile (\<lambda>b. b \<noteq> 0) s"

definition PutString :: "bytes option \<Rightarrow> bytes \<Rightarrow> bytes" where
  "PutString s buf =
     (case s of
        None \<Rightarrow> Raw8 TAG_STRING_NULL buf
      | Some s \<Rightarrow> Raw8 TAG_STRING buf @ c_str s @ [0])"

definition PutSampleSpec :: "SampleSpec \<Rightarrow> bytes \<Rightarrow> bytes" where
  "PutSampleSpec ss buf =
     Raw32 (ss_rate ss) (Raw8 (ss_channels ss) (Raw8 (ss_format ss) (Raw8 TAG_SAMPLE_SPEC buf)))"

definition PutChannelMap :: "ChannelMap \<Rightarrow> bytes \<Rightarrow> bytes" where
  "PutChannelMap cm buf =
     fold (\<lambda>i. Raw8 (cm_map cm ! i)) [0..<unat (cm_channels cm)]
       (Raw8 (cm_channels cm) (Raw8 TAG_CHANNEL_MAP buf))"

definition PutCVolume :: "u8 \<Rightarrow> u32 \<Rightarrow> bytes \<Rightarrow> bytes" where
  "PutCVolume channels value buf =
     fold (\<lambda>i. Raw32 value) [0..<unat channels] (Raw8 channels (Raw8 TAG_CVOLUME buf))"

definition PutTimeval :: "u32 \<Rightarrow> u32 \<Rightarrow> bytes \<Rightarrow> bytes" where
  "PutTimeval sec usec buf = Raw32 usec (Raw32 sec (Raw8 TAG_TIMEVAL buf))"

definition PutEmptyProplist :: "bytes \<Rightarrow> bytes" where
  "PutEmptyProplist buf = Raw8 TAG_STRING_NULL (Raw8 TAG_PROPLIST buf)"

definition PutProp :: "bytes \<times> bytes \<Rightarrow> bytes \<Rightarrow> bytes" where
  "PutProp kv buf =
     (let n = of_nat (length (snd kv) + 1)
      in Raw32 n (Raw8 TAG_ARBITRARY (PutU32 n (PutString (Some (fst kv)) buf))) @ snd kv @ [0])"

definition PutProplist :: "(bytes, bytes) smap \<Rightarrow> bytes \<Rightarrow> bytes" where
  "PutProplist props buf = Raw8 TAG_STRING_NULL (fold PutProp props (Raw8 TAG_PROPLIST buf))"

text \<open>Every writer appends; these are the bytes it appends.\<close>

lemma Raw8_append: "Raw8 v buf = buf @ [v]"
  by (simp add: Raw8_def)

lemma Raw32_append: "Raw32 v buf = buf @ be_bytes32 v"
  by (simp add: Raw32_def)

lemma Raw64_append: "Raw64 v buf = buf @ be_bytes32 (ucast (drop_bit 32 v)) @ be_bytes32 (ucast v)"
  by (simp add: Raw64_def Raw32_def)

lemma fold_Raw8_append: "fold (\<lambda>i. Raw8 (f i)) is buf = buf @ map f is"
  by (induction "is" arbitrary: buf) (simp_all add: Raw8_def)

lemma fold_Raw32_append: "fold (\<lambda>i. Raw32 v) is buf = buf @ concat (map (\<lambda>_. be_bytes32 v) is)"
  by (induction "is" arbitrary: buf) (simp_all add: Raw32_def)

lemmas raw_append = Raw8_append Raw32_append Raw64_append fold_Raw8_append fold_Raw32_append

definition prop_bytes :: "bytes \<times> bytes \<Rightarrow> bytes" where
  "prop_bytes kv = PutProp kv []"

lemma PutProp_append: "PutProp kv buf = buf @ prop_bytes kv"
  by (simp add: PutProp_def prop_bytes_def PutU32_def PutString_def raw_append Let_def)

lemma fold_PutProp_append: "fold PutProp props buf = buf @ concat (map prop_bytes props)"
  by (induction props arbitrary: buf) (simp_all add: PutProp_append)

section \<open>TagReader\<close>

record TagReader =
  rd_data :: bytes
  rd_off :: nat
  rd_failed :: bool

type_synonym 'a getter = "TagReader \<Rightarrow> 'a option \<times> TagReader"

definition mk_TagReader :: "bytes \<Rightarrow> TagReader" where
  "mk_TagReader d = \<lparr>rd_data = d, rd_off = 0, rd_failed = False\<rparr>"

definition Fail :: "TagReader \<Rightarrow> 'a option \<times> TagReader" where
  "Fail r = (None, r\<lparr>rd_failed := True\<rparr>)"

text \<open>Short-circuit sequencing, the \<open>\<parallel>\<close> chains of the callers.\<close>

definition rd_bind :: "'a getter \<Rightarrow> ('a \<Rightarrow> 'b getter) \<Rightarrow> 'b getter" where
  "rd_bind g h r = (case g r of (None, r') \<Rightarrow> (None, r') | (Some x, r') \<Rightarrow> h x r')"

definition rd_return :: "'a \<Rightarrow> 'a getter" where
  "rd_return x r = (Some x, r)"

definition Take8 :: "u8 getter" where
  "Take8 r =
     (if rd_failed r \<or> rd_off r + 1 > length (rd_data r) then Fail r
      else (Some (rd_data r ! rd_off r), r\<lparr>rd_off := rd_off r + 1\<rparr>))"

definition Take32 :: "u32 getter" where
  "Take32 r =
     (if rd_failed r \<or> rd_off r + 4 > length (rd_data r) then Fail r
      else (Some (be_word32 (rd_data r ! rd_off r) (rd_data r ! (rd_off r + 1))
              (rd_data r ! (rd_off r + 2)) (rd_data r ! (rd_off r + 3))),
            r\<lparr>rd_off := rd_off r + 4\<rparr>))"

definition Take64 :: "u64 getter" where
  "Take64 = rd_bind Take32 (\<lambda>hi. rd_bind Take32 (\<lambda>lo.
     rd_return (push_bit 32 (ucast hi) OR ucast lo)))"

definition Expect :: "u8 \<Rightarrow> unit getter" where
  "Expect want = rd_bind Take8 (\<lambda>tag. if tag = want then rd_return () else Fail)"

definition GetU8 :: "u8 getter" where
  "GetU8 = rd_bind (Expect TAG_U8) (\<lambda>_. Take8)"

definition GetU32 :: "u32 getter" where
  "GetU32 = rd_bind (Expect TAG_U32) (\<lambda>_. Take32)"

definition GetU64 :: "u64 getter" where
  "GetU64 = rd_bind (Expect TAG_U64) (\<lambda>_. Take64)"

definition GetS64 :: "int getter" where
  "GetS64 = rd_bind (Expect TAG_S64) (\<lambda>_. rd_bind Take64 (\<lambda>v. rd_return (sint v)))"

definition GetUsec :: "u64 getter" where
  "GetUsec = rd_bind (Expect TAG_USEC) (\<lambda>_. Take64)"

definition GetBool :: "bool getter" where
  "GetBool = rd_bind Take8 (\<lambda>tag.
     if tag = TAG_BOOLEAN_TRUE then rd_return True
     else if tag = TAG_BOOLEAN_FALSE then rd_return False
     else Fail)"

text \<open>The scan of \<open>GetString\<close>: advance while in range and not at a NUL.\<close>

function scan_nul :: "bytes \<Rightarrow> nat \<Rightarrow> nat" where
  "scan_nul d off = (if off < length d \<and> d ! off \<noteq> 0 then scan_nul d (off + 1) else off)"
  by pat_completeness auto
termination
  by (relation "measure (\<lambda>(d, off). length d - off)") auto

declare scan_nul.simps [simp del]

definition scan_string :: "bytes getter" where
  "scan_string r =
     (let start = rd_off r; off = scan_nul (rd_data r) start
      in if off \<ge> length (rd_data r) then Fail (r\<lparr>rd_off := off\<rparr>)
         else (Some (take (off - start) (drop start (rd_data r))), r\<lparr>rd_off := off + 1\<rparr>))"

text \<open>The result is the string and \<open>isNull\<close>.\<close>

definition GetString :: "(bytes \<times> bool) getter" where
  "GetString = rd_bind Take8 (\<lambda>tag.
     if tag = TAG_STRING_NULL then rd_return ([], True)
     else if tag \<noteq> TAG_STRING then Fail
     else rd_bind scan_string (\<lambda>s. rd_return (s, False)))"

definition GetSampleSpec :: "SampleSpec getter" where
  "GetSampleSpec = rd_bind (Expect TAG_SAMPLE_SPEC) (\<lambda>_. rd_bind Take8 (\<lambda>f. rd_bind Take8 (\<lambda>c.
     rd_bind Take32 (\<lambda>rate. rd_return \<lparr>ss_format = f, ss_channels = c, ss_rate = rate\<rparr>))))"

text \<open>The loop \<open>for (i = 0; i < channels; i++) Take8(cm.map[i])\<close>, over the indices left.\<close>

fun take_map :: "nat list \<Rightarrow> ChannelMap \<Rightarrow> ChannelMap getter" where
  "take_map [] cm = rd_return cm"
| "take_map (i # is) cm =
     rd_bind Take8 (\<lambda>b. take_map is (cm\<lparr>cm_map := (cm_map cm)[i := b]\<rparr>))"

definition GetChannelMap :: "ChannelMap \<Rightarrow> ChannelMap getter" where
  "GetChannelMap cm = rd_bind (Expect TAG_CHANNEL_MAP) (\<lambda>_. rd_bind Take8 (\<lambda>n.
     if unat n > length (cm_map cm) then Fail
     else take_map [0..<unat n] (cm\<lparr>cm_channels := n\<rparr>)))"

text \<open>The loop of \<open>GetCVolume\<close>: the first value is kept, the others are skipped.\<close>

fun take_volumes :: "nat list \<Rightarrow> u32 \<Rightarrow> u32 getter" where
  "take_volumes [] fst_v = rd_return fst_v"
| "take_volumes (i # is) fst_v =
     rd_bind Take32 (\<lambda>v. take_volumes is (if i = 0 then v else fst_v))"

definition GetCVolume :: "(u8 \<times> u32) getter" where
  "GetCVolume = rd_bind (Expect TAG_CVOLUME) (\<lambda>_. rd_bind Take8 (\<lambda>channels.
     rd_bind (take_volumes [0..<unat channels] VOLUME_NORM) (\<lambda>v. rd_return (channels, v))))"

definition GetTimeval :: "(u32 \<times> u32) getter" where
  "GetTimeval = rd_bind (Expect TAG_TIMEVAL) (\<lambda>_. rd_bind Take32 (\<lambda>sec.
     rd_bind Take32 (\<lambda>usec. rd_return (sec, usec))))"

definition take_blob :: "u32 \<Rightarrow> bytes getter" where
  "take_blob n r =
     (if unat n > length (rd_data r) - rd_off r then Fail r
      else (Some (take (unat n) (drop (rd_off r) (rd_data r))), r\<lparr>rd_off := rd_off r + unat n\<rparr>))"

definition GetArbitrary :: "bytes getter" where
  "GetArbitrary = rd_bind (Expect TAG_ARBITRARY) (\<lambda>_. rd_bind Take32 take_blob)"

text \<open>One entry of a proplist: key, declared length (unused), value without its final NUL.\<close>

definition drop_nul :: "bytes \<Rightarrow> bytes" where
  "drop_nul v = (if v \<noteq> [] \<and> last v = 0 then butlast v else v)"

definition GetProp :: "(bytes \<times> bytes) getter" where
  "GetProp = rd_bind GetString (\<lambda>(key, _). rd_bind GetU32 (\<lambda>declared.
     rd_bind GetArbitrary (\<lambda>value. rd_return (key, drop_nul value))))"

section \<open>Safety of the reader\<close>

text \<open>
  The cursor never leaves the packet. \<open>safe_get\<close>: the operation keeps the data, keeps the
  cursor in range and never moves it back, and returns \<open>false\<close> exactly when the sticky failure
  flag ends up set; \<open>eats\<close> adds that success consumes at least one byte.
\<close>

definition reader_wf :: "TagReader \<Rightarrow> bool" where
  "reader_wf r \<longleftrightarrow> rd_off r \<le> length (rd_data r)"

definition safe_at :: "TagReader \<Rightarrow> 'a option \<times> TagReader \<Rightarrow> bool" where
  "safe_at r res \<longleftrightarrow>
     (case res of (x, r') \<Rightarrow> rd_data r' = rd_data r \<and> reader_wf r' \<and> rd_off r \<le> rd_off r' \<and>
        (rd_failed r \<longrightarrow> rd_failed r') \<and> (x = None \<longleftrightarrow> rd_failed r'))"

definition safe_get :: "'a getter \<Rightarrow> bool" where
  "safe_get g \<longleftrightarrow> (\<forall>r. reader_wf r \<longrightarrow> safe_at r (g r))"

text \<open>Operations that may only run on a reader that has not failed (continuations).\<close>

definition safe_cont :: "'a getter \<Rightarrow> bool" where
  "safe_cont g \<longleftrightarrow> (\<forall>r. reader_wf r \<longrightarrow> \<not> rd_failed r \<longrightarrow> safe_at r (g r))"

definition eats :: "'a getter \<Rightarrow> bool" where
  "eats g \<longleftrightarrow> (\<forall>r x r'. g r = (Some x, r') \<longrightarrow> rd_data r' = rd_data r \<and> rd_off r < rd_off r' \<and>
     rd_off r' \<le> length (rd_data r'))"

named_theorems safe_intros \<open>safety of the reader operations\<close>

lemma safe_get_cont: "safe_get g \<Longrightarrow> safe_cont g"
  by (simp add: safe_get_def safe_cont_def)

lemma safe_return [safe_intros]: "safe_cont (rd_return x)"
  by (simp add: safe_cont_def safe_at_def rd_return_def)

lemma safe_Fail [safe_intros]: "safe_get Fail"
  by (simp add: safe_get_def safe_at_def Fail_def reader_wf_def)

lemma safe_Take8 [safe_intros]: "safe_get Take8"
  by (auto simp: safe_get_def safe_at_def Take8_def Fail_def reader_wf_def)

lemma safe_Take32 [safe_intros]: "safe_get Take32"
  by (auto simp: safe_get_def safe_at_def Take32_def Fail_def reader_wf_def)

lemma safe_at_bind:
  assumes 1: "safe_at r (g r)" and h: "\<And>x. safe_cont (h x)"
  shows "safe_at r (rd_bind g h r)"
proof -
  obtain x r' where e: "g r = (x, r')" by fastforce
  show ?thesis
  proof (cases x)
    case None
    with 1 e show ?thesis by (simp add: rd_bind_def safe_at_def)
  next
    case (Some a)
    with 1 e have "reader_wf r'" "\<not> rd_failed r'" by (auto simp: safe_at_def)
    with h [of a] have "safe_at r' (h a r')" by (simp add: safe_cont_def)
    with 1 Some e show ?thesis by (auto simp: rd_bind_def safe_at_def split: prod.splits)
  qed
qed

lemma safe_bind [safe_intros]:
  "safe_get g \<Longrightarrow> (\<And>x. safe_cont (h x)) \<Longrightarrow> safe_get (rd_bind g h)"
  by (simp add: safe_get_def safe_at_bind)

lemma safe_bind_cont [safe_intros]:
  "safe_cont g \<Longrightarrow> (\<And>x. safe_cont (h x)) \<Longrightarrow> safe_cont (rd_bind g h)"
  using safe_at_bind unfolding safe_cont_def by blast

lemma safe_if [safe_intros]:
  "safe_cont a \<Longrightarrow> safe_cont b \<Longrightarrow> safe_cont (if c then a else b)"
  by simp

lemma safe_case_prod [safe_intros]:
  "(\<And>a b. safe_cont (h a b)) \<Longrightarrow> safe_cont (case x of (a, b) \<Rightarrow> h a b)"
  by (cases x) simp

lemmas safe_Fail_cont [safe_intros] = safe_Fail [THEN safe_get_cont]
lemmas safe_Take8_cont [safe_intros] = safe_Take8 [THEN safe_get_cont]
lemmas safe_Take32_cont [safe_intros] = safe_Take32 [THEN safe_get_cont]

lemma safe_Take64 [safe_intros]: "safe_get Take64"
  unfolding Take64_def by (intro safe_intros)

lemmas safe_Take64_cont [safe_intros] = safe_Take64 [THEN safe_get_cont]

lemma safe_Expect [safe_intros]: "safe_get (Expect w)"
  unfolding Expect_def by (intro safe_intros)

lemmas safe_Expect_cont [safe_intros] = safe_Expect [THEN safe_get_cont]

lemma safe_GetU8 [safe_intros]: "safe_get GetU8"
  unfolding GetU8_def by (intro safe_intros)

lemmas safe_GetU8_cont [safe_intros] = safe_GetU8 [THEN safe_get_cont]

lemma safe_GetU32 [safe_intros]: "safe_get GetU32"
  unfolding GetU32_def by (intro safe_intros)

lemmas safe_GetU32_cont [safe_intros] = safe_GetU32 [THEN safe_get_cont]

lemma safe_GetU64 [safe_intros]: "safe_get GetU64"
  unfolding GetU64_def by (intro safe_intros)

lemmas safe_GetU64_cont [safe_intros] = safe_GetU64 [THEN safe_get_cont]

lemma safe_GetS64 [safe_intros]: "safe_get GetS64"
  unfolding GetS64_def by (intro safe_intros)

lemmas safe_GetS64_cont [safe_intros] = safe_GetS64 [THEN safe_get_cont]

lemma safe_GetUsec [safe_intros]: "safe_get GetUsec"
  unfolding GetUsec_def by (intro safe_intros)

lemmas safe_GetUsec_cont [safe_intros] = safe_GetUsec [THEN safe_get_cont]

lemma safe_GetBool [safe_intros]: "safe_get GetBool"
  unfolding GetBool_def by (intro safe_intros)

lemmas safe_GetBool_cont [safe_intros] = safe_GetBool [THEN safe_get_cont]

lemma scan_nul_bounds:
  "off \<le> scan_nul d off \<and> (off \<le> length d \<longrightarrow> scan_nul d off \<le> length d)"
proof (induction d off rule: scan_nul.induct)
  case (1 d off)
  then show ?case by (auto simp: scan_nul.simps [of d off])
qed

lemma safe_scan_string [safe_intros]: "safe_cont scan_string"
  unfolding safe_cont_def
proof (intro allI impI)
  fix r assume "reader_wf r" "\<not> rd_failed r"
  then show "safe_at r (scan_string r)"
    using scan_nul_bounds [of "rd_off r" "rd_data r"]
    by (auto simp: scan_string_def safe_at_def reader_wf_def Fail_def Let_def)
qed

lemma safe_GetString [safe_intros]: "safe_get GetString"
  unfolding GetString_def by (intro safe_intros)

lemmas safe_GetString_cont [safe_intros] = safe_GetString [THEN safe_get_cont]

lemma safe_GetSampleSpec [safe_intros]: "safe_get GetSampleSpec"
  unfolding GetSampleSpec_def by (intro safe_intros)

lemmas safe_GetSampleSpec_cont [safe_intros] = safe_GetSampleSpec [THEN safe_get_cont]

lemma safe_take_map [safe_intros]: "safe_cont (take_map is cm)"
  by (induction "is" cm rule: take_map.induct) (simp_all add: safe_intros)

lemma safe_GetChannelMap [safe_intros]: "safe_get (GetChannelMap cm)"
  unfolding GetChannelMap_def by (intro safe_intros)

lemmas safe_GetChannelMap_cont [safe_intros] = safe_GetChannelMap [THEN safe_get_cont]

lemma safe_take_volumes [safe_intros]: "safe_cont (take_volumes is v)"
  by (induction "is" v rule: take_volumes.induct) (simp_all add: safe_intros)

lemma safe_GetCVolume [safe_intros]: "safe_get GetCVolume"
  unfolding GetCVolume_def by (intro safe_intros)

lemmas safe_GetCVolume_cont [safe_intros] = safe_GetCVolume [THEN safe_get_cont]

lemma safe_GetTimeval [safe_intros]: "safe_get GetTimeval"
  unfolding GetTimeval_def by (intro safe_intros)

lemmas safe_GetTimeval_cont [safe_intros] = safe_GetTimeval [THEN safe_get_cont]

lemma safe_take_blob [safe_intros]: "safe_cont (take_blob n)"
  by (auto simp: safe_cont_def safe_at_def take_blob_def Fail_def reader_wf_def)

lemma safe_GetArbitrary [safe_intros]: "safe_get GetArbitrary"
  unfolding GetArbitrary_def by (intro safe_intros)

lemmas safe_GetArbitrary_cont [safe_intros] = safe_GetArbitrary [THEN safe_get_cont]

lemma safe_GetProp [safe_intros]: "safe_get GetProp"
  unfolding GetProp_def by (intro safe_intros)

lemmas safe_GetProp_cont [safe_intros] = safe_GetProp [THEN safe_get_cont]

text \<open>Success consumes input: what makes the proplist loop terminate.\<close>

lemma eats_Take8: "eats Take8"
  by (auto simp: eats_def Take8_def Fail_def split: if_splits)

lemma eats_bind:
  assumes g: "eats g" "safe_get g" and h: "\<And>x. safe_cont (h x)"
  shows "eats (rd_bind g h)"
  unfolding eats_def
proof (intro allI impI)
  fix r x r' assume e: "rd_bind g h r = (Some x, r')"
  then obtain a s where a: "g r = (Some a, s)" and b: "h a s = (Some x, r')"
    by (auto simp: rd_bind_def split: prod.splits option.splits)
  from g(1) a have 1: "rd_data s = rd_data r" "rd_off r < rd_off s" "rd_off s \<le> length (rd_data s)"
    unfolding eats_def by blast+
  then have "reader_wf r" by (simp add: reader_wf_def)
  with g(2) a have "safe_at r (Some a, s)" by (metis safe_get_def)
  then have "reader_wf s" "\<not> rd_failed s" by (simp_all add: safe_at_def)
  with h [of a] b have "safe_at s (Some x, r')" by (metis safe_cont_def)
  with 1 show "rd_data r' = rd_data r \<and> rd_off r < rd_off r' \<and> rd_off r' \<le> length (rd_data r')"
    by (auto simp: safe_at_def reader_wf_def)
qed

lemma eats_GetString: "eats GetString"
  unfolding GetString_def by (intro eats_bind eats_Take8 safe_intros)

lemma eats_GetProp: "eats GetProp"
  unfolding GetProp_def by (intro eats_bind eats_GetString safe_intros)

lemma GetProp_decreases:
  assumes "GetProp r = (Some kv, r')"
  shows "length (rd_data r') - rd_off r' < length (rd_data r) - rd_off r"
proof -
  have "rd_data r' = rd_data r \<and> rd_off r < rd_off r' \<and> rd_off r' \<le> length (rd_data r')"
    using eats_GetProp assms unfolding eats_def by blast
  then show ?thesis by (metis diff_less_mono2 order_less_le_trans)
qed

text \<open>The loop of \<open>GetProplist\<close>.\<close>

function proplist_loop :: "(bytes, bytes) smap \<Rightarrow> (bytes, bytes) smap getter" where
  "proplist_loop props r =
     (if rd_off r \<ge> length (rd_data r) then Fail r
      else if rd_data r ! rd_off r = TAG_STRING_NULL then (Some props, r\<lparr>rd_off := rd_off r + 1\<rparr>)
      else (case GetProp r of
              (None, r') \<Rightarrow> (None, r')
            | (Some kv, r') \<Rightarrow> proplist_loop (map_put (fst kv) (snd kv) props) r'))"
  by pat_completeness auto
termination
  by (relation "measure (\<lambda>(props, r). length (rd_data r) - rd_off r)")
    (simp, simp only: in_measure prod.case, metis GetProp_decreases)

declare proplist_loop.simps [simp del]

definition GetProplist :: "(bytes, bytes) smap \<Rightarrow> (bytes, bytes) smap getter" where
  "GetProplist props = rd_bind (Expect TAG_PROPLIST) (\<lambda>_. proplist_loop props)"

definition Eof :: "TagReader \<Rightarrow> bool" where
  "Eof r \<longleftrightarrow> \<not> rd_failed r \<and> rd_off r = length (rd_data r)"

definition Remaining :: "TagReader \<Rightarrow> nat" where
  "Remaining r = length (rd_data r) - rd_off r"

lemma safe_proplist_loop_at:
  "reader_wf r \<Longrightarrow> \<not> rd_failed r \<Longrightarrow> safe_at r (proplist_loop props r)"
proof (induction props r rule: proplist_loop.induct)
  case (1 props r)
  note IH = 1(1) and wf = 1(2) and nf = 1(3)
  have gp: "safe_at r (GetProp r)" using safe_GetProp wf by (simp add: safe_get_def)
  obtain x r' where e: "GetProp r = (x, r')" by (cases "GetProp r")
  show ?case
  proof (cases "length (rd_data r) \<le> rd_off r \<or> rd_data r ! rd_off r = TAG_STRING_NULL")
    case True
    with wf nf show ?thesis
      by (auto simp: proplist_loop.simps [of props r] safe_at_def Fail_def reader_wf_def)
  next
    case False
    note range = this
    show ?thesis
    proof (cases x)
      case None
      with gp e range show ?thesis
        by (simp add: proplist_loop.simps [of props r] safe_at_def)
    next
      case (Some kv)
      from gp e Some have r': "reader_wf r'" "\<not> rd_failed r'" by (simp_all add: safe_at_def)
      have "safe_at r' (proplist_loop (map_put (fst kv) (snd kv) props) r')"
        by (rule IH [OF _ _ e [symmetric] Some r']) (use range in auto)
      with gp e Some range show ?thesis
        by (auto simp: proplist_loop.simps [of props r] safe_at_def split: prod.splits)
    qed
  qed
qed

lemma safe_proplist_loop [safe_intros]: "safe_cont (proplist_loop props)"
  by (simp add: safe_cont_def safe_proplist_loop_at)

lemma safe_GetProplist [safe_intros]: "safe_get (GetProplist props)"
  unfolding GetProplist_def by (intro safe_intros)

lemmas safe_GetProplist_cont [safe_intros] = safe_GetProplist [THEN safe_get_cont]

end
