(* ===== verification/Pa_Codec.thy ===== *)
theory Pa_Codec
  imports Pa_Wire
begin

text \<open>
  Round trips of the PulseAudio tagstruct: whatever a \<open>TagWriter\<close> of \<open>pa_wire.h\<close> puts on the
  wire, a \<open>TagReader\<close> reads back, and stops exactly behind it. The locale \<open>tag_field\<close> is the
  contract of one writer/reader pair; it is interpreted for every field kind.
\<close>

section \<open>Round trips\<close>

definition reader_at :: "bytes \<Rightarrow> bytes \<Rightarrow> TagReader" where
  "reader_at pre post = \<lparr>rd_data = pre @ post, rd_off = length pre, rd_failed = False\<rparr>"

text \<open>\<open>reads g x w\<close>: wherever the bytes \<open>w\<close> stand next, \<open>g\<close> returns \<open>x\<close> and stops right after them.\<close>

definition reads :: "'a getter \<Rightarrow> 'a \<Rightarrow> bytes \<Rightarrow> bool" where
  "reads g x w \<longleftrightarrow> (\<forall>pre post. g (reader_at pre (w @ post)) = (Some x, reader_at (pre @ w) post))"

named_theorems reads_intros \<open>what the reader operations read\<close>

lemma mk_TagReader_at: "mk_TagReader d = reader_at [] d"
  by (simp add: mk_TagReader_def reader_at_def)

lemma reads_return [reads_intros]: "reads (rd_return x) x []"
  by (simp add: reads_def rd_return_def)

lemma reads_bind:
  assumes "reads g x w" and "reads (h x) y v"
  shows "reads (rd_bind g h) y (w @ v)"
  unfolding reads_def
proof (intro allI)
  fix pre post
  have "g (reader_at pre (w @ v @ post)) = (Some x, reader_at (pre @ w) (v @ post))"
    using assms(1) by (simp add: reads_def)
  moreover have "h x (reader_at (pre @ w) (v @ post)) = (Some y, reader_at (pre @ w @ v) post)"
    using assms(2) by (simp add: reads_def)
  ultimately show "rd_bind g h (reader_at pre ((w @ v) @ post)) = (Some y, reader_at (pre @ w @ v) post)"
    by (simp add: rd_bind_def)
qed

text \<open>Evaluation of the primitives where the next bytes are known.\<close>

lemma Take8_at: "Take8 (reader_at pre (b # post)) = (Some b, reader_at (pre @ [b]) post)"
  by (simp add: Take8_def reader_at_def)

lemma Take32_at:
  "Take32 (reader_at pre (be_bytes32 v @ post)) = (Some v, reader_at (pre @ be_bytes32 v) post)"
  by (simp add: Take32_def reader_at_def be_bytes32_def nth_append codec)

lemma Expect_at: "Expect t (reader_at pre (t # post)) = (Some (), reader_at (pre @ [t]) post)"
  by (simp add: Expect_def rd_bind_def Take8_at rd_return_def)

lemma Take64_at:
  "Take64 (reader_at pre (be_bytes32 (ucast (drop_bit 32 v)) @ be_bytes32 (ucast v) @ post)) =
     (Some v, reader_at (pre @ be_bytes32 (ucast (drop_bit 32 v)) @ be_bytes32 (ucast v)) post)"
  by (simp add: Take64_def rd_bind_def Take32_at rd_return_def codec)

lemmas get_at = Take8_at Take32_at Expect_at Take64_at rd_bind_def rd_return_def

text \<open>The contract of a writer and its reader.\<close>

locale tag_field =
  fixes put :: "'a \<Rightarrow> bytes \<Rightarrow> bytes"
    and get :: "'a getter"
    and ok :: "'a \<Rightarrow> bool"
  assumes put_append: "put v buf = buf @ put v []"
    and reads_put: "ok v \<Longrightarrow> reads get v (put v [])"
begin

lemma roundtrip: "ok v \<Longrightarrow> get (reader_at buf (put v [] @ post)) = (Some v, reader_at (put v buf) post)"
  using reads_put [of v] by (simp add: reads_def put_append [of v buf])

lemma roundtrip_whole: "ok v \<Longrightarrow> \<exists>r. get (mk_TagReader (put v [])) = (Some v, r) \<and> Eof r"
  using roundtrip [of v "[]" "[]"] by (simp add: mk_TagReader_at reader_at_def Eof_def)

text \<open>Distinct values have distinct encodings, and no encoding is a prefix of another's stream.\<close>

lemma put_inject: "ok v \<Longrightarrow> ok w \<Longrightarrow> put v [] @ s = put w [] @ t \<Longrightarrow> v = w \<and> s = t"
  using roundtrip [of v "[]" s] roundtrip [of w "[]" t] by (simp add: reader_at_def)

end

section \<open>The field kinds\<close>

interpretation u8_field: tag_field PutU8 GetU8 "\<lambda>_. True"
  by unfold_locales (simp_all add: PutU8_def GetU8_def raw_append reads_def get_at)

interpretation u32_field: tag_field PutU32 GetU32 "\<lambda>_. True"
  by unfold_locales (simp_all add: PutU32_def GetU32_def raw_append reads_def get_at)

interpretation u64_field: tag_field PutU64 GetU64 "\<lambda>_. True"
  by unfold_locales (simp_all add: PutU64_def GetU64_def raw_append reads_def get_at)

interpretation usec_field: tag_field PutUsec GetUsec "\<lambda>_. True"
  by unfold_locales (simp_all add: PutUsec_def GetUsec_def raw_append reads_def get_at)

interpretation bool_field: tag_field PutBool GetBool "\<lambda>_. True"
  by unfold_locales (auto simp: PutBool_def GetBool_def raw_append reads_def get_at)

text \<open>An \<open>int64_t\<close>.\<close>

definition is_int64 :: "int \<Rightarrow> bool" where
  "is_int64 v \<longleftrightarrow> - (2 ^ 63) \<le> v \<and> v < 2 ^ 63"

lemma sint_of_int64: "is_int64 v \<Longrightarrow> sint (of_int v :: u64) = v"
  by (simp add: is_int64_def signed_of_int signed_take_bit_int_eq_self)

interpretation s64_field: tag_field PutS64 GetS64 is_int64
  by unfold_locales
    (simp_all add: PutS64_def GetS64_def raw_append reads_def get_at sint_of_int64)

interpretation sample_spec_field: tag_field PutSampleSpec GetSampleSpec "\<lambda>_. True"
  by unfold_locales
    (simp_all add: PutSampleSpec_def GetSampleSpec_def raw_append reads_def get_at)

interpretation timeval_field:
  tag_field "\<lambda>(s, u). PutTimeval s u" GetTimeval "\<lambda>_. True"
  by unfold_locales
    (auto simp: PutTimeval_def GetTimeval_def raw_append reads_def get_at)

text \<open>Strings: the bytes up to the first NUL, or the distinct null string.\<close>

lemma scan_nul_at:
  assumes "0 \<notin> set s"
  shows "scan_nul (pre @ s @ 0 # post) (length pre) = length pre + length s"
  using assms
proof (induction s arbitrary: pre)
  case Nil
  then show ?case by (simp add: scan_nul.simps nth_append)
next
  case (Cons b s)
  then have "scan_nul ((pre @ [b]) @ s @ 0 # post) (length (pre @ [b])) = length (pre @ [b]) + length s"
    by (intro Cons.IH) simp
  with Cons.prems show ?case
    by (subst scan_nul.simps) (auto simp: nth_append)
qed

lemma scan_string_at:
  "0 \<notin> set s \<Longrightarrow> scan_string (reader_at pre (s @ 0 # post)) = (Some s, reader_at (pre @ s @ [0]) post)"
  by (simp add: scan_string_def reader_at_def scan_nul_at)

lemma nul_notin_c_str: "0 \<notin> set (c_str s)"
  by (auto simp: c_str_def dest: set_takeWhileD)

lemma c_str_id: "0 \<notin> set s \<Longrightarrow> c_str s = s"
  by (auto simp: c_str_def intro: takeWhile_eq_all_conv [THEN iffD2])

lemma GetString_at:
  "GetString (reader_at buf (PutString s [] @ post)) =
     (Some (case s of None \<Rightarrow> ([], True) | Some t \<Rightarrow> (c_str t, False)),
      reader_at (PutString s buf) post)"
  by (cases s)
    (simp_all add: GetString_def PutString_def raw_append get_at scan_string_at nul_notin_c_str)

interpretation string_field:
  tag_field "\<lambda>(s, null). PutString (if null then None else Some s)" GetString
    "\<lambda>(s, null). 0 \<notin> set s \<and> (null \<longrightarrow> s = [])"
proof
  fix v :: "bytes \<times> bool" and buf
  show "(case v of (s, null) \<Rightarrow> PutString (if null then None else Some s)) buf =
      buf @ (case v of (s, null) \<Rightarrow> PutString (if null then None else Some s)) []"
    by (auto simp: PutString_def raw_append split: prod.splits)
next
  fix v :: "bytes \<times> bool"
  assume "case v of (s, null) \<Rightarrow> 0 \<notin> set s \<and> (null \<longrightarrow> s = [])"
  then show "reads GetString v ((case v of (s, null) \<Rightarrow> PutString (if null then None else Some s)) [])"
    unfolding reads_def
    by (auto simp: GetString_at c_str_id, simp_all add: PutString_def raw_append)
qed

text \<open>Channel maps: the entries beyond \<open>channels\<close> are the receiver's.\<close>

lemma take_map_at:
  assumes "i \<le> n" "n \<le> length (cm_map cm)"
  shows "take_map [i..<n] cm (reader_at pre (map f [i..<n] @ post)) =
    (Some (cm\<lparr>cm_map := take i (cm_map cm) @ map f [i..<n] @ drop n (cm_map cm)\<rparr>),
     reader_at (pre @ map f [i..<n]) post)"
  using assms
proof (induction "n - i" arbitrary: i cm pre)
  case 0
  then show ?case by (simp add: rd_return_def)
next
  case (Suc k)
  then have i: "i < n" by simp
  let ?cm = "cm\<lparr>cm_map := (cm_map cm)[i := f i]\<rparr>"
  have "take_map [Suc i..<n] ?cm (reader_at (pre @ [f i]) (map f [Suc i..<n] @ post)) =
    (Some (?cm\<lparr>cm_map := take (Suc i) (cm_map ?cm) @ map f [Suc i..<n] @ drop n (cm_map ?cm)\<rparr>),
     reader_at ((pre @ [f i]) @ map f [Suc i..<n]) post)"
    by (rule Suc.hyps) (use Suc in auto)
  with i Suc.prems show ?case
    by (simp add: upt_conv_Cons get_at take_Suc_conv_app_nth)
qed

lemma GetChannelMap_at:
  assumes "unat (cm_channels cm) \<le> length (cm_map cm0)"
  shows "GetChannelMap cm0 (reader_at buf (PutChannelMap cm [] @ post)) =
    (Some (cm0\<lparr>cm_channels := cm_channels cm,
       cm_map := map ((!) (cm_map cm)) [0..<unat (cm_channels cm)]
         @ drop (unat (cm_channels cm)) (cm_map cm0)\<rparr>),
     reader_at (PutChannelMap cm buf) post)"
  using assms take_map_at [of 0 "unat (cm_channels cm)" "cm0\<lparr>cm_channels := cm_channels cm\<rparr>"
    "buf @ [TAG_CHANNEL_MAP, cm_channels cm]" "(!) (cm_map cm)" post]
  by (simp add: GetChannelMap_def PutChannelMap_def raw_append get_at)

definition cm_agrees :: "ChannelMap \<Rightarrow> ChannelMap \<Rightarrow> bool" where
  "cm_agrees cm0 cm \<longleftrightarrow> unat (cm_channels cm) \<le> length (cm_map cm) \<and>
     length (cm_map cm0) = length (cm_map cm) \<and>
     drop (unat (cm_channels cm)) (cm_map cm0) = drop (unat (cm_channels cm)) (cm_map cm)"

interpretation channel_map_field:
  tag_field PutChannelMap "GetChannelMap cm0" "cm_agrees cm0" for cm0
proof
  fix cm assume "cm_agrees cm0 cm"
  then show "reads (GetChannelMap cm0) cm (PutChannelMap cm [])"
    unfolding reads_def
    by (simp add: GetChannelMap_at cm_agrees_def map_nth_upt, simp add: PutChannelMap_def raw_append)
qed (simp add: PutChannelMap_def raw_append)

text \<open>Volumes: one value repeated per channel; the reader keeps the first.\<close>

lemma take_volumes_at:
  "take_volumes [i..<n] u (reader_at pre (concat (map (\<lambda>_. be_bytes32 v) [i..<n]) @ post)) =
    (Some (if i = 0 \<and> i < n then v else u),
     reader_at (pre @ concat (map (\<lambda>_. be_bytes32 v) [i..<n])) post)"
proof (induction "n - i" arbitrary: i u pre)
  case 0
  then show ?case by (simp add: rd_return_def)
next
  case (Suc k)
  then have i: "i < n" by simp
  have "take_volumes [Suc i..<n] (if i = 0 then v else u)
      (reader_at (pre @ be_bytes32 v) (concat (map (\<lambda>_. be_bytes32 v) [Suc i..<n]) @ post)) =
    (Some (if Suc i = 0 \<and> Suc i < n then v else if i = 0 then v else u),
     reader_at ((pre @ be_bytes32 v) @ concat (map (\<lambda>_. be_bytes32 v) [Suc i..<n])) post)"
    by (rule Suc.hyps) (use Suc in auto)
  with i show ?case by (simp add: upt_conv_Cons get_at)
qed

interpretation cvolume_field:
  tag_field "\<lambda>(c, v). PutCVolume c v" GetCVolume "\<lambda>(c, v). c = 0 \<longrightarrow> v = VOLUME_NORM"
  by unfold_locales
    (auto simp: PutCVolume_def GetCVolume_def raw_append reads_def get_at take_volumes_at
      unat_gt_0)

text \<open>Property lists.\<close>

lemma GetU32_at: "GetU32 (reader_at buf (TAG_U32 # be_bytes32 v @ post)) =
    (Some v, reader_at (buf @ TAG_U32 # be_bytes32 v) post)"
  by (simp add: GetU32_def get_at)

lemma take_blob_at:
  "unat n = length w \<Longrightarrow> take_blob n (reader_at pre (w @ post)) = (Some w, reader_at (pre @ w) post)"
  by (simp add: take_blob_def reader_at_def)

lemma GetArbitrary_at:
  assumes "unat n = length w"
  shows "GetArbitrary (reader_at pre (TAG_ARBITRARY # be_bytes32 n @ w @ post)) =
    (Some w, reader_at (pre @ TAG_ARBITRARY # be_bytes32 n @ w) post)"
  using assms by (simp add: GetArbitrary_def get_at take_blob_at)

definition prop_ok :: "bytes \<times> bytes \<Rightarrow> bool" where
  "prop_ok kv \<longleftrightarrow> 0 \<notin> set (fst kv) \<and> length (snd kv) + 1 < 2 ^ 32"

lemma prop_bytes_eq:
  "prop_bytes kv = (TAG_STRING # c_str (fst kv) @ [0]) @ (TAG_U32 # be_bytes32 (of_nat (length (snd kv) + 1)))
     @ TAG_ARBITRARY # be_bytes32 (of_nat (length (snd kv) + 1)) @ snd kv @ [0]"
  by (simp add: prop_bytes_def PutProp_def PutU32_def PutString_def raw_append Let_def)

lemma GetProp_at:
  assumes "prop_ok kv"
  shows "GetProp (reader_at pre (prop_bytes kv @ post)) = (Some kv, reader_at (pre @ prop_bytes kv) post)"
proof -
  let ?n = "of_nat (length (snd kv) + 1) :: u32"
  have n: "unat ?n = length (snd kv @ [0 :: u8])"
    using assms by (simp add: prop_ok_def unat_of_nat del: of_nat_add of_nat_Suc)
  have str: "GetString (reader_at pre (TAG_STRING # fst kv @ 0 # w)) =
      (Some (fst kv, False), reader_at (pre @ TAG_STRING # fst kv @ [0]) w)" for w
    using assms GetString_at [of pre "Some (fst kv)" w]
    by (simp add: PutString_def raw_append c_str_id prop_ok_def)
  show ?thesis
    using assms GetArbitrary_at [OF n, of "pre @ TAG_STRING # fst kv @ 0 # TAG_U32 # be_bytes32 ?n" post]
    by (simp add: GetProp_def prop_bytes_eq get_at str GetU32_at drop_nul_def prop_ok_def c_str_id
        del: of_nat_add of_nat_Suc)
qed

lemma map_put_last:
  "map_inv (m @ [(k, v)]) \<Longrightarrow> map_put k v m = m @ [(k, v)]"
  by (induction k v m rule: map_put.induct) (auto simp: map_inv_def)

lemma proplist_loop_at:
  assumes "\<forall>kv \<in> set props. prop_ok kv" and "map_inv (done @ props)"
  shows "proplist_loop done (reader_at pre (concat (map prop_bytes props) @ TAG_STRING_NULL # post)) =
    (Some (done @ props), reader_at (pre @ concat (map prop_bytes props) @ [TAG_STRING_NULL]) post)"
  using assms
proof (induction props arbitrary: "done" pre)
  case Nil
  then show ?case by (simp add: proplist_loop.simps reader_at_def)
next
  case (Cons kv props)
  have m: "map_put (fst kv) (snd kv) done = done @ [kv]"
    using Cons.prems(2) map_put_last [of "done" "fst kv" "snd kv"]
    by (simp add: map_inv_def sorted_wrt_append)
  have "proplist_loop (done @ [kv])
      (reader_at (pre @ prop_bytes kv) (concat (map prop_bytes props) @ TAG_STRING_NULL # post)) =
    (Some ((done @ [kv]) @ props),
     reader_at ((pre @ prop_bytes kv) @ concat (map prop_bytes props) @ [TAG_STRING_NULL]) post)"
    by (rule Cons.IH) (use Cons.prems in auto)
  moreover have "GetProp (reader_at pre (prop_bytes kv @ concat (map prop_bytes props) @ TAG_STRING_NULL # post))
      = (Some kv, reader_at (pre @ prop_bytes kv) (concat (map prop_bytes props) @ TAG_STRING_NULL # post))"
    by (rule GetProp_at) (use Cons.prems in auto)
  moreover have "prop_bytes kv ! 0 = TAG_STRING" "prop_bytes kv \<noteq> []"
    by (simp_all add: prop_bytes_eq)
  ultimately show ?case
    by (subst proplist_loop.simps) (simp add: reader_at_def nth_append m)
qed

interpretation proplist_field:
  tag_field PutProplist "GetProplist []" "\<lambda>props. map_inv props \<and> (\<forall>kv \<in> set props. prop_ok kv)"
  by unfold_locales
    (simp_all add: PutProplist_def GetProplist_def raw_append fold_PutProp_append reads_def get_at
      proplist_loop_at)

end
