(* ===== verification/Ohos_Sink.thy ===== *)
theory Ohos_Sink
  imports Pa_Wire
begin

text \<open>
  The audio sink: \<open>waydroid/audio/ohos_sink.cpp\<close>.

  \<^item> \<open>OhosSink\<close> is the state of the class. \<open>sk_pc\<close> is where the render thread stands: the code
    between two lock operations is one step, so the protocol thread can run between any two of
    them. \<open>sk_played\<close> is what \<open>AudioRenderer::Write\<close> has taken and \<open>sk_signalled\<close> whether the
    \<open>notify\<close> callback has written to the loop's eventfd.
  \<^item> \<open>AudioRenderer\<close> is not part of this repository: what \<open>Create\<close>, \<open>Start\<close> and \<open>Write\<close> return
    are arguments (\<open>created\<close>, \<open>renderer_env\<close>).
  \<^item> \<open>contents\<close> abstracts the ring to the queue of buffered bytes; the locale \<open>byte_fifo\<close> is the
    contract of a bounded byte queue and the ring implements it.
  \<^item> \<open>sink_step\<close> interleaves the protocol thread's calls with the steps of the render thread.
\<close>

section \<open>Data\<close>

datatype AudioSampleFormat = OH_SAMPLE_U8 | OH_SAMPLE_S16LE | OH_SAMPLE_S24LE | OH_SAMPLE_S32LE
  | OH_SAMPLE_F32LE

definition WRITE_CHUNK_USEC :: u64 where "WRITE_CHUNK_USEC = 20000"
definition MIN_WRITE_CHUNK :: nat where "MIN_WRITE_CHUNK = 1024"

text \<open>\<open>None\<close> is \<open>supported = false\<close>.\<close>

definition ToOhosFormat :: "u8 \<Rightarrow> AudioSampleFormat option" where
  "ToOhosFormat paFormat =
     (if paFormat = SAMPLE_U8 then Some OH_SAMPLE_U8
      else if paFormat = SAMPLE_S16LE then Some OH_SAMPLE_S16LE
      else if paFormat = SAMPLE_S24LE then Some OH_SAMPLE_S24LE
      else if paFormat = SAMPLE_S32LE then Some OH_SAMPLE_S32LE
      else if paFormat = SAMPLE_FLOAT32LE then Some OH_SAMPLE_F32LE
      else None)"

record Events =
  ev_credit :: u64
  ev_underflow :: bool
  ev_started :: bool
  ev_drained :: bool

definition no_Events :: Events where
  "no_Events = \<lparr>ev_credit = 0, ev_underflow = False, ev_started = False, ev_drained = False\<rparr>"

datatype render_pc = R_Wait | R_Pause | R_Notify | R_Drain | R_Write bytes | R_Credit nat | R_Exit

record OhosSink =
  sk_renderer :: bool
  sk_spec :: SampleSpec
  sk_ring :: bytes
  sk_head :: nat
  sk_fill :: nat
  sk_corked :: bool
  sk_quit :: bool
  sk_drainRequested :: bool
  sk_playing :: bool
  sk_pending :: Events
  sk_readIndex :: u64
  sk_rendererRunning :: bool
  sk_writeFailed :: bool
  sk_startFailed :: bool
  sk_pc :: render_pc
  sk_played :: bytes
  sk_signalled :: bool

definition new_OhosSink :: OhosSink where
  "new_OhosSink = \<lparr>sk_renderer = False, sk_spec = default_SampleSpec, sk_ring = [], sk_head = 0,
     sk_fill = 0, sk_corked = True, sk_quit = False, sk_drainRequested = False, sk_playing = False,
     sk_pending = no_Events, sk_readIndex = 0, sk_rendererRunning = False, sk_writeFailed = False,
     sk_startFailed = False, sk_pc = R_Exit, sk_played = [], sk_signalled = False\<rparr>"

section \<open>The protocol thread's calls\<close>

text \<open>\<open>created\<close> says whether \<open>AudioRenderer::Create\<close> returned a renderer.\<close>

definition Open :: "bool \<Rightarrow> SampleSpec \<Rightarrow> nat \<Rightarrow> OhosSink \<Rightarrow> bool \<times> OhosSink" where
  "Open created ss ringBytes s =
     (if ToOhosFormat (ss_format ss) = None then (False, s)
      else if ss_channels ss < 1 \<or> ss_channels ss > 2 then (False, s)
      else if \<not> created then (False, s)
      else (True, s\<lparr>sk_renderer := True, sk_spec := ss, sk_ring := replicate ringBytes 0,
              sk_head := 0, sk_fill := 0, sk_readIndex := 0, sk_corked := True, sk_quit := False,
              sk_playing := False, sk_writeFailed := False, sk_pc := R_Wait\<rparr>))"

text \<open>
  \<open>Close\<close> sets \<open>quit_\<close> under the lock, joins the render thread, and only then stops and
  releases the renderer; the second half runs once the thread is gone.
\<close>

definition Close_signal :: "OhosSink \<Rightarrow> OhosSink" where
  "Close_signal s = (if sk_quit s then s else s\<lparr>sk_quit := True\<rparr>)"

definition Close_release :: "OhosSink \<Rightarrow> OhosSink" where
  "Close_release s =
     (if sk_pc s = R_Exit \<and> sk_renderer s then s\<lparr>sk_renderer := False\<rparr> else s)"

text \<open>\<open>std::copy\<close> of \<open>xs\<close> to the array \<open>ys\<close> at position \<open>pos\<close>.\<close>

definition copy_to :: "'a list \<Rightarrow> nat \<Rightarrow> 'a list \<Rightarrow> 'a list" where
  "copy_to xs pos ys = take pos ys @ xs @ drop (pos + length xs) ys"

definition Push :: "bytes \<Rightarrow> OhosSink \<Rightarrow> nat \<times> OhosSink" where
  "Push data s =
     (if sk_quit s \<or> sk_ring s = [] then (0, s)
      else
        let size = length (sk_ring s);
            accepted = min (length data) (size - sk_fill s);
            tail = (sk_head s + sk_fill s) mod size;
            first = min accepted (size - tail);
            ring1 = copy_to (take first data) tail (sk_ring s);
            ring2 = (if accepted > first then copy_to (drop first (take accepted data)) 0 ring1 else ring1)
        in (accepted, s\<lparr>sk_ring := ring2, sk_fill := sk_fill s + accepted\<rparr>))"

definition Buffered :: "OhosSink \<Rightarrow> nat" where
  "Buffered s = sk_fill s"

definition Flush :: "OhosSink \<Rightarrow> OhosSink" where
  "Flush s = s\<lparr>sk_head := 0, sk_fill := 0, sk_playing := False, sk_drainRequested := False\<rparr>"

definition SetCorked :: "bool \<Rightarrow> OhosSink \<Rightarrow> OhosSink" where
  "SetCorked corked s = s\<lparr>sk_corked := corked\<rparr>"

definition RequestDrain :: "OhosSink \<Rightarrow> OhosSink" where
  "RequestDrain s = s\<lparr>sk_drainRequested := True\<rparr>"

definition TakeEvents :: "OhosSink \<Rightarrow> Events \<times> OhosSink" where
  "TakeEvents s = (sk_pending s, s\<lparr>sk_pending := no_Events\<rparr>)"

definition ReadIndex :: "OhosSink \<Rightarrow> u64" where
  "ReadIndex s = sk_readIndex s"

definition IsPlaying :: "OhosSink \<Rightarrow> bool" where
  "IsPlaying s \<longleftrightarrow> sk_playing s \<and> \<not> sk_corked s"

text \<open>\<open>GetLatency\<close> returns a status and, through its argument, the latency.\<close>

definition SinkLatencyUsec :: "int \<times> u64 \<Rightarrow> OhosSink \<Rightarrow> u64" where
  "SinkLatencyUsec answer s =
     (if \<not> sk_renderer s then 0 else if fst answer \<noteq> 0 then 0 else snd answer)"

section \<open>The render thread\<close>

definition PopLocked :: "nat \<Rightarrow> OhosSink \<Rightarrow> bytes \<times> OhosSink" where
  "PopLocked want s =
     (let size = length (sk_ring s);
          got = min want (sk_fill s);
          first = min got (size - sk_head s);
          dst = take first (drop (sk_head s) (sk_ring s))
                @ (if got > first then take (got - first) (sk_ring s) else [])
      in (dst, s\<lparr>sk_head := (sk_head s + got) mod size, sk_fill := sk_fill s - got\<rparr>))"

definition chunk_size :: "OhosSink \<Rightarrow> nat" where
  "chunk_size s =
     min (max (unat (UsecToBytes (sk_spec s) WRITE_CHUNK_USEC)) MIN_WRITE_CHUNK) (length (sk_ring s))"

text \<open>The predicate the condition variable waits for; \<open>wait_for\<close> also returns after 100 ms.\<close>

definition wait_pred :: "OhosSink \<Rightarrow> bool" where
  "wait_pred s \<longleftrightarrow> sk_quit s \<or> (\<not> sk_corked s \<and> sk_fill s > 0) \<or> sk_drainRequested s"

text \<open>The answers of \<open>AudioRenderer\<close>: \<open>Start\<close>, and the k-th \<open>Write\<close> of a chunk.\<close>

record renderer_env =
  env_start :: bool
  env_write :: "nat \<Rightarrow> int"

text \<open>
  \<open>while (rendererRunning_ && written < got)\<close>: what is left of the chunk and whether a write
  failed. A positive return shortens the chunk, so the loop ends.
\<close>

function write_loop :: "(nat \<Rightarrow> int) \<Rightarrow> nat \<Rightarrow> bytes \<Rightarrow> bytes \<times> bool" where
  "write_loop w k left =
     (if left = [] then ([], False)
      else if w k \<le> 0 then (left, True)
      else write_loop w (Suc k) (drop (nat (w k)) left))"
  by pat_completeness auto
termination
  by (relation "measure (\<lambda>(w, k, left). length left)") auto

declare write_loop.simps [simp del]

definition render_wait :: "OhosSink \<Rightarrow> OhosSink" where
  "render_wait s =
     (if sk_quit s then s\<lparr>sk_pc := R_Exit\<rparr>
      else if \<not> sk_corked s \<and> sk_fill s > 0 then
        (case PopLocked (chunk_size s) s of (chunk, s') \<Rightarrow> s'\<lparr>sk_pc := R_Write chunk\<rparr>)
      else if sk_drainRequested s \<and> sk_fill s = 0 then
        s\<lparr>sk_drainRequested := False, sk_pc := R_Drain\<rparr>
      else if sk_corked s \<and> sk_rendererRunning s then s\<lparr>sk_pc := R_Pause\<rparr>
      else if \<not> sk_corked s \<and> sk_fill s = 0 \<and> sk_playing s then
        s\<lparr>sk_playing := False, sk_pending := (sk_pending s)\<lparr>ev_underflow := True\<rparr>, sk_pc := R_Notify\<rparr>
      else s)"

definition render_write :: "renderer_env \<Rightarrow> bytes \<Rightarrow> OhosSink \<Rightarrow> OhosSink" where
  "render_write e chunk s =
     (let running = (if sk_rendererRunning s then True else env_start e);
          startFailed = (sk_startFailed s \<or> \<not> running);
          (left, failed) = (if running then write_loop (env_write e) 0 chunk else (chunk, False))
      in s\<lparr>sk_rendererRunning := running, sk_startFailed := startFailed,
           sk_writeFailed := (sk_writeFailed s \<or> failed),
           sk_played := sk_played s @ take (length chunk - length left) chunk,
           sk_pc := R_Credit (length chunk)\<rparr>)"

definition render_credit :: "nat \<Rightarrow> OhosSink \<Rightarrow> OhosSink" where
  "render_credit got s =
     (let p = (sk_pending s)\<lparr>ev_credit := ev_credit (sk_pending s) + of_nat got\<rparr>;
          s1 = s\<lparr>sk_readIndex := sk_readIndex s + of_nat got, sk_pending := p, sk_pc := R_Notify\<rparr>
      in if \<not> sk_playing s then s1\<lparr>sk_playing := True, sk_pending := p\<lparr>ev_started := True\<rparr>\<rparr> else s1)"

definition render_step :: "renderer_env \<Rightarrow> OhosSink \<Rightarrow> OhosSink" where
  "render_step e s =
     (case sk_pc s of
        R_Wait \<Rightarrow> render_wait s
      | R_Pause \<Rightarrow> s\<lparr>sk_rendererRunning := False, sk_pc := R_Wait\<rparr>
      | R_Notify \<Rightarrow> s\<lparr>sk_signalled := True, sk_pc := R_Wait\<rparr>
      | R_Drain \<Rightarrow> s\<lparr>sk_pending := (sk_pending s)\<lparr>ev_drained := True\<rparr>, sk_pc := R_Notify\<rparr>
      | R_Write chunk \<Rightarrow> render_write e chunk s
      | R_Credit got \<Rightarrow> render_credit got s
      | R_Exit \<Rightarrow> s)"

section \<open>The ring is a bounded queue\<close>

definition ring_wf :: "OhosSink \<Rightarrow> bool" where
  "ring_wf s \<longleftrightarrow> sk_fill s \<le> length (sk_ring s) \<and> (sk_ring s \<noteq> [] \<longrightarrow> sk_head s < length (sk_ring s))"

definition contents :: "OhosSink \<Rightarrow> bytes" where
  "contents s = map (\<lambda>i. sk_ring s ! ((sk_head s + i) mod length (sk_ring s))) [0..<sk_fill s]"

lemma length_contents [simp]: "length (contents s) = sk_fill s"
  by (simp add: contents_def)

lemma length_copy_to [simp]: "pos + length xs \<le> length ys \<Longrightarrow> length (copy_to xs pos ys) = length ys"
  by (simp add: copy_to_def)

lemma nth_copy_to:
  "pos + length xs \<le> length ys \<Longrightarrow> j < length ys \<Longrightarrow>
   copy_to xs pos ys ! j = (if pos \<le> j \<and> j < pos + length xs then xs ! (j - pos) else ys ! j)"
  by (auto simp: copy_to_def nth_append min_def)

text \<open>The two copies of \<open>Push\<close>, and where a byte lands.\<close>

definition ring_put :: "bytes \<Rightarrow> nat \<Rightarrow> bytes \<Rightarrow> bytes" where
  "ring_put xs tail ring =
     (let first = min (length xs) (length ring - tail); ring1 = copy_to (take first xs) tail ring
      in if length xs > first then copy_to (drop first xs) 0 ring1 else ring1)"

lemma length_ring_put [simp]:
  "tail < length ring \<Longrightarrow> length xs \<le> length ring \<Longrightarrow> length (ring_put xs tail ring) = length ring"
  by (auto simp: ring_put_def Let_def min_def)

lemma mod_wrap: "(t :: nat) < n \<Longrightarrow> d < n \<Longrightarrow> (t + d) mod n = (if t + d < n then t + d else t + d - n)"
  by (auto simp: mod_if)

lemma nth_ring_put:
  assumes "tail < length ring" "length xs \<le> length ring" "d < length ring"
  shows "ring_put xs tail ring ! ((tail + d) mod length ring) =
    (if d < length xs then xs ! d else ring ! ((tail + d) mod length ring))"
proof (cases "length xs \<le> length ring - tail")
  case True
  then show ?thesis
    using assms by (auto simp: ring_put_def Let_def nth_copy_to mod_wrap)
next
  case False
  then have "length ring - tail < length xs" by simp
  then show ?thesis
    using assms by (auto simp: ring_put_def Let_def nth_copy_to mod_wrap min_def)
qed

lemma Push_eq:
  fixes data :: bytes
  assumes "\<not> sk_quit s" "sk_ring s \<noteq> []"
  defines "a \<equiv> min (length data) (length (sk_ring s) - sk_fill s)"
  shows "Push data s = (a, s\<lparr>sk_ring := ring_put (take a data)
      ((sk_head s + sk_fill s) mod length (sk_ring s)) (sk_ring s), sk_fill := sk_fill s + a\<rparr>)"
proof -
  have "length (take a data) = a" by (simp add: a_def)
  moreover have "take (min a n) (take a data) = take (min a n) data" for n by simp
  ultimately show ?thesis
    using assms(1,2) unfolding Push_def ring_put_def Let_def a_def [symmetric] by simp
qed

lemma contents_ring_put:
  assumes "ring_wf s" "sk_ring s \<noteq> []" "length xs \<le> length (sk_ring s) - sk_fill s"
  shows "contents (s\<lparr>sk_ring := ring_put xs ((sk_head s + sk_fill s) mod length (sk_ring s)) (sk_ring s),
      sk_fill := sk_fill s + length xs\<rparr>) = contents s @ xs"
    (is "contents ?s' = _")
proof (rule nth_equalityI)
  let ?n = "length (sk_ring s)" and ?t = "(sk_head s + sk_fill s) mod length (sk_ring s)"
  have n: "0 < ?n" "?t < ?n" "sk_head s < ?n" "sk_fill s + length xs \<le> ?n"
    using assms by (auto simp: ring_wf_def)
  have len: "length (ring_put xs ?t (sk_ring s)) = ?n" using n by simp
  fix i assume i: "i < length (contents ?s')"
  then have i': "i < sk_fill s + length xs" by simp
  show "contents ?s' ! i = (contents s @ xs) ! i"
  proof (cases "i < sk_fill s")
    case True
    define d where "d = ?n - sk_fill s + i"
    have d: "d < ?n" "length xs \<le> d" using n True by (auto simp: d_def)
    have "(?t + d) mod ?n = (sk_head s + sk_fill s + d) mod ?n" by (simp add: mod_add_left_eq)
    also have "sk_head s + sk_fill s + d = sk_head s + i + ?n" using n by (simp add: d_def)
    finally have "(?t + d) mod ?n = (sk_head s + i) mod ?n" by simp
    with nth_ring_put [of ?t "sk_ring s" xs d] n d True i' show ?thesis
      by (simp add: contents_def nth_append len)
  next
    case False
    define d where "d = i - sk_fill s"
    have d: "d < length xs" "i = sk_fill s + d" using False i' by (auto simp: d_def)
    have "(?t + d) mod ?n = (sk_head s + i) mod ?n" by (simp add: d mod_add_left_eq add.assoc)
    with nth_ring_put [of ?t "sk_ring s" xs d] n d i' show ?thesis
      by (simp add: contents_def nth_append len)
  qed
qed simp

lemma Push_contents_all:
  fixes data :: bytes
  assumes "ring_wf s" "\<not> sk_quit s"
  defines "a \<equiv> min (length data) (length (sk_ring s) - sk_fill s)"
  shows "fst (Push data s) = a \<and> contents (snd (Push data s)) = contents s @ take a data \<and>
    ring_wf (snd (Push data s)) \<and> length (sk_ring (snd (Push data s))) = length (sk_ring s)"
proof (cases "sk_ring s = []")
  case True
  with assms show ?thesis by (simp add: Push_def)
next
  case False
  let ?t = "(sk_head s + sk_fill s) mod length (sk_ring s)"
  have len: "length (take a data) = a" "a \<le> length (sk_ring s) - sk_fill s" "?t < length (sk_ring s)"
    "length (take a data) \<le> length (sk_ring s)"
    using False by (auto simp: a_def)
  with contents_ring_put [OF assms(1) False, of "take a data"] assms(1,2) False
  show ?thesis
    unfolding Push_eq [OF assms(2) False] a_def [symmetric] by (auto simp: ring_wf_def)
qed

lemma Push_contents:
  assumes "ring_wf s" "\<not> sk_quit s"
  shows "fst (Push data s) = min (length data) (length (sk_ring s) - sk_fill s)"
    "contents (snd (Push data s)) = contents s @ take (fst (Push data s)) data"
    "ring_wf (snd (Push data s))" "length (sk_ring (snd (Push data s))) = length (sk_ring s)"
  using Push_contents_all [OF assms, of data] by simp_all

lemma PopLocked_contents:
  assumes "ring_wf s"
  shows "fst (PopLocked want s) = take want (contents s)"
    "contents (snd (PopLocked want s)) = drop want (contents s)"
    "ring_wf (snd (PopLocked want s))" "sk_ring (snd (PopLocked want s)) = sk_ring s"
proof -
  let ?n = "length (sk_ring s)" and ?got = "min want (sk_fill s)"
  have wf: "sk_fill s \<le> ?n" "0 < sk_fill s \<longrightarrow> sk_head s < ?n"
    using assms by (auto simp: ring_wf_def)
  show "fst (PopLocked want s) = take want (contents s)"
  proof (rule nth_equalityI)
    show len: "length (fst (PopLocked want s)) = length (take want (contents s))"
      using wf by (auto simp: PopLocked_def Let_def min_def)
    fix i assume "i < length (fst (PopLocked want s))"
    then have i: "i < want" "i < sk_fill s" by (simp_all add: len)
    then have "sk_head s < ?n" using wf by simp
    with i wf show "fst (PopLocked want s) ! i = take want (contents s) ! i"
      by (auto simp: PopLocked_def Let_def contents_def nth_append mod_wrap min_def add.commute)
  qed
  show "contents (snd (PopLocked want s)) = drop want (contents s)"
    by (rule nth_equalityI)
      (auto simp: PopLocked_def Let_def contents_def mod_add_left_eq add.assoc min_def)
  show "ring_wf (snd (PopLocked want s))"
    using wf by (auto simp: PopLocked_def Let_def ring_wf_def)
  show "sk_ring (snd (PopLocked want s)) = sk_ring s"
    by (simp add: PopLocked_def Let_def)
qed

text \<open>The contract of a bounded byte queue.\<close>

locale byte_fifo =
  fixes enq :: "bytes \<Rightarrow> 's \<Rightarrow> nat \<times> 's"
    and deq :: "nat \<Rightarrow> 's \<Rightarrow> bytes \<times> 's"
    and clear :: "'s \<Rightarrow> 's"
    and queue :: "'s \<Rightarrow> bytes"
    and room :: "'s \<Rightarrow> nat"
    and invar :: "'s \<Rightarrow> bool"
  assumes enq_accepts: "invar s \<Longrightarrow> fst (enq d s) = min (length d) (room s)"
    and enq_queue: "invar s \<Longrightarrow> queue (snd (enq d s)) = queue s @ take (fst (enq d s)) d"
    and enq_room: "invar s \<Longrightarrow> room (snd (enq d s)) = room s - fst (enq d s)"
    and enq_invar: "invar s \<Longrightarrow> invar (snd (enq d s))"
    and deq_out: "invar s \<Longrightarrow> fst (deq n s) = take n (queue s)"
    and deq_queue: "invar s \<Longrightarrow> queue (snd (deq n s)) = drop n (queue s)"
    and deq_room: "invar s \<Longrightarrow> room (snd (deq n s)) = room s + length (fst (deq n s))"
    and deq_invar: "invar s \<Longrightarrow> invar (snd (deq n s))"
    and clear_queue: "invar s \<Longrightarrow> queue (clear s) = []"
    and clear_room: "invar s \<Longrightarrow> room (clear s) = room s + length (queue s)"
    and clear_invar: "invar s \<Longrightarrow> invar (clear s)"
begin

text \<open>The capacity never changes, and what went in comes out in order.\<close>

lemma enq_capacity: "invar s \<Longrightarrow> room (snd (enq d s)) + length (queue (snd (enq d s))) = room s + length (queue s)"
  by (simp add: enq_room enq_queue enq_accepts)

lemma deq_capacity: "invar s \<Longrightarrow> room (snd (deq n s)) + length (queue (snd (deq n s))) = room s + length (queue s)"
  by (simp add: deq_room deq_queue deq_out)

lemma enq_all: "invar s \<Longrightarrow> length d \<le> room s \<Longrightarrow> fst (enq d s) = length d"
  by (simp add: enq_accepts)

lemma deq_conserves: "invar s \<Longrightarrow> fst (deq n s) @ queue (snd (deq n s)) = queue s"
  by (simp add: deq_out deq_queue)

lemma enq_deq: "invar s \<Longrightarrow> fst (deq n (snd (enq d s))) = take n (queue s @ take (fst (enq d s)) d)"
  by (simp add: deq_out enq_queue enq_invar)

text \<open>A batch of writes, each fully accepted when the total fits, drained in one go.\<close>

lemma enq_batch:
  "invar s \<Longrightarrow> length (concat ds) \<le> room s \<Longrightarrow>
   queue (fold (\<lambda>d s. snd (enq d s)) ds s) = queue s @ concat ds \<and>
   invar (fold (\<lambda>d s. snd (enq d s)) ds s)"
proof (induction ds arbitrary: s)
  case Nil
  then show ?case by simp
next
  case (Cons d ds)
  then have "fst (enq d s) = length d" by (simp add: enq_accepts)
  with Cons show ?case by (simp add: enq_invar enq_room enq_queue)
qed

end

definition room :: "OhosSink \<Rightarrow> nat" where
  "room s = length (sk_ring s) - sk_fill s"

definition sink_open :: "OhosSink \<Rightarrow> bool" where
  "sink_open s \<longleftrightarrow> ring_wf s \<and> \<not> sk_quit s"

lemma sk_quit_Push [attr_simps]: "sk_quit (snd (Push d s)) = sk_quit s"
  by (simp add: Push_def Let_def)

lemma sk_quit_PopLocked [attr_simps]: "sk_quit (snd (PopLocked n s)) = sk_quit s"
  by (simp add: PopLocked_def Let_def)

lemma sk_fill_Push: "sink_open s \<Longrightarrow> sk_fill (snd (Push d s)) = sk_fill s + min (length d) (room s)"
  using Push_contents(1,2) [of s d] length_contents [of "snd (Push d s)"]
  by (simp add: sink_open_def room_def)

lemma sk_fill_PopLocked: "sk_fill (snd (PopLocked n s)) = sk_fill s - min n (sk_fill s)"
  by (simp add: PopLocked_def Let_def)

interpretation ring: byte_fifo Push PopLocked Flush contents room sink_open
proof
  fix s :: OhosSink and d :: bytes and n :: nat
  assume so: "sink_open s"
  then have wf: "ring_wf s" "\<not> sk_quit s" by (simp_all add: sink_open_def)
  note push = Push_contents [OF wf, of d] and pop = PopLocked_contents [OF wf(1), of n]
  show "fst (Push d s) = min (length d) (room s)" by (simp add: push room_def)
  show "contents (snd (Push d s)) = contents s @ take (fst (Push d s)) d" by (simp add: push)
  show "room (snd (Push d s)) = room s - fst (Push d s)"
    using sk_fill_Push [OF so, of d] by (simp add: push room_def)
  show "sink_open (snd (Push d s))" using wf by (simp add: sink_open_def push attr_simps)
  show "fst (PopLocked n s) = take n (contents s)" by (rule pop)
  show "contents (snd (PopLocked n s)) = drop n (contents s)" by (rule pop)
  show "room (snd (PopLocked n s)) = room s + length (fst (PopLocked n s))"
    using wf by (auto simp: pop room_def sk_fill_PopLocked ring_wf_def min_def)
  show "sink_open (snd (PopLocked n s))" using wf by (simp add: sink_open_def pop attr_simps)
  show "contents (Flush s) = []" by (simp add: Flush_def contents_def)
  show "room (Flush s) = room s + length (contents s)"
    using wf by (simp add: Flush_def room_def ring_wf_def)
  show "sink_open (Flush s)" using wf by (auto simp: Flush_def sink_open_def ring_wf_def)
qed

end
