(* ===== verification/Pa_Server.thy ===== *)
theory Pa_Server
  imports Pa_Codec Ohos_Sink
begin

text \<open>
  The PulseAudio server's handlers: \<open>waydroid/audio/waydroid_audio_main.cpp\<close> up to
  \<open>Server::PumpSinks\<close>.

  \<^item> \<open>Stream\<close>, \<open>Connection\<close> and \<open>Counters\<close> are the state of a playback stream, of a client and
    the two index counters of the server. A stream enters \<open>c_streams\<close> only with an open sink,
    so the null checks on \<open>s.sink\<close> are dead and the sink is a plain field.
  \<^item> A handler maps counters and connection to the \<open>bool\<close> the code returns (\<open>False\<close> drops the
    client) and the new state; \<open>c_out\<close> is the output buffer it appends to.
  \<^item> \<open>srv_env\<close> is what the outside answers during one packet: the clock, the renderer's
    latency and whether a renderer could be created.
  \<^item> \<open>st_outstanding\<close> is an \<open>int\<close>: \<open>int64_t\<close> overflow is undefined in C++, and the invariant
    \<open>stream_wf\<close> bounds it far below.
\<close>

section \<open>State\<close>

definition ascii :: "string \<Rightarrow> bytes" where
  "ascii s = map (\<lambda>c. of_nat (of_char c)) s"

definition SINK_NAME :: bytes where "SINK_NAME = ascii ''waydroid_output''"
definition SOURCE_NAME :: bytes where "SOURCE_NAME = ascii ''waydroid_input''"
definition DEFAULT_MAXLENGTH_USEC :: u64 where "DEFAULT_MAXLENGTH_USEC = 2000000"
definition DEFAULT_TLENGTH_USEC :: u64 where "DEFAULT_TLENGTH_USEC = 200000"
definition ABSOLUTE_MAX_BUFFER :: nat where "ABSOLUTE_MAX_BUFFER = 16 * 1024 * 1024"

record Stream =
  st_channel :: u32
  st_index :: u32
  st_ss :: SampleSpec
  st_cm :: ChannelMap
  st_attr :: BufferAttr
  st_corked :: bool
  st_sink :: OhosSink
  st_writeIndex :: u64
  st_outstanding :: int
  st_underrunFor :: u64
  st_playingFor :: u64
  st_startedAtUsec :: u64
  st_drainPending :: bool
  st_drainTag :: u32

record Connection =
  c_fd :: int
  c_version :: u32
  c_authorized :: bool
  c_in :: bytes
  c_out :: bytes
  c_streams :: "(u32, Stream) smap"
  c_nextChannel :: u32

definition new_Connection :: "int \<Rightarrow> Connection" where
  "new_Connection fd = \<lparr>c_fd = fd, c_version = PROTOCOL_VERSION, c_authorized = False, c_in = [],
     c_out = [], c_streams = [], c_nextChannel = 0\<rparr>"

record Counters =
  nextStreamIndex :: u32
  nextClientIndex :: u32

record srv_env =
  env_now :: u64
  env_latency :: "int \<times> u64"
  env_created :: bool

section \<open>Sending\<close>

definition descriptor :: "nat \<Rightarrow> u32 \<Rightarrow> u32 \<Rightarrow> bytes" where
  "descriptor len channel flags =
     be_bytes32 (of_nat len) @ be_bytes32 channel @ be_bytes32 0 @ be_bytes32 0 @ be_bytes32 flags"

definition Send :: "u32 \<Rightarrow> bytes \<Rightarrow> u32 \<Rightarrow> Connection \<Rightarrow> Connection" where
  "Send channel payload flags c =
     c\<lparr>c_out := c_out c @ descriptor (length payload) channel flags @ payload\<rparr>"

definition SendTag :: "bytes \<Rightarrow> Connection \<Rightarrow> Connection" where
  "SendTag t c = Send CHANNEL_COMMAND t 0 c"

definition SendReplyHeader :: "u32 \<Rightarrow> bytes \<Rightarrow> bytes" where
  "SendReplyHeader tag t = PutU32 tag (PutU32 COMMAND_REPLY t)"

definition SendSimpleAck :: "u32 \<Rightarrow> Connection \<Rightarrow> Connection" where
  "SendSimpleAck tag c = SendTag (SendReplyHeader tag []) c"

definition SendError :: "u32 \<Rightarrow> u32 \<Rightarrow> Connection \<Rightarrow> Connection" where
  "SendError tag err c = SendTag (PutU32 err (PutU32 tag (PutU32 COMMAND_ERROR []))) c"

definition SendEvent :: "u32 \<Rightarrow> u32 \<Rightarrow> int option \<Rightarrow> Connection \<Rightarrow> Connection" where
  "SendEvent command streamChannel extra c =
     (let t = PutU32 streamChannel (PutU32 INVALID_INDEX (PutU32 command []))
      in SendTag (case extra of None \<Rightarrow> t | Some v \<Rightarrow> PutS64 v t) c)"

definition FindStream :: "Connection \<Rightarrow> u32 \<Rightarrow> Stream option" where
  "FindStream c channel = map_find channel (c_streams c)"

text \<open>Writing a stream back after mutating it through the pointer.\<close>

definition set_stream :: "u32 \<Rightarrow> Stream \<Rightarrow> Connection \<Rightarrow> Connection" where
  "set_stream channel s c = c\<lparr>c_streams := map_put channel s (c_streams c)\<rparr>"

section \<open>Flow control\<close>

definition request_msg :: "u32 \<Rightarrow> u32 \<Rightarrow> bytes" where
  "request_msg channel amount =
     PutU32 amount (PutU32 channel (PutU32 INVALID_INDEX (PutU32 COMMAND_REQUEST [])))"

definition MaybeRequest :: "Connection \<Rightarrow> Stream \<Rightarrow> Connection \<times> Stream" where
  "MaybeRequest c s =
     (let buffered = int (Buffered (st_sink s));
          owed = uint (ba_tlength (st_attr s)) - buffered - st_outstanding s
      in if owed < uint (ba_minreq (st_attr s)) then (c, s)
         else (SendTag (request_msg (st_channel s) (of_int owed)) c,
               s\<lparr>st_outstanding := st_outstanding s + owed\<rparr>))"

definition HandleStreamData :: "u32 \<Rightarrow> u32 \<Rightarrow> bytes \<Rightarrow> Connection \<Rightarrow> Connection" where
  "HandleStreamData channel flags data c =
     (case FindStream c channel of
        None \<Rightarrow> c
      | Some s \<Rightarrow>
          let s1 = s\<lparr>st_writeIndex := st_writeIndex s + of_nat (length data),
                     st_outstanding := st_outstanding s - int (length data)\<rparr>;
              (accepted, sink) = Push data (st_sink s1);
              s2 = s1\<lparr>st_sink := sink\<rparr>;
              c2 = (if accepted < length data then SendEvent COMMAND_OVERFLOW channel None c else c);
              (c3, s3) = MaybeRequest c2 s2
          in set_stream channel s3 c3)"

section \<open>Creating a playback stream\<close>

record CreateReq =
  cr_ss :: SampleSpec
  cr_cm :: ChannelMap
  cr_maxlength :: u32
  cr_corked :: bool
  cr_tlength :: u32
  cr_prebuf :: u32
  cr_minreq :: u32
  cr_props :: "(bytes, bytes) smap"

fun get_flags :: "nat \<Rightarrow> unit getter" where
  "get_flags 0 = rd_return ()"
| "get_flags (Suc n) = rd_bind GetBool (\<lambda>_. get_flags n)"

text \<open>The v13 request layout of \<open>HandleCreatePlayback\<close>, field by field.\<close>

definition get_CreateReq :: "CreateReq getter" where
  "get_CreateReq =
     rd_bind GetSampleSpec (\<lambda>ss. rd_bind (GetChannelMap default_ChannelMap) (\<lambda>cm.
     rd_bind GetU32 (\<lambda>sinkIndex. rd_bind GetString (\<lambda>device. rd_bind GetU32 (\<lambda>maxlength.
     rd_bind GetBool (\<lambda>corked. rd_bind GetU32 (\<lambda>tlength. rd_bind GetU32 (\<lambda>prebuf.
     rd_bind GetU32 (\<lambda>minreq. rd_bind GetU32 (\<lambda>syncId. rd_bind GetCVolume (\<lambda>vol.
     rd_bind (get_flags 7) (\<lambda>_. rd_bind GetBool (\<lambda>startMuted. rd_bind GetBool (\<lambda>adjustLatency.
     rd_bind (GetProplist []) (\<lambda>props.
     rd_return \<lparr>cr_ss = ss, cr_cm = cm, cr_maxlength = maxlength, cr_corked = corked,
       cr_tlength = tlength, cr_prebuf = prebuf, cr_minreq = minreq, cr_props = props\<rparr>)))))))))))))))"

text \<open>Filling in what the client left open, then making the numbers sane.\<close>

definition unset :: "u32 \<Rightarrow> bool" where
  "unset v \<longleftrightarrow> v = INVALID_INDEX \<or> v = 0"

text \<open>\<open>static_cast<uint32_t>(std::min<size_t>(std::max<size_t>(v, frame), hi))\<close>.\<close>

definition clamp32 :: "nat \<Rightarrow> nat \<Rightarrow> u32 \<Rightarrow> u32" where
  "clamp32 frame hi v = of_nat (min (max (unat v) frame) hi)"

definition sane_maxlength :: "SampleSpec \<Rightarrow> u32 \<Rightarrow> u32" where
  "sane_maxlength ss v = clamp32 (FrameSize ss) ABSOLUTE_MAX_BUFFER
     (if unset v then ucast (UsecToBytes ss DEFAULT_MAXLENGTH_USEC) else v)"

definition sane_tlength :: "SampleSpec \<Rightarrow> u32 \<Rightarrow> u32 \<Rightarrow> u32" where
  "sane_tlength ss maxlength v = clamp32 (FrameSize ss) (unat maxlength)
     (if unset v then ucast (UsecToBytes ss DEFAULT_TLENGTH_USEC) else v)"

definition sane_minreq :: "SampleSpec \<Rightarrow> u32 \<Rightarrow> u32 \<Rightarrow> u32" where
  "sane_minreq ss tlength v = clamp32 (FrameSize ss) (unat tlength)
     (if unset v then tlength div 4 else v)"

definition sane_prebuf :: "u32 \<Rightarrow> u32 \<Rightarrow> u32" where
  "sane_prebuf tlength v = min (if v = INVALID_INDEX then tlength else v) tlength"

definition sane_attr :: "SampleSpec \<Rightarrow> BufferAttr \<Rightarrow> BufferAttr" where
  "sane_attr ss a =
     (let maxlength = sane_maxlength ss (ba_maxlength a);
          tlength = sane_tlength ss maxlength (ba_tlength a)
      in a\<lparr>ba_maxlength := maxlength, ba_tlength := tlength,
           ba_minreq := sane_minreq ss tlength (ba_minreq a),
           ba_prebuf := sane_prebuf tlength (ba_prebuf a)\<rparr>)"

definition create_reply :: "u32 \<Rightarrow> u64 \<Rightarrow> Stream \<Rightarrow> bytes" where
  "create_reply tag latency s =
     PutUsec latency (PutBool False (PutString (Some SINK_NAME) (PutU32 0
       (PutChannelMap (st_cm s) (PutSampleSpec (st_ss s)
       (PutU32 (ba_minreq (st_attr s)) (PutU32 (ba_prebuf (st_attr s))
       (PutU32 (ba_tlength (st_attr s)) (PutU32 (ba_maxlength (st_attr s))
       (PutU32 (ba_tlength (st_attr s)) (PutU32 (st_index s) (PutU32 (st_channel s)
       (SendReplyHeader tag [])))))))))))))"

definition requested_attr :: "CreateReq \<Rightarrow> BufferAttr" where
  "requested_attr q = sane_attr (cr_ss q)
     (default_BufferAttr\<lparr>ba_maxlength := cr_maxlength q, ba_tlength := cr_tlength q,
        ba_prebuf := cr_prebuf q, ba_minreq := cr_minreq q\<rparr>)"

definition created_stream ::
  "srv_env \<Rightarrow> u32 \<Rightarrow> u32 \<Rightarrow> CreateReq \<Rightarrow> OhosSink \<Rightarrow> Stream" where
  "created_stream e channel index q sink =
     \<lparr>st_channel = channel, st_index = index, st_ss = cr_ss q, st_cm = cr_cm q,
      st_attr = requested_attr q, st_corked = cr_corked q, st_sink = SetCorked (cr_corked q) sink,
      st_writeIndex = 0, st_outstanding = uint (ba_tlength (requested_attr q)), st_underrunFor = 0,
      st_playingFor = 0, st_startedAtUsec = env_now e, st_drainPending = False, st_drainTag = 0\<rparr>"

definition HandleCreatePlayback ::
  "srv_env \<Rightarrow> Counters \<Rightarrow> Connection \<Rightarrow> u32 \<Rightarrow> TagReader \<Rightarrow> bool \<times> Counters \<times> Connection" where
  "HandleCreatePlayback e n c tag r =
     (case fst (get_CreateReq r) of
        None \<Rightarrow> (False, n, c)
      | Some q \<Rightarrow>
          if \<not> Valid (cr_ss q) then (True, n, SendError tag ERR_INVALID c)
          else
            (case Open (env_created e) (cr_ss q) (unat (ba_maxlength (requested_attr q))) new_OhosSink of
               (opened, sink) \<Rightarrow>
                 if \<not> opened then (True, n, SendError tag ERR_INVALID c)
                 else
                   let s = created_stream e (c_nextChannel c) (nextStreamIndex n) q sink;
                       c1 = c\<lparr>c_nextChannel := c_nextChannel c + 1\<rparr>;
                       c2 = SendTag (create_reply tag (SinkLatencyUsec (env_latency e) (st_sink s)) s) c1
                   in (True, n\<lparr>nextStreamIndex := nextStreamIndex n + 1\<rparr>,
                       set_stream (st_channel s) s c2)))"

section \<open>Commands\<close>

text \<open>
  One definition per case of the switch in \<open>HandleCommand\<close>. \<open>with_stream\<close> is the lookup that
  answers \<open>ERR_NOENTITY\<close> for an unknown channel.
\<close>

type_synonym handled = "bool \<times> Counters \<times> Connection"

definition with_stream ::
  "Counters \<Rightarrow> Connection \<Rightarrow> u32 \<Rightarrow> u32 \<Rightarrow> (Stream \<Rightarrow> Connection) \<Rightarrow> handled" where
  "with_stream n c tag channel k =
     (case FindStream c channel of
        None \<Rightarrow> (True, n, SendError tag ERR_NOENTITY c)
      | Some s \<Rightarrow> (True, n, k s))"

definition cmd_auth :: "Counters \<Rightarrow> Connection \<Rightarrow> u32 \<Rightarrow> TagReader \<Rightarrow> handled" where
  "cmd_auth n c tag r =
     (case fst (rd_bind GetU32 (\<lambda>version. rd_bind GetArbitrary (\<lambda>cookie. rd_return version)) r) of
        None \<Rightarrow> (False, n, c)
      | Some version \<Rightarrow>
          let peer = version AND VERSION_MASK
          in if peer < 8 then (True, n, SendError tag ERR_VERSION c)
             else let c1 = c\<lparr>c_version := min peer PROTOCOL_VERSION, c_authorized := True\<rparr>
                  in (True, n, SendTag (PutU32 (c_version c1) (SendReplyHeader tag [])) c1))"

definition cmd_set_client_name :: "Counters \<Rightarrow> Connection \<Rightarrow> u32 \<Rightarrow> TagReader \<Rightarrow> handled" where
  "cmd_set_client_name n c tag r =
     (let parsed = (if c_version c \<ge> 13 then fst (rd_bind (GetProplist []) (\<lambda>_. rd_return ()) r)
                    else fst (rd_bind GetString (\<lambda>_. rd_return ()) r))
      in case parsed of
           None \<Rightarrow> (False, n, c)
         | Some _ \<Rightarrow>
             let t = SendReplyHeader tag []
             in if c_version c \<ge> 13 then
                  (True, n\<lparr>nextClientIndex := nextClientIndex n + 1\<rparr>,
                   SendTag (PutU32 (nextClientIndex n) t) c)
                else (True, n, SendTag t c))"

definition cmd_delete :: "Counters \<Rightarrow> Connection \<Rightarrow> u32 \<Rightarrow> TagReader \<Rightarrow> handled" where
  "cmd_delete n c tag r =
     (case fst (GetU32 r) of
        None \<Rightarrow> (False, n, c)
      | Some channel \<Rightarrow>
          with_stream n c tag channel (\<lambda>s.
            SendSimpleAck tag (c\<lparr>c_streams := map_erase channel (c_streams c)\<rparr>)))"

definition cmd_cork :: "Counters \<Rightarrow> Connection \<Rightarrow> u32 \<Rightarrow> TagReader \<Rightarrow> handled" where
  "cmd_cork n c tag r =
     (case fst (rd_bind GetU32 (\<lambda>channel. rd_bind GetBool (\<lambda>cork. rd_return (channel, cork))) r) of
        None \<Rightarrow> (False, n, c)
      | Some (channel, cork) \<Rightarrow>
          with_stream n c tag channel (\<lambda>s.
            let s1 = s\<lparr>st_corked := cork, st_sink := SetCorked cork (st_sink s)\<rparr>;
                (c2, s2) = MaybeRequest (SendSimpleAck tag c) s1
            in set_stream channel s2 c2))"

definition cmd_flush :: "Counters \<Rightarrow> Connection \<Rightarrow> u32 \<Rightarrow> TagReader \<Rightarrow> handled" where
  "cmd_flush n c tag r =
     (case fst (GetU32 r) of
        None \<Rightarrow> (False, n, c)
      | Some channel \<Rightarrow>
          with_stream n c tag channel (\<lambda>s.
            let s1 = s\<lparr>st_sink := Flush (st_sink s)\<rparr>;
                (c2, s2) = MaybeRequest (SendSimpleAck tag c) s1
            in set_stream channel s2 c2))"

definition cmd_trigger :: "Counters \<Rightarrow> Connection \<Rightarrow> u32 \<Rightarrow> TagReader \<Rightarrow> handled" where
  "cmd_trigger n c tag r =
     (case fst (GetU32 r) of
        None \<Rightarrow> (False, n, c)
      | Some channel \<Rightarrow> with_stream n c tag channel (\<lambda>s. SendSimpleAck tag c))"

definition cmd_drain :: "Counters \<Rightarrow> Connection \<Rightarrow> u32 \<Rightarrow> TagReader \<Rightarrow> handled" where
  "cmd_drain n c tag r =
     (case fst (GetU32 r) of
        None \<Rightarrow> (False, n, c)
      | Some channel \<Rightarrow>
          with_stream n c tag channel (\<lambda>s.
            set_stream channel (s\<lparr>st_drainPending := True, st_drainTag := tag,
              st_sink := RequestDrain (st_sink s)\<rparr>) c))"

definition latency_reply :: "srv_env \<Rightarrow> u32 \<Rightarrow> u32 \<Rightarrow> u32 \<Rightarrow> u32 \<Rightarrow> Stream \<Rightarrow> bytes" where
  "latency_reply e version tag sec usec s =
     (let t = PutS64 (sint (ReadIndex (st_sink s))) (PutS64 (sint (st_writeIndex s))
          (PutTimeval (ucast (env_now e div 1000000)) (ucast (env_now e mod 1000000))
          (PutTimeval sec usec (PutBool (IsPlaying (st_sink s)) (PutUsec 0
          (PutUsec (SinkLatencyUsec (env_latency e) (st_sink s)) (SendReplyHeader tag [])))))))
      in if version \<ge> 13 then PutU64 (st_playingFor s) (PutU64 (st_underrunFor s) t) else t)"

definition cmd_latency :: "srv_env \<Rightarrow> Counters \<Rightarrow> Connection \<Rightarrow> u32 \<Rightarrow> TagReader \<Rightarrow> handled" where
  "cmd_latency e n c tag r =
     (case fst (rd_bind GetU32 (\<lambda>channel. rd_bind GetTimeval (\<lambda>tv. rd_return (channel, tv))) r) of
        None \<Rightarrow> (False, n, c)
      | Some (channel, sec, usec) \<Rightarrow>
          with_stream n c tag channel (\<lambda>s.
            SendTag (latency_reply e (c_version c) tag sec usec s) c))"

definition cmd_set_stream_name :: "Counters \<Rightarrow> Connection \<Rightarrow> u32 \<Rightarrow> TagReader \<Rightarrow> handled" where
  "cmd_set_stream_name n c tag r =
     (case fst (rd_bind GetU32 (\<lambda>channel. GetString) r) of
        None \<Rightarrow> (False, n, c)
      | Some _ \<Rightarrow> (True, n, SendSimpleAck tag c))"

definition cmd_buffer_attr :: "srv_env \<Rightarrow> Counters \<Rightarrow> Connection \<Rightarrow> u32 \<Rightarrow> TagReader \<Rightarrow> handled" where
  "cmd_buffer_attr e n c tag r =
     (case fst (rd_bind GetU32 (\<lambda>channel. rd_bind GetU32 (\<lambda>maxlength. rd_bind GetU32 (\<lambda>tlength.
            rd_bind GetU32 (\<lambda>prebuf. rd_bind GetU32 (\<lambda>minreq. rd_return channel))))) r) of
        None \<Rightarrow> (False, n, c)
      | Some channel \<Rightarrow>
          with_stream n c tag channel (\<lambda>s.
            let t = PutU32 (ba_minreq (st_attr s)) (PutU32 (ba_prebuf (st_attr s))
                  (PutU32 (ba_tlength (st_attr s)) (PutU32 (ba_maxlength (st_attr s))
                  (SendReplyHeader tag []))))
            in SendTag (if c_version c \<ge> 13 then PutUsec (SinkLatencyUsec (env_latency e) (st_sink s)) t
                        else t) c))"

definition cmd_server_info :: "Counters \<Rightarrow> Connection \<Rightarrow> u32 \<Rightarrow> handled" where
  "cmd_server_info n c tag =
     (let t = PutU32 0 (PutString (Some SOURCE_NAME) (PutString (Some SINK_NAME)
          (PutSampleSpec default_SampleSpec (PutString (Some (ascii ''localhost''))
          (PutString (Some (ascii ''waydroid'')) (PutString (Some (ascii ''13.0.0''))
          (PutString (Some (ascii ''waydroid_audio'')) (SendReplyHeader tag []))))))))
      in (True, n, SendTag (if c_version c \<ge> 15 then PutChannelMap default_ChannelMap t else t) c))"

definition HandleCommand ::
  "srv_env \<Rightarrow> Counters \<Rightarrow> Connection \<Rightarrow> u32 \<Rightarrow> u32 \<Rightarrow> TagReader \<Rightarrow> handled" where
  "HandleCommand e n c command tag r =
     (if \<not> c_authorized c \<and> command \<noteq> COMMAND_AUTH then (True, n, SendError tag ERR_ACCESS c)
      else if command = COMMAND_AUTH then cmd_auth n c tag r
      else if command = COMMAND_SET_CLIENT_NAME then cmd_set_client_name n c tag r
      else if command = COMMAND_CREATE_PLAYBACK_STREAM then HandleCreatePlayback e n c tag r
      else if command = COMMAND_DELETE_PLAYBACK_STREAM then cmd_delete n c tag r
      else if command = COMMAND_CORK_PLAYBACK_STREAM then cmd_cork n c tag r
      else if command = COMMAND_FLUSH_PLAYBACK_STREAM then cmd_flush n c tag r
      else if command = COMMAND_TRIGGER_PLAYBACK_STREAM \<or> command = COMMAND_PREBUF_PLAYBACK_STREAM
        then cmd_trigger n c tag r
      else if command = COMMAND_DRAIN_PLAYBACK_STREAM then cmd_drain n c tag r
      else if command = COMMAND_GET_PLAYBACK_LATENCY then cmd_latency e n c tag r
      else if command = COMMAND_SET_PLAYBACK_STREAM_NAME then cmd_set_stream_name n c tag r
      else if command = COMMAND_SET_PLAYBACK_STREAM_BUFFER_ATTR then cmd_buffer_attr e n c tag r
      else if command = COMMAND_GET_SERVER_INFO then cmd_server_info n c tag
      else if command = COMMAND_CREATE_RECORD_STREAM then (True, n, SendError tag ERR_NOTSUPPORTED c)
      else if command = COMMAND_EXIT then (True, n, SendSimpleAck tag c)
      else (True, n, SendError tag ERR_NOTSUPPORTED c))"

definition HandlePacket ::
  "srv_env \<Rightarrow> Counters \<Rightarrow> Connection \<Rightarrow> u32 \<Rightarrow> u32 \<Rightarrow> bytes \<Rightarrow> handled" where
  "HandlePacket e n c channel flags data =
     (if channel \<noteq> CHANNEL_COMMAND then (True, n, HandleStreamData channel flags data c)
      else if flags AND FLAG_SHMDATA \<noteq> 0 then (False, n, c)
      else (case rd_bind GetU32 (\<lambda>command. rd_bind GetU32 (\<lambda>tag. rd_return (command, tag)))
                   (mk_TagReader data) of
              (None, _) \<Rightarrow> (False, n, c)
            | (Some (command, tag), r) \<Rightarrow> HandleCommand e n c command tag r))"

section \<open>Pumping the sinks\<close>

definition pump_stream :: "Connection \<Rightarrow> Stream \<Rightarrow> Connection \<times> Stream" where
  "pump_stream c s =
     (let (ev, sink) = TakeEvents (st_sink s);
          s1 = s\<lparr>st_sink := sink\<rparr>;
          s2 = (if ev_credit ev > 0
                then s1\<lparr>st_playingFor := st_playingFor s1 + BytesToUsec (st_ss s1) (ev_credit ev)\<rparr> else s1);
          c2 = (if ev_started ev then SendEvent COMMAND_STARTED (st_channel s2) None c else c);
          (c3, s3) =
            (if ev_underflow ev then
               (SendEvent COMMAND_UNDERFLOW (st_channel s2)
                  (if c_version c2 \<ge> 23 then Some (sint (ReadIndex (st_sink s2))) else None) c2,
                s2\<lparr>st_underrunFor := st_underrunFor s2 + 1\<rparr>)
             else (c2, s2));
          (c4, s4) =
            (if ev_drained ev \<and> st_drainPending s3 then
               (SendSimpleAck (st_drainTag s3) c3, s3\<lparr>st_drainPending := False\<rparr>)
             else (c3, s3))
      in MaybeRequest c4 s4)"

text \<open>
  The inner loop of \<open>PumpSinks\<close> over the streams of a connection, in key order. The iteration
  mutates the streams in place; the updated ones are collected in \<open>done\<close>.
\<close>

fun pump_streams :: "(u32, Stream) smap \<Rightarrow> (u32, Stream) smap \<Rightarrow> Connection \<Rightarrow> Connection" where
  "pump_streams done [] c = c\<lparr>c_streams := rev done\<rparr>"
| "pump_streams done ((k, s) # rest) c =
     (case pump_stream c s of (c', s') \<Rightarrow> pump_streams ((k, s') # done) rest c')"

definition pump_connection :: "Connection \<Rightarrow> Connection" where
  "pump_connection c = pump_streams [] (c_streams c) c"

definition PumpSinks :: "(int, Connection) smap \<Rightarrow> (int, Connection) smap" where
  "PumpSinks conns = map (\<lambda>(fd, c). (fd, pump_connection c)) conns"

end
