(* ===== verification/Sink_Run.thy ===== *)
theory Sink_Run
  imports Ohos_Sink
begin

text \<open>
  The sink under concurrency: every interleaving of the protocol thread's calls with the render
  thread of \<open>OhosSink::RenderLoop\<close> (\<open>ohos_sink.cpp\<close>). A run is a list of labels; the labels
  record what was accepted, what a flush discarded and which events were collected, so that the
  theorems can balance the books: no byte is lost, duplicated or reordered, and every drained
  byte becomes credit exactly once.
\<close>

section \<open>Steps and runs\<close>

datatype sink_label =
    L_Push bytes
  | L_Flush nat
  | L_Cork bool
  | L_DrainRequest
  | L_Take Events
  | L_Quit
  | L_Render renderer_env

inductive sink_step :: "OhosSink \<Rightarrow> sink_label \<Rightarrow> OhosSink \<Rightarrow> bool" where
  push: "Push d s = (a, s') \<Longrightarrow> sink_step s (L_Push (take a d)) s'"
| flush: "sink_step s (L_Flush (Buffered s)) (Flush s)"
| cork: "sink_step s (L_Cork c) (SetCorked c s)"
| drain_request: "sink_step s L_DrainRequest (RequestDrain s)"
| take_events: "TakeEvents s = (ev, s') \<Longrightarrow> sink_step s (L_Take ev) s'"
| quit: "sink_step s L_Quit (Close_signal s)"
| render: "sink_step s (L_Render e) (render_step e s)"

inductive_simps sink_step_simps:
  "sink_step s (L_Push bs) s'" "sink_step s (L_Flush n) s'" "sink_step s (L_Cork c) s'"
  "sink_step s L_DrainRequest s'" "sink_step s (L_Take ev) s'" "sink_step s L_Quit s'"
  "sink_step s (L_Render e) s'"

inductive sink_run :: "OhosSink \<Rightarrow> sink_label list \<Rightarrow> OhosSink \<Rightarrow> bool" where
  run_Nil: "sink_run s [] s"
| run_Cons: "sink_step s l t \<Longrightarrow> sink_run t ls u \<Longrightarrow> sink_run s (l # ls) u"

text \<open>Frame facts: what each operation leaves alone.\<close>

lemma Push_frame [attr_simps]:
  "sk_pc (snd (Push d s)) = sk_pc s" "sk_readIndex (snd (Push d s)) = sk_readIndex s"
  "sk_pending (snd (Push d s)) = sk_pending s" "sk_played (snd (Push d s)) = sk_played s"
  "sk_corked (snd (Push d s)) = sk_corked s" "sk_playing (snd (Push d s)) = sk_playing s"
  "sk_drainRequested (snd (Push d s)) = sk_drainRequested s"
  "sk_spec (snd (Push d s)) = sk_spec s" "sk_renderer (snd (Push d s)) = sk_renderer s"
  "sk_rendererRunning (snd (Push d s)) = sk_rendererRunning s"
  by (simp_all add: Push_def Let_def)

lemma PopLocked_frame [attr_simps]:
  "sk_pc (snd (PopLocked n s)) = sk_pc s" "sk_readIndex (snd (PopLocked n s)) = sk_readIndex s"
  "sk_pending (snd (PopLocked n s)) = sk_pending s" "sk_played (snd (PopLocked n s)) = sk_played s"
  "sk_corked (snd (PopLocked n s)) = sk_corked s" "sk_playing (snd (PopLocked n s)) = sk_playing s"
  "sk_drainRequested (snd (PopLocked n s)) = sk_drainRequested s"
  "sk_spec (snd (PopLocked n s)) = sk_spec s" "sk_ring (snd (PopLocked n s)) = sk_ring s"
  "sk_rendererRunning (snd (PopLocked n s)) = sk_rendererRunning s"
  by (simp_all add: PopLocked_def Let_def)

text \<open>Only \<open>sk_ring\<close>, \<open>sk_head\<close> and \<open>sk_fill\<close> matter to the queue.\<close>

definition same_queue :: "OhosSink \<Rightarrow> OhosSink \<Rightarrow> bool" where
  "same_queue s t \<longleftrightarrow> sk_ring s = sk_ring t \<and> sk_head s = sk_head t \<and> sk_fill s = sk_fill t"

lemma same_queueD: "same_queue s t \<Longrightarrow> contents s = contents t \<and> ring_wf s = ring_wf t"
  by (simp add: same_queue_def contents_def ring_wf_def)

text \<open>A render step either pops a chunk or leaves the queue alone.\<close>

definition pops :: "OhosSink \<Rightarrow> bool" where
  "pops s \<longleftrightarrow> sk_pc s = R_Wait \<and> \<not> sk_quit s \<and> \<not> sk_corked s \<and> sk_fill s > 0"

lemma render_step_pops:
  "pops s \<Longrightarrow> render_step e s =
     (snd (PopLocked (chunk_size s) s))\<lparr>sk_pc := R_Write (fst (PopLocked (chunk_size s) s))\<rparr>"
  by (simp add: pops_def render_step_def render_wait_def split: prod.splits)

lemma render_wait_same_queue:
  "\<not> (\<not> sk_quit s \<and> \<not> sk_corked s \<and> sk_fill s > 0) \<Longrightarrow> same_queue (render_wait s) s"
  by (auto simp: render_wait_def same_queue_def)

lemma render_write_same_queue: "same_queue (render_write e chunk s) s"
  by (simp add: render_write_def same_queue_def Let_def case_prod_unfold)

lemma render_credit_same_queue: "same_queue (render_credit got s) s"
  by (simp add: render_credit_def same_queue_def Let_def)

lemma render_step_same_queue: "\<not> pops s \<Longrightarrow> same_queue (render_step e s) s"
  by (cases "sk_pc s")
    (simp_all add: pops_def render_step_def render_wait_same_queue render_write_same_queue
      render_credit_same_queue, simp_all add: same_queue_def)

lemma ring_wf_render_step: "ring_wf s \<Longrightarrow> ring_wf (render_step e s)"
proof (cases "pops s")
  case True
  assume "ring_wf s"
  with PopLocked_contents(3) [of s "chunk_size s"] show ?thesis
    by (simp add: render_step_pops [OF True] ring_wf_def)
next
  case False
  assume "ring_wf s"
  with same_queueD [OF render_step_same_queue [OF False]] show ?thesis by simp
qed

lemma ring_wf_Push: "ring_wf s \<Longrightarrow> ring_wf (snd (Push d s))"
  by (cases "sk_quit s") (simp add: Push_def, rule Push_contents(3))

theorem sink_step_ring_wf: "sink_step s l s' \<Longrightarrow> ring_wf s \<Longrightarrow> ring_wf s'"
proof (induction rule: sink_step.induct)
  case (push d s a s')
  then show ?case using ring_wf_Push [of s d] by simp
next
  case (take_events s ev s')
  then show ?case by (auto simp: TakeEvents_def ring_wf_def)
next
  case (render s e)
  then show ?case by (simp add: ring_wf_render_step)
qed (auto simp: Flush_def SetCorked_def RequestDrain_def Close_signal_def ring_wf_def)

lemma sink_run_ring_wf: "sink_run s ls s' \<Longrightarrow> ring_wf s \<Longrightarrow> ring_wf s'"
  by (induction rule: sink_run.induct) (auto dest: sink_step_ring_wf)

section \<open>The ledgers\<close>

text \<open>Bytes the render thread holds between the pop and the credit.\<close>

definition in_flight :: "OhosSink \<Rightarrow> nat" where
  "in_flight s = (case sk_pc s of R_Write chunk \<Rightarrow> length chunk | R_Credit got \<Rightarrow> got | _ \<Rightarrow> 0)"

text \<open>Everything the sink has taken and not flushed, modulo \<open>2^64\<close> as the code counts.\<close>

definition account :: "OhosSink \<Rightarrow> u64" where
  "account s = sk_readIndex s + of_nat (in_flight s) + of_nat (sk_fill s)"

text \<open>Credit already handed to the protocol loop.\<close>

definition credited :: "OhosSink \<Rightarrow> u64" where
  "credited s = sk_readIndex s - ev_credit (sk_pending s)"

primrec pushed_by :: "sink_label \<Rightarrow> nat" where
  "pushed_by (L_Push bs) = length bs"
| "pushed_by (L_Flush n) = 0"
| "pushed_by (L_Cork c) = 0"
| "pushed_by L_DrainRequest = 0"
| "pushed_by (L_Take ev) = 0"
| "pushed_by L_Quit = 0"
| "pushed_by (L_Render e) = 0"

primrec flushed_by :: "sink_label \<Rightarrow> nat" where
  "flushed_by (L_Push bs) = 0"
| "flushed_by (L_Flush n) = n"
| "flushed_by (L_Cork c) = 0"
| "flushed_by L_DrainRequest = 0"
| "flushed_by (L_Take ev) = 0"
| "flushed_by L_Quit = 0"
| "flushed_by (L_Render e) = 0"

primrec credit_by :: "sink_label \<Rightarrow> u64" where
  "credit_by (L_Push bs) = 0"
| "credit_by (L_Flush n) = 0"
| "credit_by (L_Cork c) = 0"
| "credit_by L_DrainRequest = 0"
| "credit_by (L_Take ev) = ev_credit ev"
| "credit_by L_Quit = 0"
| "credit_by (L_Render e) = 0"

lemma render_pop_fields:
  assumes "ring_wf s" "pops s"
  shows "sk_fill (render_step e s) + in_flight (render_step e s) = sk_fill s" "in_flight s = 0"
    "sk_readIndex (render_step e s) = sk_readIndex s" "sk_pending (render_step e s) = sk_pending s"
  using assms PopLocked_contents(1) [OF assms(1), of "chunk_size s"]
  by (simp_all add: render_step_pops in_flight_def sk_fill_PopLocked attr_simps, simp add: pops_def)

lemma render_wait_idle_fields:
  assumes "\<not> (\<not> sk_quit s \<and> \<not> sk_corked s \<and> sk_fill s > 0)" "sk_pc s = R_Wait"
  shows "sk_fill (render_wait s) = sk_fill s" "in_flight (render_wait s) = 0"
    "sk_readIndex (render_wait s) = sk_readIndex s"
    "ev_credit (sk_pending (render_wait s)) = ev_credit (sk_pending s)"
  using assms by (auto simp: render_wait_def in_flight_def)

lemma account_render_step:
  assumes "ring_wf s"
  shows "account (render_step e s) = account s"
proof (cases "sk_pc s")
  case R_Wait
  show ?thesis
  proof (cases "pops s")
    case True
    note f = render_pop_fields [OF assms True]
    have "of_nat (in_flight (render_step e s)) + of_nat (sk_fill (render_step e s)) =
        (of_nat (sk_fill s) :: u64)"
      using f(1) [of e] by (metis add.commute of_nat_add)
    then show ?thesis using f by (simp add: account_def add.assoc)
  next
    case False
    with R_Wait render_wait_idle_fields [of s] show ?thesis
      by (simp add: pops_def account_def render_step_def, simp add: in_flight_def)
  qed
qed (simp_all add: account_def render_step_def in_flight_def render_write_def render_credit_def
      Let_def case_prod_unfold)

lemma credited_render_step:
  assumes "ring_wf s"
  shows "credited (render_step e s) = credited s"
proof (cases "sk_pc s")
  case R_Wait
  show ?thesis
  proof (cases "pops s")
    case True
    then show ?thesis using render_pop_fields [OF assms True] by (simp add: credited_def)
  next
    case False
    with R_Wait render_wait_idle_fields [of s] show ?thesis
      by (simp add: pops_def credited_def render_step_def)
  qed
qed (simp_all add: credited_def render_step_def render_write_def render_credit_def
      Let_def case_prod_unfold)

lemma sk_fill_Push_raw: "sk_fill (snd (Push d s)) = sk_fill s + fst (Push d s)"
  by (simp add: Push_def Let_def)

lemma fst_Push_le: "fst (Push d s) \<le> length d"
  by (simp add: Push_def Let_def)

lemma account_Push: "account (snd (Push d s)) = account s + of_nat (fst (Push d s))"
  by (simp add: account_def in_flight_def attr_simps sk_fill_Push_raw)

lemma sink_step_account:
  "sink_step s l s' \<Longrightarrow> ring_wf s \<Longrightarrow>
   account s' + of_nat (flushed_by l) = account s + of_nat (pushed_by l)"
proof (induction rule: sink_step.induct)
  case (push d s a s')
  then show ?case using account_Push [of d s] fst_Push_le [of d s] by (simp add: min_def)
next
  case (take_events s ev s')
  then show ?case by (auto simp: TakeEvents_def account_def in_flight_def)
next
  case (render s e)
  then show ?case by (simp add: account_render_step)
qed (auto simp: Flush_def SetCorked_def RequestDrain_def Close_signal_def account_def in_flight_def
      Buffered_def)

lemma sink_step_credited:
  "sink_step s l s' \<Longrightarrow> ring_wf s \<Longrightarrow> credited s' = credited s + credit_by l"
proof (induction rule: sink_step.induct)
  case (push d s a s')
  then show ?case by (auto simp: credited_def attr_simps dest!: arg_cong [where f = snd])
next
  case (take_events s ev s')
  then show ?case by (auto simp: TakeEvents_def credited_def no_Events_def)
next
  case (render s e)
  then show ?case by (simp add: credited_render_step)
qed (auto simp: Flush_def SetCorked_def RequestDrain_def Close_signal_def credited_def)

lemma sink_run_account:
  "sink_run s ls s' \<Longrightarrow> ring_wf s \<Longrightarrow>
   account s' + of_nat (sum_list (map flushed_by ls)) = account s + of_nat (sum_list (map pushed_by ls))"
proof (induction rule: sink_run.induct)
  case (run_Nil s)
  then show ?case by simp
next
  case (run_Cons s l t ls u)
  have t: "account t + of_nat (flushed_by l) = account s + of_nat (pushed_by l)" "ring_wf t"
    using run_Cons by (simp_all add: sink_step_account, metis sink_step_ring_wf)
  have "account u + of_nat (sum_list (map flushed_by ls)) + of_nat (flushed_by l) =
      account t + of_nat (sum_list (map pushed_by ls)) + of_nat (flushed_by l)"
    using run_Cons.IH t(2) by simp
  also have "\<dots> = account s + of_nat (pushed_by l) + of_nat (sum_list (map pushed_by ls))"
    using t(1) by (simp add: ac_simps)
  finally show ?case by (simp add: ac_simps)
qed

lemma sink_run_credited:
  "sink_run s ls s' \<Longrightarrow> ring_wf s \<Longrightarrow> credited s' = credited s + sum_list (map credit_by ls)"
  by (induction rule: sink_run.induct) (auto simp: sink_step_credited dest: sink_step_ring_wf)

section \<open>Order\<close>

text \<open>
  The stream the sink stands for: what the renderer has played, the chunk on its way to it, and
  the queue. A push extends it, a flush cuts off the queued part, nothing else touches it.
\<close>

definition chunk_of :: "OhosSink \<Rightarrow> bytes" where
  "chunk_of s = (case sk_pc s of R_Write chunk \<Rightarrow> chunk | _ \<Rightarrow> [])"

definition stream_of :: "OhosSink \<Rightarrow> bytes" where
  "stream_of s = sk_played s @ chunk_of s @ contents s"

primrec apply_label :: "sink_label \<Rightarrow> bytes \<Rightarrow> bytes" where
  "apply_label (L_Push bs) x = x @ bs"
| "apply_label (L_Flush n) x = take (length x - n) x"
| "apply_label (L_Cork c) x = x"
| "apply_label L_DrainRequest x = x"
| "apply_label (L_Take ev) x = x"
| "apply_label L_Quit x = x"
| "apply_label (L_Render e) x = x"

text \<open>A renderer that starts and takes what it is given.\<close>

definition good_env :: "renderer_env \<Rightarrow> bool" where
  "good_env e \<longleftrightarrow> env_start e \<and> (\<forall>k. env_write e k > 0)"

primrec good_label :: "sink_label \<Rightarrow> bool" where
  "good_label (L_Push bs) = True"
| "good_label (L_Flush n) = True"
| "good_label (L_Cork c) = True"
| "good_label L_DrainRequest = True"
| "good_label (L_Take ev) = True"
| "good_label L_Quit = True"
| "good_label (L_Render e) = good_env e"

lemma write_loop_all: "(\<forall>k. w k > 0) \<Longrightarrow> write_loop w k left = ([], False)"
proof (induction w k left rule: write_loop.induct)
  case (1 w k left)
  then have "\<not> w k \<le> 0" by (simp add: not_le)
  with 1 show ?case by (subst write_loop.simps) simp
qed

lemma contents_same: "same_queue s t \<Longrightarrow> contents s = contents t"
  by (simp add: same_queueD)

lemma stream_of_render_step:
  assumes "ring_wf s" "good_env e"
  shows "stream_of (render_step e s) = stream_of s"
proof (cases "pops s")
  case True
  with PopLocked_contents(1,2) [OF assms(1), of "chunk_size s"] show ?thesis
    by (simp add: render_step_pops stream_of_def chunk_of_def attr_simps,
        simp add: pops_def contents_def)
next
  case False
  then have q: "contents (render_step e s) = contents s"
    by (rule contents_same [OF render_step_same_queue])
  have "sk_played (render_step e s) @ chunk_of (render_step e s) = sk_played s @ chunk_of s"
  proof (cases "sk_pc s")
    case R_Wait
    with False show ?thesis
      by (auto simp: pops_def render_step_def render_wait_def chunk_of_def)
  next
    case (R_Write chunk)
    with assms(2) show ?thesis
      by (simp add: render_step_def render_write_def chunk_of_def good_env_def write_loop_all)
  qed (auto simp: render_step_def render_credit_def chunk_of_def Let_def)
  with q show ?thesis by (simp add: stream_of_def)
qed

lemma stream_of_Push: "ring_wf s \<Longrightarrow> stream_of (snd (Push d s)) = stream_of s @ take (fst (Push d s)) d"
proof (cases "sk_quit s")
  case True
  then show ?thesis by (simp add: Push_def)
next
  case False
  assume "ring_wf s"
  with False Push_contents(2) [of s d] show ?thesis
    by (simp add: stream_of_def chunk_of_def attr_simps)
qed

lemma sink_step_stream:
  "sink_step s l s' \<Longrightarrow> ring_wf s \<Longrightarrow> good_label l \<Longrightarrow> stream_of s' = apply_label l (stream_of s)"
proof (induction rule: sink_step.induct)
  case (push d s a s')
  then show ?case using stream_of_Push [of s d] by simp
next
  case (take_events s ev s')
  then show ?case by (auto simp: TakeEvents_def stream_of_def chunk_of_def contents_def)
next
  case (render s e)
  then show ?case by (simp add: stream_of_render_step)
next
  case (flush s)
  have "contents (Flush s) = []" by (simp add: Flush_def contents_def)
  then show ?case by (simp add: stream_of_def Buffered_def) (simp add: chunk_of_def Flush_def)
qed (auto simp: SetCorked_def RequestDrain_def Close_signal_def stream_of_def chunk_of_def contents_def)

lemma sink_run_stream:
  "sink_run s ls s' \<Longrightarrow> ring_wf s \<Longrightarrow> list_all good_label ls \<Longrightarrow>
   stream_of s' = fold apply_label ls (stream_of s)"
  by (induction rule: sink_run.induct) (auto simp: sink_step_stream dest: sink_step_ring_wf)

section \<open>Progress\<close>

lemma chunk_size_pos: "sk_fill s > 0 \<Longrightarrow> ring_wf s \<Longrightarrow> 0 < chunk_size s"
  by (auto simp: chunk_size_def ring_wf_def MIN_WRITE_CHUNK_def)

text \<open>One turn of the loop with data to play: four steps, whatever the renderer answers.\<close>

lemma render_turn:
  fixes e :: renderer_env
  assumes "ring_wf s" "pops s"
  defines "got \<equiv> min (chunk_size s) (sk_fill s)" and "t \<equiv> (render_step e ^^ 4) s"
  shows "sk_pc t = R_Wait" "sk_fill t = sk_fill s - got" "0 < got" "sk_signalled t" "sk_playing t"
    "sk_readIndex t = sk_readIndex s + of_nat got"
    "ev_credit (sk_pending t) = ev_credit (sk_pending s) + of_nat got"
    "ev_drained (sk_pending t) = ev_drained (sk_pending s)"
    "sk_quit t = sk_quit s" "sk_corked t = sk_corked s" "sk_drainRequested t = sk_drainRequested s"
    "ring_wf t"
proof -
  have len: "length (fst (PopLocked (chunk_size s) s)) = got"
    using PopLocked_contents(1) [OF assms(1), of "chunk_size s"] by (simp add: got_def)
  have t: "t = render_step e (render_step e (render_step e (render_step e s)))"
    by (simp add: t_def numeral_eq_Suc)
  show "ring_wf t" unfolding t by (intro ring_wf_render_step assms(1))
  show "0 < got" using assms chunk_size_pos [of s] by (simp add: got_def pops_def)
  show "sk_pc t = R_Wait" "sk_fill t = sk_fill s - got" "sk_signalled t" "sk_playing t"
    "sk_readIndex t = sk_readIndex s + of_nat got"
    "ev_credit (sk_pending t) = ev_credit (sk_pending s) + of_nat got"
    "ev_drained (sk_pending t) = ev_drained (sk_pending s)"
    "sk_quit t = sk_quit s" "sk_corked t = sk_corked s" "sk_drainRequested t = sk_drainRequested s"
    unfolding t render_step_pops [OF assms(2)]
    by (simp_all add: render_step_def render_write_def render_credit_def Let_def case_prod_unfold
        len attr_simps sk_fill_PopLocked, simp_all add: got_def)
qed

text \<open>A requested drain is reported after finitely many turns, even if every write fails.\<close>

lemma drain_reported:
  assumes "ring_wf s" "sk_pc s = R_Wait" "\<not> sk_quit s" "\<not> sk_corked s" "sk_drainRequested s"
  shows "\<exists>n. ev_drained (sk_pending ((render_step e ^^ n) s))"
  using assms
proof (induction "sk_fill s" arbitrary: s rule: less_induct)
  case less
  show ?case
  proof (cases "sk_fill s = 0")
    case True
    with less.prems have "ev_drained (sk_pending ((render_step e ^^ 2) s))"
      by (simp add: numeral_eq_Suc render_step_def render_wait_def)
    then show ?thesis by blast
  next
    case False
    with less.prems have p: "pops s" by (simp add: pops_def)
    note turn = render_turn [OF less.prems(1) p]
    obtain n where "ev_drained (sk_pending ((render_step e ^^ n) ((render_step e ^^ 4) s)))"
      using less.hyps [of "(render_step e ^^ 4) s"] turn(1,2,9,10,11,12) [of e] turn(3) less.prems False by auto
    then have "ev_drained (sk_pending ((render_step e ^^ (n + 4)) s))" by (simp add: funpow_add)
    then show ?thesis by blast
  qed
qed

section \<open>Properties\<close>

text \<open>A concrete sink for the witnesses: an eight byte ring, three bytes pushed, uncorked.\<close>

definition ex_env :: renderer_env where
  "ex_env = \<lparr>env_start = True, env_write = (\<lambda>_. 2)\<rparr>"

definition ex_sink0 :: OhosSink where
  "ex_sink0 = snd (Open True default_SampleSpec 8 new_OhosSink)"

definition ex_sink1 :: OhosSink where
  "ex_sink1 = SetCorked False (snd (Push [1, 2, 3] ex_sink0))"

definition ex_labels :: "sink_label list" where
  "ex_labels = [L_Push [1, 2, 3], L_Cork False, L_Render ex_env]"

lemma ex_sink0_wf: "ring_wf ex_sink0" "\<not> sk_quit ex_sink0"
  by (simp_all add: ex_sink0_def Open_def ToOhosFormat_def default_SampleSpec_def ring_wf_def new_OhosSink_def)

lemma ex_sink1_eq:
  "ex_sink1 = ex_sink0\<lparr>sk_ring := [1, 2, 3, 0, 0, 0, 0, 0], sk_fill := 3, sk_corked := False\<rparr>"
  "sk_pc ex_sink0 = R_Wait" "sk_played ex_sink0 = []" "sk_fill ex_sink0 = 0" "sk_head ex_sink0 = 0"
  "fst (Push [1, 2, 3] ex_sink0) = 3" "sk_readIndex ex_sink0 = 0" "sk_pending ex_sink0 = no_Events"
  by (simp_all add: ex_sink1_def ex_sink0_def Open_def ToOhosFormat_def default_SampleSpec_def
      new_OhosSink_def Push_def SetCorked_def copy_to_def numeral_eq_Suc)

lemma ex_run: "sink_run ex_sink0 ex_labels (render_step ex_env ex_sink1)"
proof -
  have "Push [1, 2, 3] ex_sink0 = (3, snd (Push [1, 2, 3] ex_sink0))"
    using ex_sink1_eq(6) by (metis prod.collapse)
  from sink_step.push [OF this] have "sink_step ex_sink0 (L_Push [1, 2, 3]) (snd (Push [1, 2, 3] ex_sink0))"
    by simp
  then show ?thesis
    unfolding ex_labels_def ex_sink1_def
    by (rule run_Cons) (rule run_Cons [OF sink_step.cork run_Cons [OF sink_step.render run_Nil]])
qed



text \<open>C18: The ledger. Over every interleaving, the bytes accepted are exactly the bytes handed to
  the renderer, in flight, still queued or flushed, and the credit collected by
  \<open>TakeEvents\<close> is exactly the advance of the read index less what is still pending (both
  modulo \<open>2^64\<close>, as the counters are): every drained byte becomes credit once.\<close>

theorem sink_ledger:
  assumes "sink_run s ls s'" and "ring_wf s"
  shows "account s' + of_nat (sum_list (map flushed_by ls)) =
      account s + of_nat (sum_list (map pushed_by ls)) \<and>
    credited s' = credited s + sum_list (map credit_by ls) \<and> ring_wf s'"
  using sink_run_account [OF assms] sink_run_credited [OF assms] sink_run_ring_wf [OF assms] by simp

theorem sink_ledger_witness:
  "sink_run ex_sink0 ex_labels (render_step ex_env ex_sink1) \<and>
   account (render_step ex_env ex_sink1) = 3"
proof -
  have "account (render_step ex_env ex_sink1) + of_nat (sum_list (map flushed_by ex_labels)) =
      account ex_sink0 + of_nat (sum_list (map pushed_by ex_labels))"
    using sink_ledger [OF ex_run ex_sink0_wf(1)] by blast
  then show ?thesis
    using ex_run by (simp add: ex_labels_def account_def in_flight_def ex_sink1_eq)
qed

text \<open>C19: A drain ends. If the stream is uncorked when the render thread returns to its wait, a
  requested drain is reported after finitely many steps of the thread, whatever the renderer
  answers, failed starts and writes included.\<close>

theorem drain_terminates:
  assumes "ring_wf s" "sk_pc s = R_Wait" "\<not> sk_quit s" "\<not> sk_corked s" "sk_drainRequested s"
  shows "\<exists>n. ev_drained (sk_pending ((render_step e ^^ n) s))"
  using assms by (rule drain_reported)

theorem drain_terminates_witness:
  "sk_fill (RequestDrain ex_sink1) = 3 \<and>
   (\<exists>n. ev_drained (sk_pending ((render_step ex_env ^^ n) (RequestDrain ex_sink1))))"
proof -
  have "ring_wf (RequestDrain ex_sink1)" "sk_pc (RequestDrain ex_sink1) = R_Wait"
    "\<not> sk_quit (RequestDrain ex_sink1)" "\<not> sk_corked (RequestDrain ex_sink1)"
    "sk_drainRequested (RequestDrain ex_sink1)"
    using ex_sink0_wf by (simp_all add: RequestDrain_def ex_sink1_eq ring_wf_def)
  from drain_terminates [OF this, of ex_env] show ?thesis
    by (simp add: RequestDrain_def ex_sink1_eq)
qed

text \<open>The clock. With data queued and the stream uncorked, one turn of the render loop consumes a
  non-empty chunk of at most the configured size, advances the read index and the pending
  credit by exactly that amount, wakes the protocol loop and returns to the wait, whatever the
  renderer answers.\<close>

lemma render_turn_credits:
  assumes "ring_wf s" "pops s"
  shows "let got = min (chunk_size s) (sk_fill s); t = (render_step e ^^ 4) s
    in 0 < got \<and> sk_fill t = sk_fill s - got \<and> sk_readIndex t = sk_readIndex s + of_nat got \<and>
      ev_credit (sk_pending t) = ev_credit (sk_pending s) + of_nat got \<and>
      sk_signalled t \<and> sk_pc t = R_Wait"
  using render_turn(1,2,4,6,7) [OF assms] render_turn(3) [OF assms] by (simp add: Let_def)

text \<open>C20: The corked drain. With a drain requested on a corked stream that still has bytes queued and
  whose renderer is not running, the wait predicate is already true, so the condition variable
  never blocks, and a turn of the render loop changes nothing: the thread spins until the
  stream is uncorked, flushed or closed.\<close>

theorem corked_drain_spins:
  assumes "sk_pc s = R_Wait" "\<not> sk_quit s" "sk_corked s" "sk_drainRequested s" "sk_fill s > 0"
    "\<not> sk_rendererRunning s"
  shows "wait_pred s \<and> (\<forall>n. (render_step e ^^ n) s = s)"
proof -
  have "render_step e s = s" using assms by (simp add: render_step_def render_wait_def)
  then have "(render_step e ^^ n) s = s" for n by (induction n) simp_all
  then show ?thesis using assms by (simp add: wait_pred_def)
qed

theorem corked_drain_spins_witness:
  "(let s = RequestDrain (SetCorked True ex_sink1) in wait_pred s \<and> (\<forall>n. (render_step ex_env ^^ n) s = s))"
proof -
  let ?s = "RequestDrain (SetCorked True ex_sink1)"
  have "sk_pc ?s = R_Wait" "\<not> sk_quit ?s" "sk_corked ?s" "sk_drainRequested ?s" "sk_fill ?s > 0"
    "\<not> sk_rendererRunning ?s"
    using ex_sink0_wf
    by (simp_all add: RequestDrain_def SetCorked_def ex_sink1_eq)
      (simp add: ex_sink0_def Open_def new_OhosSink_def ToOhosFormat_def default_SampleSpec_def)
  from corked_drain_spins [OF this, of ex_env] show ?thesis by (simp add: Let_def)
qed

end
