(* ===== verification/Pa_Flow.thy ===== *)
theory Pa_Flow
  imports Pa_Server Sink_Run
begin

text \<open>
  Flow control of the PulseAudio server (\<open>Server::MaybeRequest\<close>, \<open>HandleStreamData\<close>,
  \<open>PumpSinks\<close> of \<open>waydroid_audio_main.cpp\<close>): the credit a client holds never exceeds the room
  there is for it, never runs out while there is nothing to play, and is accounted for exactly.

  \<^item> \<open>attr_wf\<close>: the buffer attributes after \<open>sane_attr\<close>.
  \<^item> \<open>stream_wf\<close>: the invariant of a stream. It holds in every interleaving with the render
    thread, because popping bytes only lowers the fill.
  \<^item> \<open>settled\<close>: what \<open>MaybeRequest\<close> establishes.
  \<^item> \<open>conn_step\<close> / \<open>conn_reachable\<close>: packets, pumps and render steps in any order.
\<close>

section \<open>Buffer attributes\<close>

definition attr_wf :: "SampleSpec \<Rightarrow> BufferAttr \<Rightarrow> bool" where
  "attr_wf ss a \<longleftrightarrow>
     FrameSize ss \<le> unat (ba_minreq a) \<and> ba_minreq a \<le> ba_tlength a \<and>
     ba_tlength a \<le> ba_maxlength a \<and> unat (ba_maxlength a) \<le> ABSOLUTE_MAX_BUFFER \<and>
     ba_prebuf a \<le> ba_tlength a"

lemma unat_of_nat_small: "n \<le> ABSOLUTE_MAX_BUFFER \<Longrightarrow> unat (of_nat n :: u32) = n"
  by (simp add: unat_of_nat ABSOLUTE_MAX_BUFFER_def)

lemma clamp32_bounds:
  assumes "frame \<le> hi" "hi \<le> ABSOLUTE_MAX_BUFFER"
  shows "frame \<le> unat (clamp32 frame hi v)" "unat (clamp32 frame hi v) \<le> hi"
proof -
  have "unat (clamp32 frame hi v) = min (max (unat v) frame) hi"
    unfolding clamp32_def by (rule unat_of_nat_small) (use assms(2) in simp)
  then show "frame \<le> unat (clamp32 frame hi v)" "unat (clamp32 frame hi v) \<le> hi"
    using assms(1) by simp_all
qed

lemma sane_attr_wf:
  assumes "Valid ss"
  shows "attr_wf ss (sane_attr ss a)"
proof -
  define ml where "ml = sane_maxlength ss (ba_maxlength a)"
  define tl where "tl = sane_tlength ss ml (ba_tlength a)"
  define mr where "mr = sane_minreq ss tl (ba_minreq a)"
  have fr: "FrameSize ss \<le> ABSOLUTE_MAX_BUFFER"
    using FrameSize_le [OF assms] by (simp add: ABSOLUTE_MAX_BUFFER_def)
  have 1: "FrameSize ss \<le> unat ml" "unat ml \<le> ABSOLUTE_MAX_BUFFER"
    unfolding ml_def sane_maxlength_def by (rule clamp32_bounds [OF fr order_refl])+
  have 2: "FrameSize ss \<le> unat tl" "unat tl \<le> unat ml"
    unfolding tl_def sane_tlength_def by (rule clamp32_bounds [OF 1])+
  have "unat tl \<le> ABSOLUTE_MAX_BUFFER" using 1 2 by simp
  note 3 = clamp32_bounds [OF 2(1) this]
  have "FrameSize ss \<le> unat mr" "unat mr \<le> unat tl"
    unfolding mr_def sane_minreq_def by (rule 3)+
  moreover have "sane_prebuf tl (ba_prebuf a) \<le> tl" by (simp add: sane_prebuf_def)
  moreover have "sane_attr ss a = a\<lparr>ba_maxlength := ml, ba_tlength := tl, ba_minreq := mr,
      ba_prebuf := sane_prebuf tl (ba_prebuf a)\<rparr>"
    by (simp only: sane_attr_def Let_def ml_def tl_def mr_def)
  ultimately show ?thesis using 1 2 by (simp add: attr_wf_def word_le_nat_alt)
qed

section \<open>The stream invariant\<close>

abbreviation (input) tlen :: "Stream \<Rightarrow> int" where "tlen s \<equiv> uint (ba_tlength (st_attr s))"
abbreviation (input) mreq :: "Stream \<Rightarrow> int" where "mreq s \<equiv> uint (ba_minreq (st_attr s))"
abbreviation (input) maxl :: "Stream \<Rightarrow> int" where "maxl s \<equiv> uint (ba_maxlength (st_attr s))"
abbreviation (input) buffered :: "Stream \<Rightarrow> int" where "buffered s \<equiv> int (Buffered (st_sink s))"

definition sized :: "Stream \<Rightarrow> bool" where
  "sized s \<longleftrightarrow> Valid (st_ss s) \<and> attr_wf (st_ss s) (st_attr s) \<and> sink_open (st_sink s) \<and>
     length (sk_ring (st_sink s)) = unat (ba_maxlength (st_attr s))"

definition stream_wf :: "Stream \<Rightarrow> bool" where
  "stream_wf s \<longleftrightarrow> sized s \<and> buffered s + st_outstanding s \<le> tlen s \<and> - maxl s < st_outstanding s"

text \<open>No more than \<open>minreq - 1\<close> bytes of the target are neither buffered nor on request.\<close>

definition settled :: "Stream \<Rightarrow> bool" where
  "settled s \<longleftrightarrow> tlen s - buffered s - st_outstanding s < mreq s"

lemma int_le_uint: "n \<le> unat x \<Longrightarrow> int n \<le> uint (x :: u32)"
  by (simp only: uint_nat of_nat_le_iff)

lemma uint_le_int: "unat x \<le> n \<Longrightarrow> uint (x :: u32) \<le> int n"
  by (simp only: uint_nat of_nat_le_iff)

lemma sized_bounds:
  assumes "sized s"
  shows "0 < mreq s" "mreq s \<le> tlen s" "tlen s \<le> maxl s" "maxl s \<le> 16777216" "buffered s \<le> maxl s"
proof -
  have a: "0 < FrameSize (st_ss s)" "attr_wf (st_ss s) (st_attr s)" "ring_wf (st_sink s)"
    "length (sk_ring (st_sink s)) = unat (ba_maxlength (st_attr s))"
    using assms FrameSize_pos [of "st_ss s"] by (simp_all add: sized_def sink_open_def)
  show "mreq s \<le> tlen s" "tlen s \<le> maxl s" using a(2) by (simp_all add: attr_wf_def word_le_def)
  have "1 \<le> unat (ba_minreq (st_attr s))" using a(1,2) by (simp add: attr_wf_def)
  from int_le_uint [OF this] show "0 < mreq s" by simp
  have "unat (ba_maxlength (st_attr s)) \<le> 16777216"
    using a(2) unfolding attr_wf_def ABSOLUTE_MAX_BUFFER_def by linarith
  from uint_le_int [OF this] show "maxl s \<le> 16777216" by (simp only: of_nat_numeral)
  have "sk_fill (st_sink s) \<le> unat (ba_maxlength (st_attr s))"
    using a(3,4) by (simp add: ring_wf_def)
  from int_le_uint [OF this] show "buffered s \<le> maxl s" by (simp add: Buffered_def)
qed

text \<open>An empty, settled stream always leaves the client credit to write with.\<close>

lemma settled_credit: "sized s \<Longrightarrow> settled s \<Longrightarrow> Buffered (st_sink s) = 0 \<Longrightarrow> 0 < st_outstanding s"
  using sized_bounds [of s] by (simp add: settled_def)

lemma st_sink_MaybeRequest [attr_simps]:
  "st_sink (snd (MaybeRequest c s)) = st_sink s" "st_attr (snd (MaybeRequest c s)) = st_attr s"
  "st_ss (snd (MaybeRequest c s)) = st_ss s" "st_channel (snd (MaybeRequest c s)) = st_channel s"
  "st_drainPending (snd (MaybeRequest c s)) = st_drainPending s"
  "st_drainTag (snd (MaybeRequest c s)) = st_drainTag s"
  "st_writeIndex (snd (MaybeRequest c s)) = st_writeIndex s"
  by (simp_all add: MaybeRequest_def Let_def)

lemma MaybeRequest_stream:
  "st_outstanding (snd (MaybeRequest c s)) =
     (if tlen s - buffered s - st_outstanding s < mreq s then st_outstanding s
      else tlen s - buffered s)"
  by (simp add: MaybeRequest_def Let_def)

lemma sized_MaybeRequest: "sized (snd (MaybeRequest c s)) = sized s"
  by (simp add: sized_def attr_simps)

lemma MaybeRequest_wf:
  assumes "sized s" "buffered s + st_outstanding s \<le> tlen s"
  shows "stream_wf (snd (MaybeRequest c s))" "settled (snd (MaybeRequest c s))"
proof -
  note b = sized_bounds [OF assms(1)]
  show "settled (snd (MaybeRequest c s))"
    unfolding settled_def attr_simps MaybeRequest_stream using b(1) by (simp split: if_split)
  show "stream_wf (snd (MaybeRequest c s))"
    unfolding stream_wf_def attr_simps MaybeRequest_stream sized_MaybeRequest
    using assms b by (cases "tlen s - buffered s - st_outstanding s < mreq s") simp_all
qed

text \<open>What the operations on the sink do to the three quantities of the invariant.\<close>

lemma sized_cong:
  "sized s \<Longrightarrow> st_ss t = st_ss s \<Longrightarrow> st_attr t = st_attr s \<Longrightarrow> sink_open (st_sink t) \<Longrightarrow>
   length (sk_ring (st_sink t)) = length (sk_ring (st_sink s)) \<Longrightarrow> sized t"
  by (simp add: sized_def)

lemma stream_wf_cong:
  "stream_wf s \<Longrightarrow> st_ss t = st_ss s \<Longrightarrow> st_attr t = st_attr s \<Longrightarrow>
   st_outstanding t = st_outstanding s \<Longrightarrow> sink_open (st_sink t) \<Longrightarrow>
   length (sk_ring (st_sink t)) = length (sk_ring (st_sink s)) \<Longrightarrow>
   Buffered (st_sink t) \<le> Buffered (st_sink s) \<Longrightarrow> stream_wf t"
  using sized_cong [of s t] by (simp add: stream_wf_def)

lemma sink_open_simps [attr_simps]:
  "sink_open (SetCorked b k) = sink_open k" "sink_open (RequestDrain k) = sink_open k"
  "sink_open (snd (TakeEvents k)) = sink_open k"
  "sk_ring (SetCorked b k) = sk_ring k" "sk_ring (RequestDrain k) = sk_ring k"
  "sk_ring (Flush k) = sk_ring k" "sk_ring (snd (TakeEvents k)) = sk_ring k"
  "Buffered (SetCorked b k) = Buffered k" "Buffered (RequestDrain k) = Buffered k"
  "Buffered (snd (TakeEvents k)) = Buffered k" "Buffered (Flush k) = 0"
  by (simp_all add: sink_open_def ring_wf_def SetCorked_def RequestDrain_def TakeEvents_def
      Flush_def Buffered_def)

lemma render_step_sink:
  assumes "sink_open k"
  shows "sink_open (render_step e k)" "sk_ring (render_step e k) = sk_ring k"
    "Buffered (render_step e k) \<le> Buffered k"
proof -
  have wf: "ring_wf k" "\<not> sk_quit k" using assms by (simp_all add: sink_open_def)
  have q: "sk_quit (render_step e k) = sk_quit k"
    by (cases "sk_pc k") (simp_all add: render_step_def render_wait_def render_write_def
        render_credit_def Let_def case_prod_unfold attr_simps)
  then show "sink_open (render_step e k)"
    using ring_wf_render_step [OF wf(1)] wf(2) by (simp add: sink_open_def)
  show "sk_ring (render_step e k) = sk_ring k" "Buffered (render_step e k) \<le> Buffered k"
    by (cases "sk_pc k"; simp add: Buffered_def render_step_def render_wait_def render_write_def
        render_credit_def Let_def case_prod_unfold attr_simps sk_fill_PopLocked)+
qed

section \<open>The connection invariant\<close>

definition streams_ok :: "(u32, Stream) smap \<Rightarrow> bool" where
  "streams_ok m \<longleftrightarrow> map_inv m \<and> (\<forall>(k, s) \<in> set m. st_channel s = k \<and> stream_wf s)"

definition conn_inv :: "Connection \<Rightarrow> bool" where
  "conn_inv c \<longleftrightarrow> streams_ok (c_streams c) \<and> c_version c \<le> PROTOCOL_VERSION"

lemma streams_ok_Nil [simp]: "streams_ok []"
  by (simp add: streams_ok_def map_inv_def)

lemma streams_ok_find: "streams_ok m \<Longrightarrow> map_find k m = Some s \<Longrightarrow> st_channel s = k \<and> stream_wf s"
  by (fastforce simp: streams_ok_def dest: map_find_in_set)

lemma streams_ok_put: "streams_ok m \<Longrightarrow> stream_wf s \<Longrightarrow> st_channel s = k \<Longrightarrow> streams_ok (map_put k s m)"
  by (auto simp: streams_ok_def map_inv_put set_map_put)

lemma streams_ok_erase: "streams_ok m \<Longrightarrow> streams_ok (map_erase k m)"
  by (auto simp: streams_ok_def map_inv_erase set_map_erase)

text \<open>Sending only appends to the output buffer.\<close>

lemma Send_frame [simp]:
  "c_streams (Send ch p f c) = c_streams c" "c_version (Send ch p f c) = c_version c"
  "c_authorized (Send ch p f c) = c_authorized c" "c_nextChannel (Send ch p f c) = c_nextChannel c"
  "c_in (Send ch p f c) = c_in c" "c_fd (Send ch p f c) = c_fd c"
  by (simp_all add: Send_def)

lemmas send_defs = SendTag_def SendSimpleAck_def SendError_def SendEvent_def

lemma sends_frame [simp]:
  "c_streams (SendTag t c) = c_streams c" "c_version (SendTag t c) = c_version c"
  "c_streams (SendSimpleAck tag c) = c_streams c" "c_version (SendSimpleAck tag c) = c_version c"
  "c_streams (SendError tag err c) = c_streams c" "c_version (SendError tag err c) = c_version c"
  "c_streams (SendEvent cmd ch x c) = c_streams c" "c_version (SendEvent cmd ch x c) = c_version c"
  "c_authorized (SendTag t c) = c_authorized c" "c_authorized (SendSimpleAck tag c) = c_authorized c"
  "c_authorized (SendError tag err c) = c_authorized c" "c_authorized (SendEvent cmd ch x c) = c_authorized c"
  by (simp_all add: send_defs Let_def)

lemma MaybeRequest_frame [simp]:
  "c_streams (fst (MaybeRequest c s)) = c_streams c" "c_version (fst (MaybeRequest c s)) = c_version c"
  "c_authorized (fst (MaybeRequest c s)) = c_authorized c"
  by (simp_all add: MaybeRequest_def Let_def)

lemma set_stream_frame [simp]:
  "c_streams (set_stream k s c) = map_put k s (c_streams c)" "c_version (set_stream k s c) = c_version c"
  "c_authorized (set_stream k s c) = c_authorized c"
  by (simp_all add: set_stream_def)

lemma MaybeRequest_stream_wf: "stream_wf s \<Longrightarrow> stream_wf (snd (MaybeRequest c s))"
  by (rule MaybeRequest_wf(1)) (simp_all add: stream_wf_def)

lemma conn_inv_set_stream:
  "conn_inv c \<Longrightarrow> stream_wf s \<Longrightarrow> st_channel s = k \<Longrightarrow> c_streams c' = c_streams c \<Longrightarrow>
   c_version c' = c_version c \<Longrightarrow> conn_inv (set_stream k s c')"
  by (simp add: conn_inv_def streams_ok_put)

lemma conn_inv_frame:
  "conn_inv c \<Longrightarrow> c_streams c' = c_streams c \<Longrightarrow> c_version c' = c_version c \<Longrightarrow> conn_inv c'"
  by (simp add: conn_inv_def)

lemma FindStream_ok: "conn_inv c \<Longrightarrow> FindStream c k = Some s \<Longrightarrow> st_channel s = k \<and> stream_wf s"
  unfolding conn_inv_def FindStream_def by (elim conjE) (rule streams_ok_find)

subsection \<open>Stream data\<close>

text \<open>The stream between the push and \<open>MaybeRequest\<close>.\<close>

definition received :: "bytes \<Rightarrow> Stream \<Rightarrow> Stream" where
  "received data s = s\<lparr>st_writeIndex := st_writeIndex s + of_nat (length data),
     st_outstanding := st_outstanding s - int (length data), st_sink := snd (Push data (st_sink s))\<rparr>"

lemma HandleStreamData_eq:
  "FindStream c channel = Some s \<Longrightarrow>
   HandleStreamData channel flags data c =
     (let c2 = (if fst (Push data (st_sink s)) < length data
                then SendEvent COMMAND_OVERFLOW channel None c else c)
      in set_stream channel (snd (MaybeRequest c2 (received data s))) (fst (MaybeRequest c2 (received data s))))"
  by (simp add: HandleStreamData_def received_def case_prod_unfold Let_def)

lemma received_fields [attr_simps]:
  "st_sink (received data s) = snd (Push data (st_sink s))" "st_attr (received data s) = st_attr s"
  "st_ss (received data s) = st_ss s" "st_channel (received data s) = st_channel s"
  "st_outstanding (received data s) = st_outstanding s - int (length data)"
  by (simp_all add: received_def)

lemma received_sized:
  assumes "sized s"
  shows "sized (received data s)"
    and "Buffered (st_sink (received data s)) = Buffered (st_sink s) + fst (Push data (st_sink s))"
proof -
  have so: "sink_open (st_sink s)" using assms by (simp add: sized_def)
  then show "Buffered (st_sink (received data s)) = Buffered (st_sink s) + fst (Push data (st_sink s))"
    by (simp add: attr_simps Buffered_def sk_fill_Push_raw)
  have "length (sk_ring (snd (Push data (st_sink s)))) = length (sk_ring (st_sink s))"
    using so Push_contents(4) [of "st_sink s" data] by (simp add: sink_open_def)
  then show "sized (received data s)"
    by (intro sized_cong [OF assms]) (simp_all add: attr_simps ring.enq_invar [OF so])
qed

lemma received_below:
  assumes "sized s" "buffered s + st_outstanding s \<le> tlen s"
  shows "buffered (received data s) + st_outstanding (received data s) \<le> tlen (received data s)"
  using received_sized(2) [OF assms(1), of data] fst_Push_le [of data "st_sink s"] assms(2)
  by (simp only: attr_simps)

lemma conn_inv_HandleStreamData:
  assumes "conn_inv c"
  shows "conn_inv (HandleStreamData channel flags data c)"
proof (cases "FindStream c channel")
  case None
  with assms show ?thesis by (simp add: HandleStreamData_def)
next
  case (Some s)
  note s = FindStream_ok [OF assms Some]
  let ?c = "if fst (Push data (st_sink s)) < length data then SendEvent COMMAND_OVERFLOW channel None c else c"
  have "sized s" "buffered s + st_outstanding s \<le> tlen s" using s by (simp_all add: stream_wf_def)
  from MaybeRequest_wf(1) [OF received_sized(1) [OF this(1)] received_below [OF this], of ?c data]
  have "conn_inv (set_stream channel (snd (MaybeRequest ?c (received data s))) (fst (MaybeRequest ?c (received data s))))"
    by (rule conn_inv_set_stream [OF assms]) (use s in \<open>simp_all add: attr_simps\<close>)
  then show ?thesis unfolding HandleStreamData_eq [OF Some] Let_def .
qed

subsection \<open>Commands\<close>

lemma Open_sink:
  assumes "Open created ss n new_OhosSink = (True, k)" "0 < n"
  shows "sink_open k" "length (sk_ring k) = n" "Buffered k = 0"
  using assms by (auto simp: Open_def new_OhosSink_def sink_open_def ring_wf_def Buffered_def split: if_splits)

lemma created_stream_wf:
  assumes "Valid (cr_ss q)"
    "Open created (cr_ss q) (unat (ba_maxlength (requested_attr q))) new_OhosSink = (True, k)"
  shows "stream_wf (created_stream e ch idx q k)"
proof -
  have a: "attr_wf (cr_ss q) (requested_attr q)"
    unfolding requested_attr_def using assms(1) by (rule sane_attr_wf)
  with FrameSize_pos [OF assms(1)] have pos: "0 < unat (ba_maxlength (requested_attr q))"
    by (auto simp: attr_wf_def word_le_nat_alt)
  have "0 < uint (ba_maxlength (requested_attr q))"
    using int_le_uint [of 1 "ba_maxlength (requested_attr q)"] pos by simp
  then have "- uint (ba_maxlength (requested_attr q)) < uint (ba_tlength (requested_attr q))"
    using uint_ge_0 [of "ba_tlength (requested_attr q)"] by linarith
  with assms(1) a Open_sink [OF assms(2) pos] show ?thesis
    by (simp add: stream_wf_def sized_def attr_simps created_stream_def)
qed

lemma st_channel_created [simp]: "st_channel (created_stream e ch idx q k) = ch"
  by (simp add: created_stream_def)

lemma conn_inv_HandleCreatePlayback:
  assumes "conn_inv c"
  shows "conn_inv (snd (snd (HandleCreatePlayback e n c tag r)))"
proof (cases "fst (get_CreateReq r)")
  case None
  with assms show ?thesis by (simp add: HandleCreatePlayback_def)
next
  case (Some q)
  obtain b k where
    k: "Open (env_created e) (cr_ss q) (unat (ba_maxlength (requested_attr q))) new_OhosSink = (b, k)"
    by (cases "Open (env_created e) (cr_ss q) (unat (ba_maxlength (requested_attr q))) new_OhosSink")
  have err: "conn_inv (SendError tag ERR_INVALID c)" using assms by (simp add: conn_inv_def)
  show ?thesis
  proof (cases "Valid (cr_ss q) \<and> b")
    case False
    with err Some k show ?thesis by (auto simp: HandleCreatePlayback_def)
  next
    case True
    let ?s = "created_stream e (c_nextChannel c) (nextStreamIndex n) q k"
    from True k have "stream_wf ?s" by (auto intro: created_stream_wf)
    then have "conn_inv (set_stream (c_nextChannel c) ?s (SendTag t (c\<lparr>c_nextChannel := v\<rparr>)))" for t v
      by (rule conn_inv_set_stream [OF assms]) simp_all
    with Some True k show ?thesis by (simp add: HandleCreatePlayback_def Let_def)
  qed
qed

lemma conn_inv_sends [intro]:
  "conn_inv c \<Longrightarrow> conn_inv (SendTag t c)" "conn_inv c \<Longrightarrow> conn_inv (SendSimpleAck tag c)"
  "conn_inv c \<Longrightarrow> conn_inv (SendError tag err c)" "conn_inv c \<Longrightarrow> conn_inv (SendEvent cmd ch x c)"
  by (simp_all add: conn_inv_def)

lemma conn_inv_with_stream:
  "conn_inv c \<Longrightarrow> (\<And>s. FindStream c ch = Some s \<Longrightarrow> conn_inv (k s)) \<Longrightarrow>
   conn_inv (snd (snd (with_stream n c tag ch k)))"
  by (auto simp: with_stream_def split: option.split)

text \<open>A command that changes the sink without adding to it, then asks for more.\<close>

lemma conn_inv_then_request:
  assumes "conn_inv c" "FindStream c ch = Some s"
    "st_ss t = st_ss s" "st_attr t = st_attr s" "st_channel t = st_channel s"
    "st_outstanding t = st_outstanding s" "sink_open (st_sink s) \<Longrightarrow> sink_open (st_sink t)"
    "length (sk_ring (st_sink t)) = length (sk_ring (st_sink s))"
    "Buffered (st_sink t) \<le> Buffered (st_sink s)"
    "c_streams c' = c_streams c" "c_version c' = c_version c"
  shows "conn_inv (set_stream ch t c')"
    and "conn_inv (set_stream ch (snd (MaybeRequest c' t)) (fst (MaybeRequest c' t)))"
proof -
  note s = FindStream_ok [OF assms(1,2)]
  then have "sink_open (st_sink s)" by (simp add: stream_wf_def sized_def)
  with assms s have t: "stream_wf t" "st_channel t = ch"
    by (auto intro: stream_wf_cong [of s t])
  then show "conn_inv (set_stream ch t c')"
    using assms(10,11) by (intro conn_inv_set_stream [OF assms(1)])
  show "conn_inv (set_stream ch (snd (MaybeRequest c' t)) (fst (MaybeRequest c' t)))"
    using assms(10,11) t
    by (intro conn_inv_set_stream [OF assms(1)]) (simp_all add: MaybeRequest_stream_wf attr_simps)
qed

lemma conn_inv_cmd_cork:
  assumes "conn_inv c"
  shows "conn_inv (snd (snd (cmd_cork n c tag r)))"
  unfolding cmd_cork_def case_prod_unfold Let_def
  by (auto split: option.split intro!: conn_inv_with_stream assms)
    (erule conn_inv_then_request(2) [OF assms]; simp add: attr_simps)

lemma conn_inv_cmd_flush:
  assumes "conn_inv c"
  shows "conn_inv (snd (snd (cmd_flush n c tag r)))"
  unfolding cmd_flush_def case_prod_unfold Let_def
  by (auto split: option.split intro!: conn_inv_with_stream assms)
    (erule conn_inv_then_request(2) [OF assms]; simp add: attr_simps ring.clear_invar)

lemma conn_inv_cmd_drain:
  assumes "conn_inv c"
  shows "conn_inv (snd (snd (cmd_drain n c tag r)))"
  unfolding cmd_drain_def
  by (auto split: option.split intro!: conn_inv_with_stream assms)
    (erule conn_inv_then_request(1) [OF assms]; simp add: attr_simps)

lemma conn_inv_cmd_delete: "conn_inv c \<Longrightarrow> conn_inv (snd (snd (cmd_delete n c tag r)))"
  by (auto simp: cmd_delete_def split: option.split intro!: conn_inv_with_stream)
    (simp add: conn_inv_def streams_ok_erase)

lemma conn_inv_cmd_auth: "conn_inv c \<Longrightarrow> conn_inv (snd (snd (cmd_auth n c tag r)))"
  by (auto simp: cmd_auth_def Let_def split: option.split) (simp add: conn_inv_def)

lemma conn_inv_readonly:
  assumes "conn_inv c"
  shows "conn_inv (snd (snd (cmd_set_client_name n c tag r)))" "conn_inv (snd (snd (cmd_trigger n c tag r)))"
    "conn_inv (snd (snd (cmd_latency e n c tag r)))" "conn_inv (snd (snd (cmd_set_stream_name n c tag r)))"
    "conn_inv (snd (snd (cmd_buffer_attr e n c tag r)))" "conn_inv (snd (snd (cmd_server_info n c tag)))"
  using assms
  by (auto simp: cmd_set_client_name_def cmd_trigger_def cmd_latency_def cmd_set_stream_name_def
      cmd_buffer_attr_def cmd_server_info_def Let_def split: option.split intro!: conn_inv_with_stream)

lemma conn_inv_HandleCommand:
  "conn_inv c \<Longrightarrow> conn_inv (snd (snd (HandleCommand e n c command tag r)))"
  by (simp add: HandleCommand_def conn_inv_cmd_auth conn_inv_readonly conn_inv_HandleCreatePlayback
      conn_inv_cmd_delete conn_inv_cmd_cork conn_inv_cmd_flush conn_inv_cmd_drain conn_inv_sends)

lemma conn_inv_HandlePacket:
  "conn_inv c \<Longrightarrow> conn_inv (snd (snd (HandlePacket e n c channel flags data)))"
  by (auto simp: HandlePacket_def conn_inv_HandleStreamData conn_inv_HandleCommand
      split: prod.split option.split)

subsection \<open>The pump\<close>

text \<open>The stream as \<open>PumpSinks\<close> leaves it, before \<open>MaybeRequest\<close>.\<close>

definition pumped :: "Stream \<Rightarrow> Stream" where
  "pumped s =
     (let (ev, k) = TakeEvents (st_sink s);
          s1 = s\<lparr>st_sink := k\<rparr>;
          s2 = (if ev_credit ev > 0
                then s1\<lparr>st_playingFor := st_playingFor s1 + BytesToUsec (st_ss s1) (ev_credit ev)\<rparr> else s1);
          s3 = (if ev_underflow ev then s2\<lparr>st_underrunFor := st_underrunFor s2 + 1\<rparr> else s2)
      in if ev_drained ev \<and> st_drainPending s then s3\<lparr>st_drainPending := False\<rparr> else s3)"

lemma snd_MaybeRequest_indep: "snd (MaybeRequest c s) = snd (MaybeRequest c' s)"
  by (simp add: MaybeRequest_def Let_def)

text \<open>What \<open>PumpSinks\<close> sends for the collected events.\<close>

definition event_sends :: "Events \<Rightarrow> Stream \<Rightarrow> Connection \<Rightarrow> Connection" where
  "event_sends ev s c =
     (let c2 = (if ev_started ev then SendEvent COMMAND_STARTED (st_channel s) None c else c);
          c3 = (if ev_underflow ev then SendEvent COMMAND_UNDERFLOW (st_channel s)
                  (if c_version c \<ge> 23 then Some (sint (ReadIndex (st_sink s))) else None) c2 else c2)
      in if ev_drained ev \<and> st_drainPending s then SendSimpleAck (st_drainTag s) c3 else c3)"

lemma pump_stream_request:
  "pump_stream c s = MaybeRequest (event_sends (sk_pending (st_sink s)) s c) (pumped s)"
  unfolding pump_stream_def pumped_def event_sends_def TakeEvents_def Let_def prod.case
  by (cases "ev_credit (sk_pending (st_sink s)) > 0"; cases "ev_underflow (sk_pending (st_sink s))";
      cases "ev_drained (sk_pending (st_sink s))"; cases "st_drainPending s"; simp add: ReadIndex_def)

lemma event_sends_frame [simp]:
  "c_streams (event_sends ev s c) = c_streams c" "c_version (event_sends ev s c) = c_version c"
  "c_authorized (event_sends ev s c) = c_authorized c"
  by (simp_all add: event_sends_def Let_def)

lemma pump_stream_eq:
  "snd (pump_stream c s) = snd (MaybeRequest c (pumped s))"
  "c_streams (fst (pump_stream c s)) = c_streams c" "c_version (fst (pump_stream c s)) = c_version c"
  unfolding pump_stream_request by (rule snd_MaybeRequest_indep) simp_all

lemma pumped_fields [attr_simps]:
  "st_ss (pumped s) = st_ss s" "st_attr (pumped s) = st_attr s" "st_channel (pumped s) = st_channel s"
  "st_outstanding (pumped s) = st_outstanding s" "st_sink (pumped s) = snd (TakeEvents (st_sink s))"
  by (simp_all add: pumped_def TakeEvents_def Let_def)

lemma stream_wf_pumped: "stream_wf s \<Longrightarrow> stream_wf (pumped s)"
  by (rule stream_wf_cong [of s]) (simp_all add: attr_simps, simp add: stream_wf_def sized_def)

lemma pump_streams_eq:
  "c_streams (pump_streams done m c) = rev done @ map (\<lambda>(k, s). (k, snd (pump_stream c s))) m \<and>
   c_version (pump_streams done m c) = c_version c"
proof (induction m arbitrary: "done" c)
  case (Cons e m)
  obtain k s where e: "e = (k, s)" by (cases e)
  have "snd (pump_stream (fst (pump_stream c s)) t) = snd (pump_stream c t)" for t
    unfolding pump_stream_eq by (rule snd_MaybeRequest_indep)
  with Cons show ?case by (simp add: e case_prod_unfold pump_stream_eq(3))
qed simp

lemma pump_connection_streams:
  "c_streams (pump_connection c) = map (\<lambda>(k, s). (k, snd (pump_stream c s))) (c_streams c)"
  "c_version (pump_connection c) = c_version c"
  by (simp_all add: pump_connection_def pump_streams_eq)

lemma pump_stream_wf:
  assumes "stream_wf s"
  shows "stream_wf (snd (pump_stream c s))" "settled (snd (pump_stream c s))"
    "st_channel (snd (pump_stream c s)) = st_channel s"
proof -
  have "stream_wf (pumped s)" by (rule stream_wf_pumped [OF assms])
  then have w: "sized (pumped s)" "buffered (pumped s) + st_outstanding (pumped s) \<le> tlen (pumped s)"
    by (simp_all add: stream_wf_def)
  show "stream_wf (snd (pump_stream c s))" "settled (snd (pump_stream c s))"
    unfolding pump_stream_eq by (rule MaybeRequest_wf [OF w])+
  show "st_channel (snd (pump_stream c s)) = st_channel s" by (simp add: pump_stream_eq attr_simps)
qed

lemma conn_inv_pump: "conn_inv c \<Longrightarrow> conn_inv (pump_connection c)"
  by (auto simp: conn_inv_def streams_ok_def pump_connection_streams map_inv_map_snd pump_stream_wf
      dest!: bspec)

subsection \<open>Reachable connections\<close>

text \<open>
  A connection lives through packets, pumps, turns of the render threads of its streams, socket
  reads and partial socket writes, in any order and with any answers from outside.
\<close>

inductive conn_step :: "Connection \<Rightarrow> Connection \<Rightarrow> bool" where
  packet: "HandlePacket e n c channel flags data = (ok, n', c') \<Longrightarrow> conn_step c c'"
| pump: "conn_step c (pump_connection c)"
| render_turn: "FindStream c ch = Some s \<Longrightarrow>
    conn_step c (set_stream ch (s\<lparr>st_sink := render_step e (st_sink s)\<rparr>) c)"
| socket_in: "conn_step c (c\<lparr>c_in := bs\<rparr>)"
| socket_out: "conn_step c (c\<lparr>c_out := drop k (c_out c)\<rparr>)"

inductive conn_reachable :: "Connection \<Rightarrow> bool" where
  accepted: "conn_reachable (new_Connection fd)"
| stepped: "conn_reachable c \<Longrightarrow> conn_step c c' \<Longrightarrow> conn_reachable c'"

lemma conn_inv_step: "conn_step c c' \<Longrightarrow> conn_inv c \<Longrightarrow> conn_inv c'"
proof (induction rule: conn_step.induct)
  case (packet e n c channel flags data ok n' c')
  then show ?case using conn_inv_HandlePacket [of c e n channel flags data] by simp
next
  case (pump c)
  then show ?case by (rule conn_inv_pump)
next
  case (render_turn c ch s e)
  then have "sink_open (st_sink s)" by (auto dest: FindStream_ok simp: stream_wf_def sized_def)
  with render_turn show ?case
    by (intro conn_inv_then_request(1) [of c ch s]) (simp_all add: render_step_sink)
qed (simp_all add: conn_inv_def)

lemma conn_inv_reachable: "conn_reachable c \<Longrightarrow> conn_inv c"
  by (induction rule: conn_reachable.induct)
    (simp add: conn_inv_def new_Connection_def, rule conn_inv_step)

end
