(* ===== verification/Pa_Session.thy ===== *)
theory Pa_Session
  imports Pa_Flow
begin

text \<open>
  The client's side of the protocol, as a specification: what a version 13 client puts on the
  wire to authenticate and to create a playback stream, and that the server of
  \<open>waydroid_audio_main.cpp\<close> understands exactly that. A small concrete session is built from it.
\<close>

section \<open>Requests\<close>

definition command_packet :: "u32 \<Rightarrow> u32 \<Rightarrow> bytes \<Rightarrow> bytes" where
  "command_packet command tag body = PutU32 tag (PutU32 command []) @ body"

definition auth_body :: "u32 \<Rightarrow> bytes \<Rightarrow> bytes" where
  "auth_body version cookie =
     PutU32 version [] @ TAG_ARBITRARY # be_bytes32 (of_nat (length cookie)) @ cookie"

definition create_body :: "CreateReq \<Rightarrow> bytes option \<Rightarrow> u8 \<times> u32 \<Rightarrow> bool list \<Rightarrow> bytes" where
  "create_body q device vol flags =
     PutSampleSpec (cr_ss q) [] @ PutChannelMap (cr_cm q) [] @ PutU32 INVALID_INDEX [] @
     PutString device [] @ PutU32 (cr_maxlength q) [] @ PutBool (cr_corked q) [] @
     PutU32 (cr_tlength q) [] @ PutU32 (cr_prebuf q) [] @ PutU32 (cr_minreq q) [] @ PutU32 0 [] @
     (\<lambda>(n, v). PutCVolume n v) vol [] @ concat (map (\<lambda>b. PutBool b []) flags) @
     PutBool False [] @ PutBool False [] @ PutProplist (cr_props q) []"

definition create_ok :: "CreateReq \<Rightarrow> bool" where
  "create_ok q \<longleftrightarrow> cm_agrees default_ChannelMap (cr_cm q) \<and> map_inv (cr_props q) \<and>
     (\<forall>kv \<in> set (cr_props q). prop_ok kv)"

lemma reads_flags: "reads (get_flags (length bs)) () (concat (map (\<lambda>b. PutBool b []) bs))"
  by (induction bs) (simp_all add: reads_return reads_bind [OF bool_field.reads_put])

lemma reads_GetString: "reads GetString (case s of None \<Rightarrow> ([], True) | Some t \<Rightarrow> (c_str t, False)) (PutString s [])"
  unfolding reads_def GetString_at by (auto simp: PutString_def raw_append split: option.split)

lemma reads_bind_return: "reads g x w \<Longrightarrow> reads (rd_bind g (\<lambda>x. rd_return (f x))) (f x) w"
  using reads_bind [OF _ reads_return, of g x w f] by simp

lemma reads_CreateReq:
  assumes "create_ok q" "length flags = 7" "fst vol = 0 \<longrightarrow> snd vol = VOLUME_NORM"
  shows "reads get_CreateReq q (create_body q device vol flags)"
proof -
  have vol: "reads GetCVolume vol ((\<lambda>(n, v). PutCVolume n v) vol [])"
    by (rule cvolume_field.reads_put) (use assms(3) in \<open>simp add: case_prod_unfold\<close>)
  have props: "reads (GetProplist []) (cr_props q) (PutProplist (cr_props q) [])"
    by (rule proplist_field.reads_put) (use assms(1) in \<open>simp add: create_ok_def\<close>)
  have cm: "reads (GetChannelMap default_ChannelMap) (cr_cm q) (PutChannelMap (cr_cm q) [])"
    by (rule channel_map_field.reads_put) (use assms(1) in \<open>simp add: create_ok_def\<close>)
  have flags: "reads (get_flags 7) () (concat (map (\<lambda>b. PutBool b []) flags))"
    using reads_flags [of flags] assms(2) by simp
  have u32: "reads GetU32 v (PutU32 v [])" and bool: "reads GetBool b (PutBool b [])" for v b
    by (simp_all add: u32_field.reads_put bool_field.reads_put)
  have q: "q = \<lparr>cr_ss = cr_ss q, cr_cm = cr_cm q, cr_maxlength = cr_maxlength q,
      cr_corked = cr_corked q, cr_tlength = cr_tlength q, cr_prebuf = cr_prebuf q,
      cr_minreq = cr_minreq q, cr_props = cr_props q\<rparr>" by simp
  show ?thesis
    unfolding get_CreateReq_def create_body_def
    by (rule reads_bind [OF sample_spec_field.reads_put [OF TrueI]], rule reads_bind [OF cm],
        rule reads_bind [OF u32], rule reads_bind [OF reads_GetString], rule reads_bind [OF u32],
        rule reads_bind [OF bool], rule reads_bind [OF u32], rule reads_bind [OF u32],
        rule reads_bind [OF u32], rule reads_bind [OF u32], rule reads_bind [OF vol],
        rule reads_bind [OF flags], rule reads_bind [OF bool], rule reads_bind [OF bool],
        subst q, rule reads_bind_return [OF props])
qed

lemma reads_auth:
  assumes "length cookie < 2 ^ 32"
  shows "reads (rd_bind GetU32 (\<lambda>version. rd_bind GetArbitrary (\<lambda>cookie. rd_return version))) version
    (auth_body version cookie)"
proof -
  have "unat (of_nat (length cookie) :: u32) = length cookie" using assms by (simp add: unat_of_nat)
  then have "reads GetArbitrary cookie (TAG_ARBITRARY # be_bytes32 (of_nat (length cookie)) @ cookie)"
    by (simp add: reads_def GetArbitrary_at)
  then show ?thesis
    unfolding auth_body_def by (intro reads_bind [OF u32_field.reads_put [OF TrueI]] reads_bind_return)
qed

lemma reads_at: "reads g x w \<Longrightarrow> fst (g (reader_at pre w)) = Some x"
  by (metis append_Nil2 fst_conv reads_def)

lemma HandlePacket_command:
  "HandlePacket e n c CHANNEL_COMMAND 0 (command_packet command tag body) =
     HandleCommand e n c command tag (reader_at (PutU32 tag (PutU32 command [])) body)"
proof -
  have h: "reads (rd_bind GetU32 (\<lambda>command. rd_bind GetU32 (\<lambda>tag. rd_return (command, tag)))) (command, tag)
      (PutU32 command [] @ PutU32 tag [])"
    by (intro reads_bind [OF u32_field.reads_put [OF TrueI]] reads_bind_return
        u32_field.reads_put [OF TrueI])
  have "rd_bind GetU32 (\<lambda>command. rd_bind GetU32 (\<lambda>tag. rd_return (command, tag)))
      (reader_at [] ((PutU32 command [] @ PutU32 tag []) @ body)) =
      (Some (command, tag), reader_at ([] @ PutU32 command [] @ PutU32 tag []) body)"
    using h unfolding reads_def by blast
  then show ?thesis
    unfolding HandlePacket_def command_packet_def mk_TagReader_at
      u32_field.put_append [of tag "PutU32 command []"] by simp
qed

section \<open>A concrete session\<close>

definition sample_env :: srv_env where
  "sample_env = \<lparr>env_now = 5000000, env_latency = (0, 40000), env_created = True\<rparr>"

definition sample_counters :: Counters where
  "sample_counters = \<lparr>nextStreamIndex = 0, nextClientIndex = 0\<rparr>"

definition sample_request :: CreateReq where
  "sample_request = \<lparr>cr_ss = default_SampleSpec, cr_cm = default_ChannelMap, cr_maxlength = 12,
     cr_corked = False, cr_tlength = 8, cr_prebuf = 0, cr_minreq = 4, cr_props = []\<rparr>"

definition sample_auth :: bytes where
  "sample_auth = command_packet COMMAND_AUTH 0 (auth_body 13 [1, 2, 3])"

definition sample_create :: bytes where
  "sample_create = command_packet COMMAND_CREATE_PLAYBACK_STREAM 1
     (create_body sample_request None (2, VOLUME_NORM) (replicate 7 False))"

definition sample_authed :: Connection where
  "sample_authed =
     snd (snd (HandlePacket sample_env sample_counters (new_Connection 5) CHANNEL_COMMAND 0 sample_auth))"

definition sample_conn :: Connection where
  "sample_conn =
     snd (snd (HandlePacket sample_env sample_counters sample_authed CHANNEL_COMMAND 0 sample_create))"

definition sample_stream :: Stream where
  "sample_stream = created_stream sample_env 0 0 sample_request
     (snd (Open True default_SampleSpec 12 new_OhosSink))"

lemma HandlePacket_auth:
  assumes "length cookie < 2 ^ 32" "8 \<le> version AND VERSION_MASK"
  shows "HandlePacket e n c CHANNEL_COMMAND 0 (command_packet COMMAND_AUTH tag (auth_body version cookie)) =
    (let v = min (version AND VERSION_MASK) PROTOCOL_VERSION
     in (True, n, SendTag (PutU32 v (SendReplyHeader tag [])) (c\<lparr>c_version := v, c_authorized := True\<rparr>)))"
  using reads_at [OF reads_auth [OF assms(1)]] assms(2)
  by (simp add: HandlePacket_command HandleCommand_def cmd_auth_def Let_def not_less)

lemma HandlePacket_create:
  assumes "create_ok q" "length flags = 7" "fst vol = 0 \<longrightarrow> snd vol = VOLUME_NORM" "c_authorized c"
    "Valid (cr_ss q)"
    "Open (env_created e) (cr_ss q) (unat (ba_maxlength (requested_attr q))) new_OhosSink = (True, k)"
  shows "HandlePacket e n c CHANNEL_COMMAND 0
      (command_packet COMMAND_CREATE_PLAYBACK_STREAM tag (create_body q device vol flags)) =
    (let s = created_stream e (c_nextChannel c) (nextStreamIndex n) q k
     in (True, n\<lparr>nextStreamIndex := nextStreamIndex n + 1\<rparr>,
         set_stream (c_nextChannel c) s
           (SendTag (create_reply tag (SinkLatencyUsec (env_latency e) (st_sink s)) s)
             (c\<lparr>c_nextChannel := c_nextChannel c + 1\<rparr>))))"
  using reads_at [OF reads_CreateReq [OF assms(1-3)]] assms(4-6)
  by (simp add: HandlePacket_command HandleCommand_def HandleCreatePlayback_def Let_def)

lemma sample_authed_fields:
  "c_authorized sample_authed" "c_nextChannel sample_authed = 0" "c_streams sample_authed = []"
  by (simp_all add: sample_authed_def sample_auth_def HandlePacket_auth Let_def SendTag_def new_Connection_def)

lemma sample_attr:
  "requested_attr sample_request =
     \<lparr>ba_maxlength = 12, ba_tlength = 8, ba_prebuf = 0, ba_minreq = 4, ba_fragsize = INVALID_INDEX\<rparr>"
  by (simp add: requested_attr_def sane_attr_def sample_request_def default_BufferAttr_def Let_def
      sane_maxlength_def sane_tlength_def sane_minreq_def sane_prebuf_def clamp32_def unset_def
      FrameSize_def default_SampleSpec_def ABSOLUTE_MAX_BUFFER_def)

lemma sample_open:
  "Open True default_SampleSpec 12 new_OhosSink = (True, snd (Open True default_SampleSpec 12 new_OhosSink))"
  by (simp add: Open_def default_SampleSpec_def ToOhosFormat_def)

lemma sample_create_ok: "create_ok sample_request" "Valid (cr_ss sample_request)"
  by (simp_all add: create_ok_def sample_request_def cm_agrees_def default_ChannelMap_def map_inv_def
      Valid_def default_SampleSpec_def)

lemma sample_conn_streams: "c_streams sample_conn = [(0, sample_stream)]"
proof -
  have "Open (env_created sample_env) (cr_ss sample_request) (unat (ba_maxlength (requested_attr sample_request)))
      new_OhosSink = (True, snd (Open True default_SampleSpec 12 new_OhosSink))"
    using sample_open by (simp add: sample_attr) (simp add: sample_env_def sample_request_def)
  note HandlePacket_create [OF sample_create_ok(1) _ _ sample_authed_fields(1) sample_create_ok(2) this,
      of "replicate 7 False" "(2, VOLUME_NORM)" sample_counters 1 None]
  then show ?thesis
    by (simp add: sample_conn_def sample_create_def Let_def sample_authed_fields sample_stream_def
        sample_counters_def)
qed

lemma reachable_packet:
  "conn_reachable c \<Longrightarrow> conn_reachable (snd (snd (HandlePacket e n c channel flags data)))"
  by (erule stepped) (cases "HandlePacket e n c channel flags data"; simp add: packet)

lemma sample_reachable: "conn_reachable sample_conn"
  unfolding sample_conn_def sample_authed_def by (intro reachable_packet accepted)

section \<open>What the flow control guarantees\<close>

text \<open>
  C1: In every reachable state of a connection, whatever the interleaving of packets, pumps and
  render threads, the bytes buffered and the credit granted together never exceed the target
  length, which fits the ring; an overdraft stays below the ring size; streams are filed under
  their own channel number.
\<close>

theorem flow_invariant:
  assumes "conn_reachable c" "FindStream c channel = Some s"
  shows "int (Buffered (st_sink s)) + st_outstanding s \<le> uint (ba_tlength (st_attr s)) \<and>
    ba_tlength (st_attr s) \<le> ba_maxlength (st_attr s) \<and>
    length (sk_ring (st_sink s)) = unat (ba_maxlength (st_attr s)) \<and>
    unat (ba_maxlength (st_attr s)) \<le> ABSOLUTE_MAX_BUFFER \<and>
    - uint (ba_maxlength (st_attr s)) < st_outstanding s \<and>
    st_channel s = channel"
  using FindStream_ok [OF conn_inv_reachable [OF assms(1)] assms(2)]
  by (simp add: stream_wf_def sized_def attr_wf_def)

lemma sample_find: "FindStream sample_conn 0 = Some sample_stream"
  by (simp add: FindStream_def sample_conn_streams map_find_def)

theorem flow_invariant_witness:
  "conn_reachable sample_conn \<and> FindStream sample_conn 0 = Some sample_stream \<and>
   length (sk_ring (st_sink sample_stream)) = unat (ba_maxlength (st_attr sample_stream))"
  using sample_reachable sample_find flow_invariant [OF sample_reachable sample_find] by simp

lemma credit_fits:
  assumes "stream_wf s" "int (length data) \<le> st_outstanding s"
  shows "fst (Push data (st_sink s)) = length data"
proof -
  have so: "sink_open (st_sink s)" and sz: "sized s" using assms(1) by (simp_all add: stream_wf_def sized_def)
  have "buffered s + int (length data) \<le> maxl s"
    using assms sized_bounds [OF sz] by (simp add: stream_wf_def)
  then have "int (Buffered (st_sink s) + length data) \<le> int (unat (ba_maxlength (st_attr s)))"
    by (simp only: uint_nat of_nat_add)
  then have "Buffered (st_sink s) + length data \<le> unat (ba_maxlength (st_attr s))"
    by (simp only: of_nat_le_iff)
  then have "length data \<le> room (st_sink s)"
    using sz by (simp add: room_def sized_def Buffered_def)
  then show ?thesis by (rule ring.enq_all [OF so])
qed

lemma FindStream_set_stream:
  "map_inv (c_streams c) \<Longrightarrow> FindStream (set_stream k s c) k = Some s"
  by (simp add: FindStream_def set_stream_def map_find_put)

lemma conn_inv_map: "conn_inv c \<Longrightarrow> map_inv (c_streams c)"
  by (simp add: conn_inv_def streams_ok_def)

text \<open>
  C3: A client that writes no more than the credit it holds never loses a byte: the data is
  appended to the queue of the sink whole, the write index advances by its length, and nothing
  is sent back but, at most, one \<open>REQUEST\<close>.
\<close>

theorem no_drop_within_credit:
  assumes "conn_reachable c" "FindStream c channel = Some s" "int (length data) \<le> st_outstanding s"
  shows "\<exists>s'. FindStream (HandleStreamData channel flags data c) channel = Some s' \<and>
    contents (st_sink s') = contents (st_sink s) @ data \<and>
    st_writeIndex s' = st_writeIndex s + of_nat (length data) \<and>
    (c_out (HandleStreamData channel flags data c) = c_out c \<or>
     (\<exists>amount. c_out (HandleStreamData channel flags data c) =
        c_out (SendTag (request_msg channel amount) c)))"
proof -
  note inv = conn_inv_reachable [OF assms(1)]
  note s = FindStream_ok [OF inv assms(2)]
  have acc: "fst (Push data (st_sink s)) = length data" using credit_fits s assms(3) by simp
  have so: "sink_open (st_sink s)" using s by (simp add: stream_wf_def sized_def)
  let ?m = "MaybeRequest c (received data s)"
  have eq: "HandleStreamData channel flags data c = set_stream channel (snd ?m) (fst ?m)"
    by (simp add: HandleStreamData_eq [OF assms(2)] acc)
  have find: "FindStream (set_stream channel (snd ?m) (fst ?m)) channel = Some (snd ?m)"
    by (rule FindStream_set_stream) (simp add: conn_inv_map [OF inv])
  have "contents (st_sink (snd ?m)) = contents (st_sink s) @ data"
    by (simp add: attr_simps ring.enq_queue [OF so] acc)
  moreover have "st_writeIndex (snd ?m) = st_writeIndex s + of_nat (length data)"
    by (simp add: attr_simps) (simp add: received_def)
  moreover have "c_out (fst ?m) = c_out c \<or>
      (\<exists>amount. c_out (fst ?m) = c_out (SendTag (request_msg channel amount) c))"
    using s by (auto simp: MaybeRequest_def Let_def attr_simps)
  ultimately show ?thesis using find by (auto simp: eq set_stream_def)
qed

lemma sample_outstanding: "st_outstanding sample_stream = 8"
  unfolding sample_stream_def created_stream_def sample_attr by simp

theorem no_drop_within_credit_witness:
  "int (length [1, 2, 3, 4 :: u8]) \<le> st_outstanding sample_stream \<and>
   (\<exists>s'. FindStream (HandleStreamData 0 0 [1, 2, 3, 4] sample_conn) 0 = Some s' \<and>
      contents (st_sink s') = contents (st_sink sample_stream) @ [1, 2, 3, 4])"
proof -
  have c: "int (length [1, 2, 3, 4 :: u8]) \<le> st_outstanding sample_stream"
    by (simp add: sample_outstanding)
  show ?thesis
    using c no_drop_within_credit [OF sample_reachable sample_find c, of 0] by blast
qed

lemma settled_MaybeRequest_id: "settled s \<Longrightarrow> MaybeRequest c s = (c, s)"
  by (simp add: settled_def MaybeRequest_def Let_def)

lemma pump_connection_find:
  assumes "conn_inv c" "FindStream (pump_connection c) channel = Some s'"
  obtains s where "FindStream c channel = Some s" "s' = snd (pump_stream c s)"
proof -
  have "(channel, s') \<in> set (c_streams (pump_connection c))"
    using assms(2) by (auto simp: FindStream_def dest: map_find_in_set)
  then obtain s where "(channel, s) \<in> set (c_streams c)" "s' = snd (pump_stream c s)"
    by (auto simp: pump_connection_streams)
  with that conn_inv_map [OF assms(1)] show ?thesis by (auto simp: FindStream_def map_find_iff)
qed

text \<open>
  C9: The client never starves. After every turn of the loop, whatever the client did before
  (overdrafts and flushes included), less than \<open>minreq\<close> bytes of the target are neither buffered
  nor on request; so a client whose stream has run dry always holds credit to write.
\<close>

theorem no_stall_after_pump:
  assumes "conn_reachable c" "FindStream (pump_connection c) channel = Some s"
  shows "uint (ba_tlength (st_attr s)) - int (Buffered (st_sink s)) - st_outstanding s
      < uint (ba_minreq (st_attr s)) \<and>
    (Buffered (st_sink s) = 0 \<longrightarrow> 0 < st_outstanding s)"
proof -
  note inv = conn_inv_reachable [OF assms(1)]
  from pump_connection_find [OF inv assms(2)] obtain s0 where
    s0: "FindStream c channel = Some s0" "s = snd (pump_stream c s0)" .
  from FindStream_ok [OF inv s0(1)] have "stream_wf s0" by simp
  from pump_stream_wf [OF this, of c] have w: "stream_wf s" "settled s" by (simp_all add: s0)
  then show ?thesis using settled_credit [of s] by (simp add: stream_wf_def settled_def)
qed

theorem no_stall_after_pump_witness:
  "FindStream (pump_connection sample_conn) 0 = Some (snd (pump_stream sample_conn sample_stream)) \<and>
   Buffered (st_sink (snd (pump_stream sample_conn sample_stream))) = 0 \<and>
   0 < st_outstanding (snd (pump_stream sample_conn sample_stream))"
proof -
  have f: "FindStream (pump_connection sample_conn) 0 = Some (snd (pump_stream sample_conn sample_stream))"
    by (simp add: FindStream_def pump_connection_streams sample_conn_streams map_find_def)
  have b: "Buffered (st_sink (snd (pump_stream sample_conn sample_stream))) = 0"
    by (simp add: pump_stream_eq attr_simps)
      (simp add: sample_stream_def created_stream_def attr_simps Open_def default_SampleSpec_def
        ToOhosFormat_def Buffered_def SetCorked_def)
  show ?thesis using f b no_stall_after_pump [OF sample_reachable f] by simp
qed

lemma pumped_quiet: "sk_pending (st_sink s) = no_Events \<Longrightarrow> pumped s = s"
  by (simp add: pumped_def TakeEvents_def Let_def no_Events_def)

lemma pump_stream_quiet:
  "sk_pending (st_sink s) = no_Events \<Longrightarrow> settled s \<Longrightarrow> pump_stream c s = (c, s)"
  by (simp add: pump_stream_request pumped_quiet settled_MaybeRequest_id)
    (simp add: event_sends_def no_Events_def Let_def)

lemma pump_streams_quiet:
  assumes "\<forall>(k, s) \<in> set m. sk_pending (st_sink s) = no_Events \<and> settled s"
  shows "pump_streams done m c = c\<lparr>c_streams := rev done @ m\<rparr>"
  using assms
  by (induction m arbitrary: "done") (auto simp: pump_stream_quiet)

lemma pending_pump_stream: "sk_pending (st_sink (snd (pump_stream c s))) = no_Events"
  by (simp add: pump_stream_eq attr_simps) (simp add: TakeEvents_def)

text \<open>
  \<open>PumpSinks\<close> reports each event once: pumping again, with no render step in between, sends
  nothing and changes nothing.
\<close>

lemma pump_idempotent:
  assumes "conn_reachable c"
  shows "pump_connection (pump_connection c) = pump_connection c"
proof -
  have "\<forall>(k, s) \<in> set (c_streams c). stream_wf s"
    using conn_inv_reachable [OF assms] by (auto simp: conn_inv_def streams_ok_def)
  then have "\<forall>(k, s) \<in> set (c_streams (pump_connection c)). sk_pending (st_sink s) = no_Events \<and> settled s"
    by (auto simp: pump_connection_streams pending_pump_stream pump_stream_wf)
  from pump_streams_quiet [OF this, of "[]"] show ?thesis
    by (simp add: pump_connection_def [of "pump_connection c"])
qed

section \<open>Authorisation\<close>

definition locked_out :: "Connection \<Rightarrow> bool" where
  "locked_out c \<longleftrightarrow> c_streams c = [] \<and> c_nextChannel c = 0"

lemma pump_auth: "c_authorized (pump_connection c) = c_authorized c"
proof -
  have "c_authorized (pump_streams done m c) = c_authorized c" for "done" m
    by (induction m arbitrary: "done" c) (auto simp: case_prod_unfold pump_stream_request)
  then show ?thesis by (simp add: pump_connection_def)
qed

lemma with_stream_auth:
  "c_authorized c \<Longrightarrow> (\<And>s. c_authorized (k s)) \<Longrightarrow> c_authorized (snd (snd (with_stream n c tag ch k)))"
  by (simp add: with_stream_def split: option.split)

lemma commands_auth:
  assumes "c_authorized c"
  shows "c_authorized (snd (snd (cmd_auth n c tag r)))"
    "c_authorized (snd (snd (cmd_set_client_name n c tag r)))"
    "c_authorized (snd (snd (HandleCreatePlayback e n c tag r)))"
    "c_authorized (snd (snd (cmd_delete n c tag r)))" "c_authorized (snd (snd (cmd_cork n c tag r)))"
    "c_authorized (snd (snd (cmd_flush n c tag r)))" "c_authorized (snd (snd (cmd_trigger n c tag r)))"
    "c_authorized (snd (snd (cmd_drain n c tag r)))" "c_authorized (snd (snd (cmd_latency e n c tag r)))"
    "c_authorized (snd (snd (cmd_set_stream_name n c tag r)))"
    "c_authorized (snd (snd (cmd_buffer_attr e n c tag r)))"
    "c_authorized (snd (snd (cmd_server_info n c tag)))"
  using assms
  by (simp_all add: cmd_auth_def cmd_set_client_name_def HandleCreatePlayback_def cmd_delete_def
      cmd_cork_def cmd_flush_def cmd_trigger_def cmd_drain_def cmd_latency_def cmd_set_stream_name_def
      cmd_buffer_attr_def cmd_server_info_def Let_def case_prod_unfold with_stream_auth
      split: option.split)

lemma HandlePacket_auth_kept:
  "c_authorized c \<Longrightarrow> c_authorized (snd (snd (HandlePacket e n c channel flags data)))"
  by (simp add: HandlePacket_def HandleStreamData_def HandleCommand_def commands_auth case_prod_unfold
      Let_def split: option.split)

lemma HandlePacket_locked:
  assumes "\<not> c_authorized c" "locked_out c" "HandlePacket e n c channel flags data = (ok, n', c')"
  shows "c_authorized c' \<or> locked_out c'"
  using assms
  by (auto simp: HandlePacket_def HandleStreamData_def FindStream_def map_find_def locked_out_def
      HandleCommand_def cmd_auth_def send_defs Let_def
      split: if_splits prod.splits option.splits)

text \<open>
  C21: Without an accepted \<open>AUTH\<close> a connection has no stream and has handed out no channel, in
  every reachable state.
\<close>

theorem no_stream_without_auth:
  assumes "conn_reachable c" "\<not> c_authorized c"
  shows "c_streams c = [] \<and> c_nextChannel c = 0"
proof -
  have "c_authorized c \<or> locked_out c"
    using assms(1)
  proof (induction rule: conn_reachable.induct)
    case (accepted fd)
    then show ?case by (simp add: locked_out_def new_Connection_def)
  next
    case (stepped c c')
    show ?case
    proof (cases "c_authorized c")
      case True
      from stepped(2) this show ?thesis
        by cases (auto simp: pump_auth, metis HandlePacket_auth_kept snd_conv)
    next
      case False
      with stepped have l: "locked_out c" by simp
      from stepped(2) this show ?thesis
      proof cases
        case (packet e n channel flags data ok n')
        then show ?thesis using HandlePacket_locked [OF False l] by blast
      qed (auto simp: locked_out_def pump_connection_def FindStream_def map_find_def)
    qed
  qed
  with assms(2) show ?thesis by (simp add: locked_out_def)
qed

theorem no_stream_without_auth_witness:
  "conn_reachable (new_Connection 5) \<and> \<not> c_authorized (new_Connection 5) \<and>
   c_streams (new_Connection 5) = []"
proof -
  have n: "\<not> c_authorized (new_Connection 5)" by (simp add: new_Connection_def)
  show ?thesis using accepted n no_stream_without_auth [OF accepted n] by simp
qed

section \<open>Draining and flushing\<close>

text \<open>
  A drain reply is lost when the server still waits for the sink's \<open>drained\<close> event and the sink
  has no intention to raise it. \<open>background_step\<close> is everything but the client's own commands.
\<close>

definition lost_drain :: "Stream \<Rightarrow> bool" where
  "lost_drain s \<longleftrightarrow> st_drainPending s \<and> \<not> sk_drainRequested (st_sink s) \<and>
     sk_pc (st_sink s) \<noteq> R_Drain \<and> \<not> ev_drained (sk_pending (st_sink s))"

inductive background_step :: "Connection \<Rightarrow> Connection \<Rightarrow> bool" where
  bg_data: "background_step c (HandleStreamData channel flags data c)"
| bg_pump: "background_step c (pump_connection c)"
| bg_render: "FindStream c ch = Some s \<Longrightarrow>
    background_step c (set_stream ch (s\<lparr>st_sink := render_step e (st_sink s)\<rparr>) c)"
| bg_socket: "background_step c (c\<lparr>c_in := bs, c_out := drop k (c_out c)\<rparr>)"

lemma lost_drain_render: "lost_drain s \<Longrightarrow> lost_drain (s\<lparr>st_sink := render_step e (st_sink s)\<rparr>)"
  by (cases "sk_pc (st_sink s)")
    (simp_all add: lost_drain_def render_step_def render_wait_def render_write_def render_credit_def
      Let_def case_prod_unfold attr_simps)

lemma lost_drain_MaybeRequest: "lost_drain (snd (MaybeRequest c s)) = lost_drain s"
  by (simp add: lost_drain_def attr_simps)

lemma lost_drain_received: "lost_drain s \<Longrightarrow> lost_drain (received data s)"
  by (simp add: lost_drain_def attr_simps) (simp add: received_def)

lemma lost_drain_pumped: "lost_drain s \<Longrightarrow> lost_drain (pumped s)"
  by (simp add: lost_drain_def pumped_def TakeEvents_def Let_def no_Events_def)

lemma FindStream_set_other:
  "map_inv (c_streams c) \<Longrightarrow> FindStream (set_stream k s c) k' = (if k' = k then Some s else FindStream c k')"
  by (simp add: FindStream_def set_stream_def map_find_put)

lemma FindStream_MaybeRequest [simp]:
  "FindStream (fst (MaybeRequest c t)) = FindStream c" "FindStream (SendEvent cmd ch x c) = FindStream c"
  by (simp_all add: FindStream_def fun_eq_iff)

lemma lost_drain_background:
  assumes "background_step c c'" "conn_inv c" "FindStream c channel = Some s" "lost_drain s"
  shows "\<exists>s'. FindStream c' channel = Some s' \<and> lost_drain s'"
  using assms
proof (induction rule: background_step.induct)
  case (bg_data c ch flags data)
  note m = conn_inv_map [OF bg_data(1)]
  show ?case
  proof (cases "FindStream c ch")
    case None
    with bg_data show ?thesis by (simp add: HandleStreamData_def)
  next
    case (Some t)
    with bg_data m show ?thesis
      by (auto simp: HandleStreamData_eq [OF Some] Let_def FindStream_set_other lost_drain_MaybeRequest
          lost_drain_received)
  qed
next
  case (bg_pump c)
  then have "FindStream (pump_connection c) channel = Some (snd (pump_stream c s))"
    by (simp add: FindStream_def pump_connection_streams map_find_def map_of_map)
  with bg_pump show ?case
    by (simp add: pump_stream_eq lost_drain_MaybeRequest lost_drain_pumped)
next
  case (bg_render c ch t e)
  then show ?case
    using conn_inv_map [OF bg_render(2)] by (auto simp: FindStream_set_other lost_drain_render)
qed (simp add: FindStream_def)

lemma background_conn_step: "background_step c c' \<Longrightarrow> conn_inv c \<Longrightarrow> conn_inv c'"
proof (induction rule: background_step.induct)
  case (bg_render c ch s e)
  then show ?case by (rule conn_inv_step [OF conn_step.render_turn])
qed (simp_all add: conn_inv_HandleStreamData conn_inv_pump, simp add: conn_inv_def)

lemma lost_drain_star:
  "background_step\<^sup>*\<^sup>* c c' \<Longrightarrow> conn_inv c \<Longrightarrow> FindStream c channel = Some s \<Longrightarrow> lost_drain s \<Longrightarrow>
   conn_inv c' \<and> (\<exists>s'. FindStream c' channel = Some s' \<and> lost_drain s')"
  by (induction rule: rtranclp_induct) (auto dest: background_conn_step lost_drain_background)

text \<open>
  C22: A flush cancels a drain that is still waiting, without telling the client: after a \<open>FLUSH\<close>
  on a stream whose drain has not completed, no amount of data, playing and pumping makes the
  server answer the \<open>DRAIN\<close>; the stream waits for an event the sink no longer owes.
\<close>

theorem flush_loses_drain:
  assumes "conn_reachable c" "FindStream c channel = Some s" "st_drainPending s"
    "sk_pc (st_sink s) \<noteq> R_Drain" "\<not> ev_drained (sk_pending (st_sink s))"
    "fst (GetU32 r) = Some channel"
    "background_step\<^sup>*\<^sup>* (snd (snd (cmd_flush n c tag r))) c'"
  shows "\<exists>s'. FindStream c' channel = Some s' \<and> st_drainPending s'"
proof -
  note inv = conn_inv_reachable [OF assms(1)]
  let ?s = "s\<lparr>st_sink := Flush (st_sink s)\<rparr>"
  have f: "FindStream (snd (snd (cmd_flush n c tag r))) channel =
      Some (snd (MaybeRequest (SendSimpleAck tag c) ?s))"
    using assms(2,6) conn_inv_map [OF inv]
    by (simp add: cmd_flush_def with_stream_def case_prod_unfold Let_def FindStream_set_other)
  have "lost_drain ?s" using assms by (simp add: lost_drain_def Flush_def)
  then have l: "lost_drain (snd (MaybeRequest (SendSimpleAck tag c) ?s))"
    by (simp add: lost_drain_MaybeRequest)
  from lost_drain_star [OF assms(7) conn_inv_cmd_flush [OF inv] f l]
  show ?thesis by (auto simp: lost_drain_def)
qed

definition sample_draining :: Connection where
  "sample_draining = snd (snd (HandlePacket sample_env sample_counters sample_conn CHANNEL_COMMAND 0
     (command_packet COMMAND_DRAIN_PLAYBACK_STREAM 2 (PutU32 0 []))))"

lemma GetU32_body: "fst (GetU32 (reader_at pre (PutU32 v []))) = Some v"
  by (rule reads_at [OF u32_field.reads_put [OF TrueI]])

lemma HandlePacket_auth_sample: "c_authorized sample_conn"
  unfolding sample_conn_def by (rule HandlePacket_auth_kept [OF sample_authed_fields(1)])

lemma sample_draining_find:
  "FindStream sample_draining 0 = Some (sample_stream\<lparr>st_drainPending := True, st_drainTag := 2,
     st_sink := RequestDrain (st_sink sample_stream)\<rparr>)"
  by (simp add: sample_draining_def HandlePacket_command HandleCommand_def HandlePacket_auth_sample
      cmd_drain_def GetU32_body with_stream_def sample_find set_stream_def)
    (simp add: FindStream_def sample_conn_streams map_find_def)

theorem flush_loses_drain_witness:
  "\<exists>s. FindStream (snd (snd (cmd_flush sample_counters sample_draining 3 (reader_at [] (PutU32 0 []))))) 0
     = Some s \<and> st_drainPending s"
proof -
  have r: "conn_reachable sample_draining"
    unfolding sample_draining_def by (rule reachable_packet [OF sample_reachable])
  have sk: "sk_pc (st_sink sample_stream) = R_Wait" "sk_pending (st_sink sample_stream) = no_Events"
    by (simp_all add: sample_stream_def created_stream_def SetCorked_def Open_def default_SampleSpec_def
        ToOhosFormat_def new_OhosSink_def)
  show ?thesis
    by (rule flush_loses_drain [OF r sample_draining_find _ _ _ GetU32_body rtranclp.rtrancl_refl])
      (simp_all add: RequestDrain_def sk no_Events_def)
qed

end
