(* ===== verification/Pa_Framing.thy ===== *)
theory Pa_Framing
  imports Pa_Session
begin

text \<open>
  Sockets of the PulseAudio server: \<open>Server::ReadFrom\<close> and \<open>Server::FlushOut\<close> of
  \<open>waydroid_audio_main.cpp\<close>.

  \<^item> What \<open>read\<close> and \<open>write\<close> return is an argument: a list of results, one per call. The socket
    is non-blocking, so a list that runs out stands for \<open>EAGAIN\<close>.
  \<^item> \<open>packet_loop\<close> is the loop over whole packets. The code walks an offset through \<open>c.in\<close>,
    which no handler touches; here the bytes behind the offset are an argument.
  \<^item> The theorems: cutting the byte stream differently makes no difference, what \<open>Send\<close> frames
    is what the loop takes apart, buffering is bounded, and \<open>FlushOut\<close> neither loses nor
    repeats a byte.
\<close>

section \<open>Reading\<close>

datatype read_result = RdBytes bytes | RdEof | RdAgain | RdIntr | RdError

definition READ_BUFFER :: nat where "READ_BUFFER = 16384"

fun read_loop :: "read_result list \<Rightarrow> bytes \<Rightarrow> bool \<times> bytes" where
  "read_loop [] inb = (True, inb)"
| "read_loop (RdEof # rs) inb = (False, inb)"
| "read_loop (RdAgain # rs) inb = (True, inb)"
| "read_loop (RdIntr # rs) inb = read_loop rs inb"
| "read_loop (RdError # rs) inb = (False, inb)"
| "read_loop (RdBytes bs # rs) inb =
     (if length bs < READ_BUFFER then (True, inb @ bs) else read_loop rs (inb @ bs))"

text \<open>\<open>be32\<close> at the front of a byte sequence of at least four bytes.\<close>

definition be32 :: "bytes \<Rightarrow> u32" where
  "be32 p = be_word32 (p ! 0) (p ! 1) (p ! 2) (p ! 3)"

text \<open>\<open>e k\<close> is what the outside answers during the k-th packet.\<close>

function packet_loop ::
  "(nat \<Rightarrow> srv_env) \<Rightarrow> nat \<Rightarrow> Counters \<Rightarrow> Connection \<Rightarrow> bytes
   \<Rightarrow> bool \<times> nat \<times> Counters \<times> Connection \<times> bytes" where
  "packet_loop e k n c d =
     (if length d < DESCRIPTOR_SIZE then (True, k, n, c, d)
      else
        let len = unat (be32 d); channel = be32 (drop 4 d); flags = be32 (drop 16 d)
        in if len > ABSOLUTE_MAX_BUFFER then (False, k, n, c, d)
           else if length d < DESCRIPTOR_SIZE + len then (True, k, n, c, d)
           else case HandlePacket (e k) n c channel flags (take len (drop DESCRIPTOR_SIZE d)) of
                  (ok, n', c') \<Rightarrow>
                    if \<not> ok then (False, k, n', c', d)
                    else packet_loop e (Suc k) n' c' (drop (DESCRIPTOR_SIZE + len) d))"
  by pat_completeness auto
termination
  by (relation "measure (\<lambda>(e, k, n, c, d). length d)") auto

declare packet_loop.simps [simp del]

definition ReadFrom ::
  "(nat \<Rightarrow> srv_env) \<Rightarrow> read_result list \<Rightarrow> Counters \<Rightarrow> Connection \<Rightarrow> handled" where
  "ReadFrom e rs n c =
     (case read_loop rs (c_in c) of
        (False, inb) \<Rightarrow> (False, n, c\<lparr>c_in := inb\<rparr>)
      | (True, inb) \<Rightarrow>
          (case packet_loop e 0 n (c\<lparr>c_in := inb\<rparr>) inb of
             (ok, k, n', c', rest) \<Rightarrow> if ok then (True, n', c'\<lparr>c_in := rest\<rparr>) else (False, n', c')))"

section \<open>Writing\<close>

text \<open>\<open>write\<close> takes at most what it is offered.\<close>

datatype write_result = WrBytes nat | WrAgain | WrIntr | WrError

text \<open>What was handed to the socket, and what is left; \<open>False\<close> if the connection is broken.\<close>

fun write_out :: "write_result list \<Rightarrow> bytes \<Rightarrow> bytes \<Rightarrow> bool \<times> bytes \<times> bytes" where
  "write_out ws sent [] = (True, sent, [])"
| "write_out [] sent left = (True, sent, left)"
| "write_out (WrIntr # ws) sent left = write_out ws sent left"
| "write_out (WrAgain # ws) sent left = (True, sent, left)"
| "write_out (WrError # ws) sent left = (False, sent, left)"
| "write_out (WrBytes n # ws) sent left = write_out ws (sent @ take n left) (drop n left)"

text \<open>On an error the code returns before erasing the sent part.\<close>

definition FlushOut :: "write_result list \<Rightarrow> Connection \<Rightarrow> bool \<times> bytes \<times> Connection" where
  "FlushOut ws c =
     (case write_out ws [] (c_out c) of
        (ok, sent, left) \<Rightarrow> if ok then (True, sent, c\<lparr>c_out := left\<rparr>) else (False, sent, c))"

section \<open>Framing\<close>

lemma be32_bytes [simp]: "be32 (be_bytes32 v @ rest) = v"
  by (simp add: be32_def be_bytes32_def codec)

lemma length_descriptor [simp]: "length (descriptor n ch fl) = DESCRIPTOR_SIZE"
  by (simp add: descriptor_def)

lemma descriptor_fields:
  "be32 (descriptor n ch fl @ rest) = of_nat n" "be32 (drop 4 (descriptor n ch fl @ rest)) = ch"
  "be32 (drop 16 (descriptor n ch fl @ rest)) = fl"
  by (simp_all add: descriptor_def)

text \<open>The two ways through one iteration.\<close>

definition loop_stops :: "bytes \<Rightarrow> bool" where
  "loop_stops d \<longleftrightarrow> length d < DESCRIPTOR_SIZE \<or> unat (be32 d) > ABSOLUTE_MAX_BUFFER \<or>
     length d < DESCRIPTOR_SIZE + unat (be32 d)"

abbreviation (input) next_packet :: "srv_env \<Rightarrow> Counters \<Rightarrow> Connection \<Rightarrow> bytes \<Rightarrow> handled" where
  "next_packet e n c d \<equiv> HandlePacket e n c (be32 (drop 4 d)) (be32 (drop 16 d))
     (take (unat (be32 d)) (drop DESCRIPTOR_SIZE d))"

lemma packet_loop_stops:
  "loop_stops d \<Longrightarrow> packet_loop e k n c d =
     (length d < DESCRIPTOR_SIZE \<or> unat (be32 d) \<le> ABSOLUTE_MAX_BUFFER, k, n, c, d)"
  by (subst packet_loop.simps) (auto simp: loop_stops_def Let_def)

lemma packet_loop_takes:
  "\<not> loop_stops d \<Longrightarrow> next_packet (e k) n c d = (ok, n', c') \<Longrightarrow> packet_loop e k n c d =
     (if ok then packet_loop e (Suc k) n' c' (drop (DESCRIPTOR_SIZE + unat (be32 d)) d)
      else (False, k, n', c', d))"
  by (subst packet_loop.simps) (simp add: loop_stops_def Let_def)

text \<open>Induction over the packets taken.\<close>

lemma packet_loop_induct [case_names stop take]:
  assumes stop: "\<And>k n c d. loop_stops d \<Longrightarrow> P k n c d"
    and take: "\<And>k n c d ok n' c'. \<not> loop_stops d \<Longrightarrow> next_packet (e k) n c d = (ok, n', c') \<Longrightarrow>
      (ok \<Longrightarrow> P (Suc k) n' c' (drop (DESCRIPTOR_SIZE + unat (be32 d)) d)) \<Longrightarrow> P k n c d"
  shows "P k n c d"
proof (induction "length d" arbitrary: k n c d rule: less_induct)
  case less
  show ?case
  proof (cases "loop_stops d")
    case False
    then have "length (drop (20 + unat (be32 d)) d) < length d" by (auto simp: loop_stops_def)
    with less take [OF False] show ?thesis by (cases "next_packet (e k) n c d") blast
  qed (rule stop)
qed

lemma packet_loop_frame:
  assumes "length p \<le> ABSOLUTE_MAX_BUFFER"
  shows "packet_loop e k n c (descriptor (length p) ch fl @ p @ rest) =
    (case HandlePacket (e k) n c ch fl p of
       (ok, n', c') \<Rightarrow> if \<not> ok then (False, k, n', c', descriptor (length p) ch fl @ p @ rest)
                      else packet_loop e (Suc k) n' c' rest)"
proof -
  define D where "D = descriptor (length p) ch fl @ p @ rest"
  have len: "unat (of_nat (length p) :: u32) = length p" using assms by (rule unat_of_nat_small)
  have f: "be32 D = of_nat (length p)" "be32 (drop 4 D) = ch" "be32 (drop 16 D) = fl"
    unfolding D_def by (rule descriptor_fields)+
  have l: "length D = 20 + length p + length rest" by (simp add: D_def)
  have "length (descriptor (length p) ch fl) = 20" by simp
  then have d: "take (length p) (drop 20 D) = p" "drop (20 + length p) D = rest" by (simp_all add: D_def)
  from assms l show ?thesis
    unfolding D_def [symmetric]
    by (subst packet_loop.simps) (simp only: f len d Let_def if_False, simp)
qed

text \<open>The reference: a list of packets, handled one after the other until one is refused.\<close>

type_synonym packet = "u32 \<times> u32 \<times> bytes"

definition frame :: "packet \<Rightarrow> bytes" where
  "frame pk = (case pk of (channel, flags, p) \<Rightarrow> c_out (Send channel p flags (new_Connection 0)))"

fun handle_all ::
  "(nat \<Rightarrow> srv_env) \<Rightarrow> nat \<Rightarrow> Counters \<Rightarrow> Connection \<Rightarrow> packet list
   \<Rightarrow> bool \<times> nat \<times> Counters \<times> Connection \<times> packet list" where
  "handle_all e k n c [] = (True, k, n, c, [])"
| "handle_all e k n c ((channel, flags, p) # ps) =
     (case HandlePacket (e k) n c channel flags p of
        (ok, n', c') \<Rightarrow> if \<not> ok then (False, k, n', c', (channel, flags, p) # ps)
                       else handle_all e (Suc k) n' c' ps)"

lemma frame_eq: "frame (channel, flags, p) = descriptor (length p) channel flags @ p"
  by (simp add: frame_def Send_def new_Connection_def)

lemma packet_loop_Nil: "packet_loop e k n c [] = (True, k, n, c, [])"
  by (simp add: packet_loop.simps)

text \<open>
  C23: What \<open>Send\<close> frames, the reader takes apart: a stream of framed packets is handled packet by
  packet, each with its own channel, flags and payload, stopping at the first refused one.
\<close>

theorem framing_roundtrip:
  assumes "\<forall>(channel, flags, p) \<in> set ps. length p \<le> ABSOLUTE_MAX_BUFFER"
  shows "packet_loop e k n c (concat (map frame ps)) =
    (case handle_all e k n c ps of (ok, k', n', c', rest) \<Rightarrow> (ok, k', n', c', concat (map frame rest)))"
  using assms
proof (induction ps arbitrary: k n c)
  case Nil
  then show ?case by (simp add: packet_loop_Nil)
next
  case (Cons pk ps)
  obtain channel flags p where pk: "pk = (channel, flags, p)" by (cases pk)
  obtain ok n' c' where h: "HandlePacket (e k) n c channel flags p = (ok, n', c')"
    by (cases "HandlePacket (e k) n c channel flags p")
  show ?case
    using Cons.prems Cons.IH [of "Suc k" n' c'] h
    by (cases ok) (simp_all add: pk frame_eq packet_loop_frame)
qed

theorem framing_roundtrip_witness:
  "packet_loop (\<lambda>_. sample_env) 0 sample_counters (new_Connection 5) (concat (map frame [(9, 0, [1, 2])])) =
     (True, 1, sample_counters, new_Connection 5, [])"
  using framing_roundtrip [of "[(9, 0, [1, 2])]" "\<lambda>_. sample_env" 0 sample_counters "new_Connection 5"]
  by (simp add: HandlePacket_def HandleStreamData_def FindStream_def new_Connection_def map_find_def
      ABSOLUTE_MAX_BUFFER_def)

text \<open>
  C11: How the byte stream is cut into reads makes no difference: handling what arrived in a first
  piece and then the leftover together with a second piece is the same as handling both at once.
\<close>

theorem framing_chunk_independent:
  assumes "packet_loop e k n c a = (True, k', n', c', r)"
  shows "packet_loop e k n c (a @ b) = packet_loop e k' n' c' (r @ b)"
  using assms
proof (induction k n c a rule: packet_loop_induct [of _ e])
  case (stop k n c d)
  then show ?case by (simp add: packet_loop_stops)
next
  case (take k n c d ok m c2)
  have be: "be32 (x @ b) = be32 x" if "4 \<le> length x" for x :: bytes
    using that by (auto simp: be32_def nth_append)
  have "20 \<le> length d" using take(1) by (simp add: loop_stops_def)
  then have f: "be32 (d @ b) = be32 d" "be32 (drop 4 d @ b) = be32 (drop 4 d)"
    "be32 (drop 16 d @ b) = be32 (drop 16 d)"
    using be [of d] be [of "drop 4 d"] be [of "drop 16 d"] by simp_all
  have ok: ok and rec: "packet_loop e (Suc k) m c2 (drop (20 + unat (be32 d)) d) = (True, k', n', c', r)"
    using take(4) packet_loop_takes [where e = e and k = k, OF take(1,2)] by (auto split: if_splits)
  have "\<not> loop_stops (d @ b)" "next_packet (e k) n c (d @ b) = (ok, m, c2)"
    using take(1,2) by (simp_all add: loop_stops_def f)
  then have "packet_loop e k n c (d @ b) = packet_loop e (Suc k) m c2 (drop (20 + unat (be32 d)) d @ b)"
    using ok take(1) by (simp add: packet_loop_takes f loop_stops_def)
  with take(3) [OF ok rec] show ?case by simp
qed

text \<open>A read that ends three bytes into the packet after the sample session's \<open>AUTH\<close>.\<close>

definition sample_frame :: bytes where
  "sample_frame = descriptor (length sample_auth) CHANNEL_COMMAND 0 @ sample_auth"

lemma sample_auth_handled:
  "HandlePacket sample_env sample_counters (new_Connection 5) CHANNEL_COMMAND 0 sample_auth =
     (True, sample_counters, sample_authed)"
  by (simp add: sample_authed_def sample_auth_def HandlePacket_auth Let_def)

lemma sample_frame_loop:
  "packet_loop (\<lambda>_. sample_env) 0 sample_counters (new_Connection 5) (sample_frame @ [0, 0, 0]) =
     (True, 1, sample_counters, sample_authed, [0, 0, 0])"
proof -
  have "length sample_auth \<le> ABSOLUTE_MAX_BUFFER"
    by (simp add: sample_auth_def command_packet_def auth_body_def PutU32_def raw_append ABSOLUTE_MAX_BUFFER_def)
  moreover have "packet_loop e k n c [0, 0, 0] = (True, k, n, c, [0, 0, 0])" for e k n c
    by (simp add: packet_loop.simps)
  ultimately show ?thesis
    by (simp add: sample_frame_def packet_loop_frame sample_auth_handled)
qed

theorem framing_chunk_independent_witness:
  "packet_loop (\<lambda>_. sample_env) 0 sample_counters (new_Connection 5) (sample_frame @ [0, 0, 0]) =
     (True, 1, sample_counters, sample_authed, [0, 0, 0]) \<and>
   packet_loop (\<lambda>_. sample_env) 0 sample_counters (new_Connection 5) ((sample_frame @ [0, 0, 0]) @ [20, 0]) =
     packet_loop (\<lambda>_. sample_env) 1 sample_counters sample_authed ([0, 0, 0] @ [20, 0])"
  using sample_frame_loop framing_chunk_independent [OF sample_frame_loop, of "[20, 0]"] by blast

lemma packet_loop_rest:
  "packet_loop e k n c d = (True, k', n', c', r) \<Longrightarrow> length r < DESCRIPTOR_SIZE + ABSOLUTE_MAX_BUFFER"
proof (induction k n c d rule: packet_loop_induct [of _ e])
  case (stop k n c d)
  then show ?case by (auto simp: packet_loop_stops loop_stops_def ABSOLUTE_MAX_BUFFER_def)
next
  case (take k n c d ok m c2)
  then show ?case using packet_loop_takes [where e = e and k = k, OF take(1,2)] by (auto split: if_splits)
qed

text \<open>
  The input buffer of a connection is bounded: after a successful \<open>ReadFrom\<close> it holds less
  than one maximal packet, whatever the client sends and however the socket delivers it.
\<close>

lemma ReadFrom_bounded:
  assumes "ReadFrom e rs n c = (True, n', c')"
  shows "length (c_in c') < DESCRIPTOR_SIZE + ABSOLUTE_MAX_BUFFER"
  using assms
  by (auto simp: ReadFrom_def split: prod.splits bool.splits if_splits dest: packet_loop_rest)

lemma write_out_conserves: "write_out ws sent left = (ok, sent', left') \<Longrightarrow> sent' @ left' = sent @ left"
  by (induction ws sent left rule: write_out.induct) auto

text \<open>
  C24: \<open>FlushOut\<close> neither loses, repeats nor reorders output: the bytes given to the socket
  followed by what stays queued are the bytes that were queued, across short writes,
  interruptions and a full socket.
\<close>

theorem FlushOut_conserves:
  assumes "FlushOut ws c = (True, sent, c')"
  shows "sent @ c_out c' = c_out c \<and> c' = c\<lparr>c_out := c_out c'\<rparr>"
  using assms by (auto simp: FlushOut_def split: prod.splits if_splits dest: write_out_conserves)

theorem FlushOut_conserves_witness:
  "FlushOut [WrIntr, WrBytes 2, WrAgain] ((new_Connection 5)\<lparr>c_out := [1, 2, 3]\<rparr>) =
     (True, [1, 2], (new_Connection 5)\<lparr>c_out := [3]\<rparr>) \<and> [1, 2] @ [3 :: u8] = [1, 2, 3]"
proof -
  have a: "FlushOut [WrIntr, WrBytes 2, WrAgain] ((new_Connection 5)\<lparr>c_out := [1, 2, 3]\<rparr>) =
     (True, [1, 2], (new_Connection 5)\<lparr>c_out := [3]\<rparr>)"
    by (simp add: FlushOut_def)
  show ?thesis using a FlushOut_conserves [OF a] by simp
qed

end
