(* ===== verification/Pa_Loop.thy ===== *)
theory Pa_Loop
  imports Pa_Framing
begin

text \<open>
  The event loop of the PulseAudio server: \<open>Start\<close>, \<open>Accept\<close>, \<open>UpdateEvents\<close>, \<open>Drop\<close>, \<open>Run\<close>
  and \<open>Shutdown\<close> of \<open>waydroid_audio_main.cpp\<close>.

  \<^item> \<open>Server\<close> is the class's state. \<open>sv_interest\<close> is the epoll set: for each registered
    descriptor, whether \<open>EPOLLOUT\<close> is asked for (\<open>EPOLLIN\<close> always is).
  \<^item> One turn of \<open>Run\<close> is \<open>run_turn\<close>. What epoll, the sockets, the clock and the renderers
    answer during the turn is in its arguments.
  \<^item> \<open>server_step\<close> interleaves turns with render threads; every connection of a reachable server
    is a reachable connection, so the theorems about connections hold of the daemon.
\<close>

section \<open>State\<close>

record Server =
  sv_socketPath :: string
  sv_listenFd :: int
  sv_epollFd :: int
  sv_eventFd :: int
  sv_conns :: "(int, Connection) smap"
  sv_counters :: Counters
  sv_interest :: "(int, bool) smap"

definition new_Server :: "string \<Rightarrow> Server" where
  "new_Server path = \<lparr>sv_socketPath = path, sv_listenFd = -1, sv_epollFd = -1, sv_eventFd = -1,
     sv_conns = [], sv_counters = \<lparr>nextStreamIndex = 0, nextClientIndex = 0\<rparr>, sv_interest = []\<rparr>"

section \<open>Start and shutdown\<close>

text \<open>\<open>socketPath_.substr(0, socketPath_.find_last_of('/'))\<close>; without a slash, the whole path.\<close>

definition socket_dir :: "string \<Rightarrow> string" where
  "socket_dir path =
     (if CHR ''/'' \<in> set path
      then rev (tl (dropWhile (\<lambda>ch. ch \<noteq> CHR ''/'') (rev path))) else path)"

text \<open>The directories to create, outermost first.\<close>

definition mkdir_parts :: "string \<Rightarrow> string list" where
  "mkdir_parts dir =
     map (\<lambda>i. take i dir) (filter (\<lambda>i. i = length dir \<or> dir ! i = CHR ''/'') [1..<Suc (length dir)])"

datatype mkdir_result = MkOk | MkExists | MkFailed

record start_env =
  se_mkdir :: "string \<Rightarrow> mkdir_result"
  se_socket :: int
  se_bind :: bool
  se_listen :: bool
  se_epoll :: int
  se_eventfd :: int

definition SUN_PATH_SIZE :: nat where "SUN_PATH_SIZE = 108"

definition Start :: "start_env \<Rightarrow> Server \<Rightarrow> bool \<times> Server" where
  "Start e sv =
     (if \<exists>d \<in> set (mkdir_parts (socket_dir (sv_socketPath sv))). se_mkdir e d = MkFailed then (False, sv)
      else
        let sv1 = sv\<lparr>sv_listenFd := se_socket e\<rparr>
        in if se_socket e < 0 then (False, sv1)
           else if length (sv_socketPath sv) \<ge> SUN_PATH_SIZE then (False, sv1)
           else if \<not> se_bind e then (False, sv1)
           else if \<not> se_listen e then (False, sv1)
           else
             let sv2 = sv1\<lparr>sv_epollFd := se_epoll e, sv_eventFd := se_eventfd e\<rparr>
             in if se_epoll e < 0 \<or> se_eventfd e < 0 then (False, sv2)
                else (True, sv2\<lparr>sv_interest :=
                       map_put (se_eventfd e) False (map_put (se_socket e) False (sv_interest sv2))\<rparr>))"

definition Shutdown :: "Server \<Rightarrow> Server" where
  "Shutdown sv = sv\<lparr>sv_conns := [],
     sv_listenFd := (if sv_listenFd sv \<ge> 0 then -1 else sv_listenFd sv),
     sv_epollFd := (if sv_epollFd sv \<ge> 0 then -1 else sv_epollFd sv),
     sv_eventFd := (if sv_eventFd sv \<ge> 0 then -1 else sv_eventFd sv), sv_interest := []\<rparr>"

section \<open>Connections\<close>

text \<open>\<open>accept4\<close> until it fails: the descriptors it returned.\<close>

fun Accept :: "int list \<Rightarrow> Server \<Rightarrow> Server" where
  "Accept [] sv = sv"
| "Accept (fd # fds) sv =
     Accept fds (sv\<lparr>sv_interest := map_put fd False (sv_interest sv),
                    sv_conns := map_put fd (new_Connection fd) (sv_conns sv)\<rparr>)"

text \<open>\<open>EPOLL_CTL_MOD\<close> fails on a descriptor that is not registered.\<close>

definition UpdateEvents :: "int \<Rightarrow> Connection \<Rightarrow> Server \<Rightarrow> Server" where
  "UpdateEvents fd c sv =
     (case map_find fd (sv_interest sv) of
        None \<Rightarrow> sv
      | Some _ \<Rightarrow> sv\<lparr>sv_interest := map_put fd (c_out c \<noteq> []) (sv_interest sv)\<rparr>)"

definition Drop :: "int \<Rightarrow> Server \<Rightarrow> Server" where
  "Drop fd sv =
     (case map_find fd (sv_conns sv) of
        None \<Rightarrow> sv
      | Some _ \<Rightarrow> sv\<lparr>sv_interest := map_erase fd (sv_interest sv), sv_conns := map_erase fd (sv_conns sv)\<rparr>)"

definition set_conn :: "int \<Rightarrow> Connection \<Rightarrow> Server \<Rightarrow> Server" where
  "set_conn fd c sv = sv\<lparr>sv_conns := map_put fd c (sv_conns sv)\<rparr>"

section \<open>One turn of the loop\<close>

record loop_event =
  le_fd :: int
  le_hup :: bool
  le_in :: bool
  le_out :: bool
  le_reads :: "read_result list"
  le_writes :: "write_result list"
  le_accepts :: "int list"
  le_env :: "nat \<Rightarrow> srv_env"

definition event_in :: "loop_event \<Rightarrow> int \<Rightarrow> Server \<Rightarrow> Connection \<Rightarrow> bool \<times> Server \<times> Connection" where
  "event_in ev fd sv c =
     (if le_in ev then
        (case ReadFrom (le_env ev) (le_reads ev) (sv_counters sv) c of
           (ok, n, c') \<Rightarrow> (ok, set_conn fd c' (sv\<lparr>sv_counters := n\<rparr>), c'))
      else (True, sv, c))"

definition event_out :: "loop_event \<Rightarrow> int \<Rightarrow> Server \<Rightarrow> Connection \<Rightarrow> bool \<times> Server" where
  "event_out ev fd sv c =
     (if le_out ev then (case FlushOut (le_writes ev) c of (ok, sent, c') \<Rightarrow> (ok, set_conn fd c' sv))
      else (True, sv))"

definition handle_event :: "loop_event \<Rightarrow> int list \<times> Server \<Rightarrow> int list \<times> Server" where
  "handle_event ev ds =
     (let dead = fst ds; sv = snd ds; fd = le_fd ev
      in if fd = sv_listenFd sv then (dead, Accept (le_accepts ev) sv)
         else if fd = sv_eventFd sv then (dead, sv)
         else (case map_find fd (sv_conns sv) of
                 None \<Rightarrow> (dead, sv)
               | Some c \<Rightarrow>
                   if le_hup ev then (dead @ [fd], sv)
                   else (case event_in ev fd sv c of
                           (False, sv1, c1) \<Rightarrow> (dead @ [fd], sv1)
                         | (True, sv1, c1) \<Rightarrow>
                             (case event_out ev fd sv1 c1 of
                                (False, sv2) \<Rightarrow> (dead @ [fd], sv2)
                              | (True, sv2) \<Rightarrow> (dead, sv2)))))"

text \<open>\<open>PumpSinks\<close> with its \<open>UpdateEvents\<close> per connection.\<close>

definition pump_server :: "Server \<Rightarrow> Server" where
  "pump_server sv =
     (let conns = PumpSinks (sv_conns sv)
      in fold (\<lambda>(fd, c). UpdateEvents fd c) conns (sv\<lparr>sv_conns := conns\<rparr>))"

definition flush_conn ::
  "(int \<Rightarrow> write_result list) \<Rightarrow> int \<times> Connection \<Rightarrow> int list \<times> Server \<Rightarrow> int list \<times> Server" where
  "flush_conn ws entry bs =
     (case entry of (fd, c) \<Rightarrow>
        (case FlushOut (ws fd) c of
           (ok, sent, c') \<Rightarrow>
             let sv = set_conn fd c' (snd bs)
             in if ok then (fst bs, UpdateEvents fd c' sv) else (fst bs @ [fd], sv)))"

definition run_turn :: "loop_event list \<Rightarrow> (int \<Rightarrow> write_result list) \<Rightarrow> Server \<Rightarrow> Server" where
  "run_turn evs ws sv =
     (let (dead, sv1) = fold handle_event evs ([], sv);
          sv2 = pump_server (fold Drop dead sv1);
          (broken, sv3) = fold (flush_conn ws) (sv_conns sv2) ([], sv2)
      in fold Drop broken sv3)"

text \<open>\<open>main\<close>: the socket path from the command line, or the usage error.\<close>

definition DEFAULT_SOCKET :: string where "DEFAULT_SOCKET = ''/data/waydroid/run/xdg/pulse/native''"

fun socket_arg :: "string \<Rightarrow> string list \<Rightarrow> string option" where
  "socket_arg path [] = Some path"
| "socket_arg path [a] = None"
| "socket_arg path (a # b # rest) = (if a = ''--socket'' then socket_arg b rest else None)"

section \<open>The connections of the daemon are reachable connections\<close>

definition conns_ok :: "Server \<Rightarrow> bool" where
  "conns_ok sv \<longleftrightarrow> map_inv (sv_conns sv) \<and> (\<forall>(fd, c) \<in> set (sv_conns sv). conn_reachable c)"

lemma conns_ok_find: "conns_ok sv \<Longrightarrow> map_find fd (sv_conns sv) = Some c \<Longrightarrow> conn_reachable c"
  by (auto simp: conns_ok_def dest!: map_find_in_set)

lemma conns_ok_put:
  "conns_ok sv \<Longrightarrow> conn_reachable c \<Longrightarrow> sv_conns sv' = map_put fd c (sv_conns sv) \<Longrightarrow> conns_ok sv'"
  by (auto simp: conns_ok_def map_inv_put set_map_put)

lemma conns_ok_erase: "conns_ok sv \<Longrightarrow> sv_conns sv' = map_erase fd (sv_conns sv) \<Longrightarrow> conns_ok sv'"
  by (auto simp: conns_ok_def map_inv_erase set_map_erase)

lemma packet_loop_reachable:
  "conn_reachable c \<Longrightarrow> packet_loop e k n c d = (ok, k', n', c', r) \<Longrightarrow> conn_reachable c'"
proof (induction k n c d rule: packet_loop_induct [of _ e])
  case (stop k n c d)
  then show ?case by (simp add: packet_loop_stops)
next
  case (take k n c d b m c2)
  then show ?case
    using packet_loop_takes [where e = e and k = k, OF take(1,2)] stepped [OF take(4) packet [OF take(2)]]
    by (auto split: if_splits)
qed

lemma ReadFrom_reachable:
  "conn_reachable c \<Longrightarrow> ReadFrom e rs n c = (ok, n', c') \<Longrightarrow> conn_reachable c'"
  by (auto simp: ReadFrom_def split: prod.splits bool.splits if_splits
      intro: stepped [OF _ socket_in] packet_loop_reachable)

lemma FlushOut_left: "FlushOut ws c = (ok, sent, c') \<Longrightarrow> c' = c\<lparr>c_out := drop (if ok then length sent else 0) (c_out c)\<rparr>"
  by (auto simp: FlushOut_def split: prod.splits if_splits dest!: write_out_conserves)
    (metis append_eq_conv_conj append_Nil)

lemma FlushOut_reachable: "conn_reachable c \<Longrightarrow> FlushOut ws c = (ok, sent, c') \<Longrightarrow> conn_reachable c'"
  using stepped [OF _ socket_out] by (auto dest!: FlushOut_left)

lemma conns_ok_Accept: "conns_ok sv \<Longrightarrow> conns_ok (Accept fds sv)"
proof (induction fds sv rule: Accept.induct)
  case (2 fd fds sv)
  then show ?case using conns_ok_put [OF 2(2) accepted, of _ fd fd] by simp
qed simp

lemma sv_conns_UpdateEvents [simp]: "sv_conns (UpdateEvents fd c sv) = sv_conns sv"
  by (simp add: UpdateEvents_def split: option.split)

lemma conns_ok_Drop: "conns_ok sv \<Longrightarrow> conns_ok (Drop fd sv)"
  by (auto simp: Drop_def split: option.split intro: conns_ok_erase)

lemma conns_ok_fold_Drop: "conns_ok sv \<Longrightarrow> conns_ok (fold Drop fds sv)"
  by (induction fds arbitrary: sv) (auto intro: conns_ok_Drop)

lemma conns_ok_set_conn: "conns_ok sv \<Longrightarrow> conn_reachable c \<Longrightarrow> conns_ok (set_conn fd c sv)"
  by (erule conns_ok_put) (auto simp: set_conn_def)

lemma conns_ok_frame [simp]:
  "conns_ok (UpdateEvents fd c sv) = conns_ok sv" "conns_ok (sv\<lparr>sv_counters := n\<rparr>) = conns_ok sv"
  by (simp_all add: conns_ok_def)

lemma conns_ok_event_in:
  "conns_ok sv \<Longrightarrow> conn_reachable c \<Longrightarrow> event_in ev fd sv c = (ok, sv', c') \<Longrightarrow>
   conns_ok sv' \<and> conn_reachable c'"
  by (auto simp: event_in_def split: if_splits prod.splits intro!: conns_ok_set_conn
      dest: ReadFrom_reachable)

lemma conns_ok_event_out:
  "conns_ok sv \<Longrightarrow> conn_reachable c \<Longrightarrow> event_out ev fd sv c = (ok, sv') \<Longrightarrow> conns_ok sv'"
  by (auto simp: event_out_def split: if_splits prod.splits intro!: conns_ok_set_conn
      dest: FlushOut_reachable)

lemma conns_ok_handle_event:
  assumes "conns_ok (snd ds)"
  shows "conns_ok (snd (handle_event ev ds))"
proof (cases "map_find (le_fd ev) (sv_conns (snd ds))")
  case None
  with assms show ?thesis by (simp add: handle_event_def Let_def conns_ok_Accept)
next
  case (Some c)
  note c = conns_ok_find [OF assms Some]
  obtain ok sv1 c1 where i: "event_in ev (le_fd ev) (snd ds) c = (ok, sv1, c1)"
    by (cases "event_in ev (le_fd ev) (snd ds) c")
  obtain ok2 sv2 where o: "event_out ev (le_fd ev) sv1 c1 = (ok2, sv2)"
    by (cases "event_out ev (le_fd ev) sv1 c1")
  from conns_ok_event_in [OF assms c i] have 1: "conns_ok sv1" "conn_reachable c1" by simp_all
  have "conns_ok sv2" by (rule conns_ok_event_out [OF 1 o])
  with 1 assms Some i o show ?thesis
    by (simp add: handle_event_def Let_def conns_ok_Accept split: bool.split)
qed

lemma conns_ok_fold_events: "conns_ok (snd ds) \<Longrightarrow> conns_ok (snd (fold handle_event evs ds))"
  by (induction evs arbitrary: ds) (simp_all add: conns_ok_handle_event)

lemma sv_conns_fold_UpdateEvents: "sv_conns (fold (\<lambda>(fd, c). UpdateEvents fd c) L sv) = sv_conns sv"
  by (induction L arbitrary: sv) (auto simp: case_prod_unfold)

lemma sv_conns_pump: "sv_conns (pump_server sv) = PumpSinks (sv_conns sv)"
  by (simp add: pump_server_def Let_def sv_conns_fold_UpdateEvents)

lemma conns_ok_pump: "conns_ok sv \<Longrightarrow> conns_ok (pump_server sv)"
  unfolding conns_ok_def sv_conns_pump PumpSinks_def
  by (auto simp: map_inv_map_snd dest!: bspec intro: stepped [OF _ pump])

lemma conns_ok_flush_conn:
  "conns_ok (snd bs) \<Longrightarrow> conn_reachable (snd entry) \<Longrightarrow> conns_ok (snd (flush_conn ws entry bs))"
  by (cases "FlushOut (ws (fst entry)) (snd entry)")
    (auto simp: flush_conn_def case_prod_unfold Let_def intro!: conns_ok_set_conn
      dest: FlushOut_reachable)

lemma conns_ok_fold_flush:
  "conns_ok (snd bs) \<Longrightarrow> \<forall>entry \<in> set L. conn_reachable (snd entry) \<Longrightarrow>
   conns_ok (snd (fold (flush_conn ws) L bs))"
  by (induction L arbitrary: bs) (simp_all add: conns_ok_flush_conn)

lemma conns_ok_run_turn:
  assumes "conns_ok sv"
  shows "conns_ok (run_turn evs ws sv)"
proof -
  let ?sv2 = "pump_server (fold Drop (fst (fold handle_event evs ([], sv))) (snd (fold handle_event evs ([], sv))))"
  have 2: "conns_ok ?sv2"
    using assms conns_ok_fold_events [of "([], sv)" evs]
    by (intro conns_ok_pump conns_ok_fold_Drop) simp
  then have "\<forall>entry \<in> set (sv_conns ?sv2). conn_reachable (snd entry)" by (auto simp: conns_ok_def)
  with 2 have "conns_ok (snd (fold (flush_conn ws) (sv_conns ?sv2) ([], ?sv2)))"
    by (intro conns_ok_fold_flush) simp_all
  then show ?thesis
    unfolding run_turn_def Let_def case_prod_unfold by (rule conns_ok_fold_Drop)
qed

inductive server_step :: "Server \<Rightarrow> Server \<Rightarrow> bool" where
  loop_turn: "server_step sv (run_turn evs ws sv)"
| sink_turn: "map_find fd (sv_conns sv) = Some c \<Longrightarrow> FindStream c ch = Some s \<Longrightarrow>
    server_step sv (set_conn fd (set_stream ch (s\<lparr>st_sink := render_step e (st_sink s)\<rparr>) c) sv)"

inductive server_reachable :: "Server \<Rightarrow> bool" where
  started: "Start e (new_Server path) = (True, sv) \<Longrightarrow> server_reachable sv"
| advanced: "server_reachable sv \<Longrightarrow> server_step sv sv' \<Longrightarrow> server_reachable sv'"

lemma Start_fields:
  "Start e (new_Server path) = (True, sv) \<Longrightarrow> sv_conns sv = [] \<and> map_inv (sv_interest sv)"
  by (auto simp: Start_def new_Server_def Let_def map_inv_put map_inv_def split: if_splits)

lemma conns_ok_reachable: "server_reachable sv \<Longrightarrow> conns_ok sv"
proof (induction rule: server_reachable.induct)
  case (started e path sv)
  then show ?case using Start_fields by (auto simp: conns_ok_def map_inv_def)
next
  case (advanced sv sv')
  from advanced(2,3) show ?case
  proof cases
    case (sink_turn fd c ch s e)
    then show ?thesis
      using conns_ok_find [OF advanced(3) sink_turn(2)] advanced(3)
      by (auto intro!: conns_ok_set_conn intro: stepped [OF _ render_turn])
  qed (simp add: conns_ok_run_turn)
qed


definition sample_start :: start_env where
  "sample_start = \<lparr>se_mkdir = (\<lambda>d. MkExists), se_socket = 3, se_bind = True, se_listen = True,
     se_epoll = 4, se_eventfd = 5\<rparr>"

definition sample_server :: Server where
  "sample_server = snd (Start sample_start (new_Server DEFAULT_SOCKET))"

definition sample_accept :: loop_event where
  "sample_accept = \<lparr>le_fd = 3, le_hup = False, le_in = True, le_out = False, le_reads = [],
     le_writes = [], le_accepts = [7], le_env = (\<lambda>_. sample_env)\<rparr>"

lemma sample_started: "Start sample_start (new_Server DEFAULT_SOCKET) = (True, sample_server)"
  by (simp add: sample_server_def Start_def sample_start_def new_Server_def DEFAULT_SOCKET_def
      SUN_PATH_SIZE_def Let_def)

lemma sample_server_eq:
  "sample_server = (new_Server DEFAULT_SOCKET)\<lparr>sv_listenFd := 3, sv_epollFd := 4, sv_eventFd := 5,
     sv_interest := [(3, False), (5, False)]\<rparr>"
  by (simp add: sample_server_def Start_def sample_start_def new_Server_def DEFAULT_SOCKET_def
      SUN_PATH_SIZE_def Let_def)

lemma sample_turn_conns:
  "sv_conns (run_turn [sample_accept] (\<lambda>_. []) sample_server) = [(7, new_Connection 7)]"
  by (simp add: run_turn_def handle_event_def sample_accept_def sample_server_eq new_Server_def Let_def
      pump_server_def PumpSinks_def pump_connection_def UpdateEvents_def map_find_def flush_conn_def
      FlushOut_def set_conn_def new_Connection_def)


section \<open>The epoll set\<close>

text \<open>Every connection is registered.\<close>

definition registered :: "Server \<Rightarrow> bool" where
  "registered sv \<longleftrightarrow> map_inv (sv_conns sv) \<and> map_inv (sv_interest sv) \<and>
     (\<forall>fd. map_find fd (sv_conns sv) \<noteq> None \<longrightarrow> map_find fd (sv_interest sv) \<noteq> None)"

text \<open>The registration says what the connection needs.\<close>

definition exact :: "Server \<Rightarrow> int \<Rightarrow> bool" where
  "exact sv fd \<longleftrightarrow> (\<forall>c. map_find fd (sv_conns sv) = Some c \<longrightarrow>
     map_find fd (sv_interest sv) = Some (c_out c \<noteq> []))"

lemma registered_Accept: "registered sv \<Longrightarrow> registered (Accept fds sv)"
proof (induction fds sv rule: Accept.induct)
  case (2 fd fds sv)
  have "registered (sv\<lparr>sv_interest := map_put fd False (sv_interest sv),
      sv_conns := map_put fd (new_Connection fd) (sv_conns sv)\<rparr>)"
    using 2(2) by (auto simp: registered_def map_inv_put map_find_put)
  with 2(1) show ?case by simp
qed simp

lemma registered_set_conn:
  "registered sv \<Longrightarrow> map_find fd (sv_conns sv) \<noteq> None \<Longrightarrow> registered (set_conn fd c sv)"
  by (simp add: registered_def set_conn_def map_inv_put map_find_put)

lemma registered_counters [simp]: "registered (sv\<lparr>sv_counters := n\<rparr>) = registered sv"
  by (simp add: registered_def)

lemma registered_UpdateEvents: "registered sv \<Longrightarrow> registered (UpdateEvents fd c sv)"
  by (simp add: registered_def UpdateEvents_def map_inv_put map_find_put split: option.split)

lemma registered_Drop: "registered sv \<Longrightarrow> registered (Drop fd sv)"
  by (simp add: registered_def Drop_def map_inv_erase map_find_erase split: option.split)

lemma Drop_find:
  "map_find x (sv_conns (fold Drop fds sv)) = (if x \<in> set fds then None else map_find x (sv_conns sv))"
  "x \<notin> set fds \<Longrightarrow> map_find x (sv_interest (fold Drop fds sv)) = map_find x (sv_interest sv)"
  by (induction fds arbitrary: sv) (auto simp: Drop_def map_find_erase split: option.split)

lemma registered_fold_Drop: "registered sv \<Longrightarrow> registered (fold Drop fds sv)"
  by (induction fds arbitrary: sv) (simp_all add: registered_Drop)

lemma registered_event_in:
  "registered sv \<Longrightarrow> map_find fd (sv_conns sv) \<noteq> None \<Longrightarrow> event_in ev fd sv c = (ok, sv', c') \<Longrightarrow>
   registered sv' \<and> map_find fd (sv_conns sv') \<noteq> None"
  by (auto simp: event_in_def registered_set_conn split: if_splits prod.splits)
    (simp_all add: registered_def set_conn_def map_find_put)

lemma registered_event_out:
  "registered sv \<Longrightarrow> map_find fd (sv_conns sv) \<noteq> None \<Longrightarrow> event_out ev fd sv c = (ok, sv') \<Longrightarrow> registered sv'"
  by (auto simp: event_out_def registered_set_conn split: if_splits prod.splits)

lemma registered_handle_event:
  assumes "registered (snd ds)"
  shows "registered (snd (handle_event ev ds))"
proof (cases "map_find (le_fd ev) (sv_conns (snd ds))")
  case None
  with assms show ?thesis by (simp add: handle_event_def Let_def registered_Accept)
next
  case (Some c)
  obtain ok sv1 c1 where i: "event_in ev (le_fd ev) (snd ds) c = (ok, sv1, c1)"
    by (cases "event_in ev (le_fd ev) (snd ds) c")
  obtain ok2 sv2 where o: "event_out ev (le_fd ev) sv1 c1 = (ok2, sv2)"
    by (cases "event_out ev (le_fd ev) sv1 c1")
  have 1: "registered sv1" "map_find (le_fd ev) (sv_conns sv1) \<noteq> None"
    using registered_event_in [OF assms _ i] Some by auto
  have "registered sv2" by (rule registered_event_out [OF 1 o])
  with 1 assms Some i o show ?thesis
    by (simp add: handle_event_def Let_def registered_Accept split: bool.split)
qed

lemma registered_fold_events: "registered (snd ds) \<Longrightarrow> registered (snd (fold handle_event evs ds))"
  by (induction evs arbitrary: ds) (simp_all add: registered_handle_event)

lemma registered_pump: "registered sv \<Longrightarrow> registered (pump_server sv)"
proof -
  assume r: "registered sv"
  have "registered (sv\<lparr>sv_conns := PumpSinks (sv_conns sv)\<rparr>)"
    using r by (simp add: registered_def PumpSinks_def map_inv_map_snd map_find_def map_of_map)
  moreover have "registered sv' \<Longrightarrow> registered (fold (\<lambda>(fd, c). UpdateEvents fd c) L sv')" for L sv'
    by (induction L arbitrary: sv') (auto simp: registered_UpdateEvents)
  ultimately show ?thesis by (simp add: pump_server_def Let_def)
qed

lemma flush_conn_step:
  fixes ws fd c bs
  defines "r \<equiv> flush_conn ws (fd, c) bs"
  assumes "registered (snd bs)" "map_find fd (sv_conns (snd bs)) \<noteq> None"
  shows "registered (snd r)" "fd \<in> set (fst r) \<or> exact (snd r) fd" "set (fst bs) \<subseteq> set (fst r)"
    "set (fst r) \<subseteq> insert fd (set (fst bs))"
    "x \<noteq> fd \<Longrightarrow> map_find x (sv_conns (snd r)) = map_find x (sv_conns (snd bs)) \<and>
       map_find x (sv_interest (snd r)) = map_find x (sv_interest (snd bs))"
    "map_find x (sv_conns (snd r)) = None \<longleftrightarrow> map_find x (sv_conns (snd bs)) = None"
proof -
  obtain ok sent c' where f: "FlushOut (ws fd) c = (ok, sent, c')" by (cases "FlushOut (ws fd) c")
  have reg: "registered (set_conn fd c' (snd bs))" by (rule registered_set_conn [OF assms(2,3)])
  have m: "map_inv (sv_conns (snd bs))" "map_inv (sv_interest (snd bs))"
    "map_find fd (sv_interest (snd bs)) \<noteq> None"
    using assms(2,3) by (auto simp: registered_def)
  show "registered (snd r)"
    using reg by (simp add: r_def flush_conn_def f Let_def registered_UpdateEvents)
  show "set (fst bs) \<subseteq> set (fst r)" "set (fst r) \<subseteq> insert fd (set (fst bs))"
    by (auto simp: r_def flush_conn_def f Let_def)
  show "fd \<in> set (fst r) \<or> exact (snd r) fd"
    using m by (auto simp: r_def flush_conn_def f Let_def exact_def set_conn_def UpdateEvents_def map_find_put)
  show "x \<noteq> fd \<Longrightarrow> map_find x (sv_conns (snd r)) = map_find x (sv_conns (snd bs)) \<and>
       map_find x (sv_interest (snd r)) = map_find x (sv_interest (snd bs))"
    using m by (auto simp: r_def flush_conn_def f Let_def set_conn_def UpdateEvents_def map_find_put
        split: option.split)
  show "map_find x (sv_conns (snd r)) = None \<longleftrightarrow> map_find x (sv_conns (snd bs)) = None"
    using m assms(3) by (auto simp: r_def flush_conn_def f Let_def set_conn_def map_find_put)
qed

lemma flush_fold:
  assumes "registered (snd bs)" "\<forall>e \<in> set L. map_find (fst e) (sv_conns (snd bs)) \<noteq> None"
    "distinct (map fst L)"
  shows "registered (snd (fold (flush_conn ws) L bs)) \<and>
    set (fst bs) \<subseteq> set (fst (fold (flush_conn ws) L bs)) \<and>
    (\<forall>fd. (fd \<in> fst ` set L \<or> exact (snd bs) fd) \<longrightarrow>
       fd \<in> set (fst (fold (flush_conn ws) L bs)) \<or> exact (snd (fold (flush_conn ws) L bs)) fd) \<and>
    (\<forall>fd. map_find fd (sv_conns (snd (fold (flush_conn ws) L bs))) = None \<longleftrightarrow>
       map_find fd (sv_conns (snd bs)) = None)"
  using assms
proof (induction L arbitrary: bs)
  case Nil
  then show ?case by auto
next
  case (Cons e L)
  obtain fd c where e: "e = (fd, c)" by (cases e)
  let ?r = "flush_conn ws (fd, c) bs"
  have "map_find fd (sv_conns (snd bs)) \<noteq> None" using Cons.prems by (simp add: e)
  note s = flush_conn_step [OF Cons.prems(1) this, where ws = ws and c = c]
  have L: "\<forall>e \<in> set L. map_find (fst e) (sv_conns (snd ?r)) \<noteq> None" "distinct (map fst L)"
    using Cons.prems s(6) by (auto simp: e)
  note IH = Cons.IH [OF s(1) L]
  have ex: "exact (snd ?r) x" if "exact (snd bs) x" "x \<noteq> fd" for x
    using s(5) [OF that(2)] that(1) by (simp add: exact_def)
  have "x \<in> set (fst (fold (flush_conn ws) (e # L) bs)) \<or> exact (snd (fold (flush_conn ws) (e # L) bs)) x"
    if "x \<in> fst ` set (e # L) \<or> exact (snd bs) x" for x
  proof (cases "x = fd")
    case True
    then show ?thesis using s(2) IH by (auto simp: e)
  next
    case False
    then show ?thesis using that ex IH by (auto simp: e)
  qed
  with IH s(3,6) show ?case by (auto simp: e)
qed

lemma registered_reachable: "server_reachable sv \<Longrightarrow> registered sv"
proof (induction rule: server_reachable.induct)
  case (started e path sv)
  then show ?case using Start_fields by (auto simp: registered_def map_inv_def map_find_def)
next
  case (advanced sv sv')
  from advanced(2,3) show ?case
  proof cases
    case (loop_turn evs ws)
    let ?sv2 = "pump_server (fold Drop (fst (fold handle_event evs ([], sv))) (snd (fold handle_event evs ([], sv))))"
    have 2: "registered ?sv2"
      using advanced(3) registered_fold_events [of "([], sv)" evs]
      by (intro registered_pump registered_fold_Drop) simp
    then have m: "map_inv (sv_conns ?sv2)" by (simp add: registered_def)
    then have "\<forall>e \<in> set (sv_conns ?sv2). map_find (fst e) (sv_conns ?sv2) \<noteq> None"
      by (metis map_find_iff option.distinct(1) prod.collapse)
    from flush_fold [of "([], ?sv2)" "sv_conns ?sv2" ws] 2 this map_inv_distinct [OF m]
    show ?thesis
      unfolding loop_turn run_turn_def Let_def case_prod_unfold by (intro registered_fold_Drop) simp
  next
    case (sink_turn fd c ch s e)
    then show ?thesis using advanced(3) by (auto intro: registered_set_conn)
  qed
qed

text \<open>
  No output is ever stranded: after every turn of the loop each connection is registered for
  writability exactly when it has bytes queued, so queued replies wake the loop as soon as the
  socket takes more and an idle client never spins it.
\<close>

lemma turn_leaves_interest_exact:
  assumes "server_reachable sv" "map_find fd (sv_conns (run_turn evs ws sv)) = Some c"
  shows "map_find fd (sv_interest (run_turn evs ws sv)) = Some (c_out c \<noteq> [])"
proof -
  let ?sv2 = "pump_server (fold Drop (fst (fold handle_event evs ([], sv))) (snd (fold handle_event evs ([], sv))))"
  let ?f = "fold (flush_conn ws) (sv_conns ?sv2) ([], ?sv2)"
  have turn: "run_turn evs ws sv = fold Drop (fst ?f) (snd ?f)"
    by (simp add: run_turn_def Let_def case_prod_unfold)
  have 2: "registered ?sv2"
    using registered_reachable [OF assms(1)] registered_fold_events [of "([], sv)" evs]
    by (intro registered_pump registered_fold_Drop) simp
  then have m: "map_inv (sv_conns ?sv2)" by (simp add: registered_def)
  then have k: "\<forall>e \<in> set (sv_conns ?sv2). map_find (fst e) (sv_conns ?sv2) \<noteq> None"
    by (metis map_find_iff option.distinct(1) prod.collapse)
  note ff = flush_fold [of "([], ?sv2)" "sv_conns ?sv2" ws, simplified, OF 2 k [simplified] map_inv_distinct [OF m]]
  from assms(2) have live: "fd \<notin> set (fst ?f)" "map_find fd (sv_conns (snd ?f)) = Some c"
    by (simp_all add: turn Drop_find split: if_splits)
  with ff have "map_find fd (sv_conns ?sv2) \<noteq> None" by (metis option.distinct(1))
  then have "fd \<in> fst ` set (sv_conns ?sv2)" by (auto dest: map_find_in_set intro: rev_image_eqI)
  with ff live(1) have "exact (snd ?f) fd" by blast
  with live show ?thesis by (simp add: turn Drop_find exact_def)
qed

end
