(* ===== verification/Wd_Parcel.thy ===== *)
theory Wd_Parcel
  imports Prelude
begin

text \<open>
  Parcels of the binder client: \<open>waydroid/binder/wdbinder.c\<close> up to \<open>wdb_get_str16\<close>.

  \<^item> \<open>wdb_parcel\<close> is the struct: \<open>pl_data\<close> is the used part of the buffer, so \<open>p->len\<close> is its
    length. Numbers are little-endian, as \<open>memcpy\<close> leaves them on the targets.
  \<^item> A C string is a byte list with its terminating NUL. Where the code reads or writes through
    a pointer, the model checks the bounds and returns \<open>None\<close> for an access outside: the
    theorems show that it never happens.
  \<^item> \<open>alloc n\<close> says whether \<open>realloc\<close> or \<open>malloc\<close> of \<open>n\<close> bytes succeeds.
\<close>

section \<open>State and errors\<close>

abbreviation (input) WDB_OK :: int where "WDB_OK \<equiv> 0"
abbreviation (input) WDB_EOPEN :: int where "WDB_EOPEN \<equiv> -1"
abbreviation (input) WDB_ENOSERVICE :: int where "WDB_ENOSERVICE \<equiv> -2"
abbreviation (input) WDB_ETIMEDOUT :: int where "WDB_ETIMEDOUT \<equiv> -3"
abbreviation (input) WDB_EDEAD :: int where "WDB_EDEAD \<equiv> -4"
abbreviation (input) WDB_EPROTO :: int where "WDB_EPROTO \<equiv> -5"
abbreviation (input) WDB_EREMOTE :: int where "WDB_EREMOTE \<equiv> -6"
abbreviation (input) WDB_ENOMEM :: int where "WDB_ENOMEM \<equiv> -7"
abbreviation (input) WDB_EINVAL :: int where "WDB_EINVAL \<equiv> -8"

definition WDB_MAX_REPLY :: nat where "WDB_MAX_REPLY = 4 * 1024 * 1024"

record wdb_parcel =
  pl_data :: bytes
  pl_cap :: nat
  pl_pos :: nat
  pl_error :: int

definition wdb_parcel_init :: wdb_parcel where
  "wdb_parcel_init = \<lparr>pl_data = [], pl_cap = 0, pl_pos = 0, pl_error = 0\<rparr>"

text \<open>\<open>free\<close> and \<open>memset\<close> leave an initialised parcel.\<close>

definition wdb_parcel_free :: "wdb_parcel \<Rightarrow> wdb_parcel" where
  "wdb_parcel_free p = wdb_parcel_init"

section \<open>Growing\<close>

function grow_cap :: "nat \<Rightarrow> nat \<Rightarrow> nat" where
  "grow_cap need cap = (if cap = 0 \<or> cap \<ge> need then cap else grow_cap need (cap * 2))"
  by pat_completeness auto
termination
  by (relation "measure (\<lambda>(need, cap). need - cap)") auto

declare grow_cap.simps [simp del]

definition new_cap :: "nat \<Rightarrow> wdb_parcel \<Rightarrow> nat" where
  "new_cap need p =
     (if need > pl_cap p then grow_cap need (if pl_cap p = 0 then 256 else pl_cap p) else pl_cap p)"

text \<open>\<open>None\<close> is the null pointer; otherwise the offset of the zeroed bytes.\<close>

definition parcel_grow :: "(nat \<Rightarrow> bool) \<Rightarrow> nat \<Rightarrow> wdb_parcel \<Rightarrow> nat option \<times> wdb_parcel" where
  "parcel_grow alloc n p =
     (let need = length (pl_data p) + n
      in if pl_error p \<noteq> 0 then (None, p)
         else if n > WDB_MAX_REPLY \<or> need > WDB_MAX_REPLY then (None, p\<lparr>pl_error := WDB_EINVAL\<rparr>)
         else if need > pl_cap p \<and> \<not> alloc (new_cap need p) then (None, p\<lparr>pl_error := WDB_ENOMEM\<rparr>)
         else (Some (length (pl_data p)),
               p\<lparr>pl_cap := new_cap need p, pl_data := pl_data p @ replicate n 0\<rparr>))"

text \<open>\<open>memcpy\<close> into the used part of the buffer.\<close>

definition poke :: "nat \<Rightarrow> bytes \<Rightarrow> wdb_parcel \<Rightarrow> wdb_parcel option" where
  "poke at w p =
     (if at + length w \<le> length (pl_data p)
      then Some (p\<lparr>pl_data := take at (pl_data p) @ w @ drop (at + length w) (pl_data p)\<rparr>) else None)"

definition wdb_put_i32 :: "(nat \<Rightarrow> bool) \<Rightarrow> u32 \<Rightarrow> wdb_parcel \<Rightarrow> wdb_parcel option" where
  "wdb_put_i32 alloc v p =
     (case parcel_grow alloc 4 p of
        (None, p') \<Rightarrow> Some p'
      | (Some at, p') \<Rightarrow> poke at (le_bytes32 v) p')"

section \<open>UTF-8 and UTF-16\<close>

text \<open>The continuation bytes of \<open>utf8_next\<close>; the string is what is left from \<open>c + i\<close> on.\<close>

fun utf8_cont :: "nat \<Rightarrow> u32 \<Rightarrow> bytes \<Rightarrow> (u32 \<times> bytes) option" where
  "utf8_cont 0 cp s = Some (cp, s)"
| "utf8_cont (Suc k) cp [] = None"
| "utf8_cont (Suc k) cp (b # s) =
     (if b AND 0xC0 \<noteq> 0x80 then Some (0xFFFD, b # s)
      else utf8_cont k (push_bit 6 cp OR (ucast b AND 0x3F)) s)"

fun utf8_next :: "bytes \<Rightarrow> (u32 \<times> bytes) option" where
  "utf8_next [] = None"
| "utf8_next (b # s) =
     (if b < 0x80 then Some (ucast b, s)
      else if b AND 0xE0 = 0xC0 then utf8_cont 1 (ucast b AND 0x1F) s
      else if b AND 0xF0 = 0xE0 then utf8_cont 2 (ucast b AND 0x0F) s
      else if b AND 0xF8 = 0xF0 then utf8_cont 3 (ucast b AND 0x07) s
      else Some (0xFFFD, s))"

lemma utf8_cont_shorter: "utf8_cont k cp s = Some (cp', s') \<Longrightarrow> length s' \<le> length s"
  by (induction k cp s rule: utf8_cont.induct) (fastforce split: if_splits)+

lemma utf8_next_shorter: "utf8_next s = Some (cp, s') \<Longrightarrow> length s' < length s"
  by (cases s) (auto split: if_splits dest: utf8_cont_shorter)

text \<open>The first pass of \<open>wdb_put_str16\<close>: \<open>None\<close> is a read past the end of the string.\<close>

function count_units :: "bytes \<Rightarrow> nat \<Rightarrow> nat option" where
  "count_units s units =
     (case s of
        [] \<Rightarrow> None
      | b # _ \<Rightarrow>
          if b = 0 then Some units
          else (case utf8_next s of
                  None \<Rightarrow> None
                | Some (cp, s') \<Rightarrow> count_units s' (units + (if cp \<ge> 0x10000 then 2 else 1))))"
  by pat_completeness auto
termination
  by (relation "measure (\<lambda>(s, units). length s)")
    (simp, simp only: in_measure prod.case, metis utf8_next_shorter)

declare count_units.simps [simp del]

definition units_of :: "u32 \<Rightarrow> u16 list" where
  "units_of cp =
     (if cp \<ge> 0x10000 then
        [ucast (0xD800 OR drop_bit 10 (cp - 0x10000)), ucast (0xDC00 OR ((cp - 0x10000) AND 0x3FF))]
      else [ucast cp])"

definition units_bytes :: "u16 list \<Rightarrow> bytes" where
  "units_bytes us = concat (map le_bytes16 us)"

text \<open>The second pass, writing through \<open>at\<close>.\<close>

function write_units :: "bytes \<Rightarrow> nat \<Rightarrow> wdb_parcel \<Rightarrow> wdb_parcel option" where
  "write_units s at p =
     (case s of
        [] \<Rightarrow> None
      | b # _ \<Rightarrow>
          if b = 0 then Some p
          else (case utf8_next s of
                  None \<Rightarrow> None
                | Some (cp, s') \<Rightarrow>
                    (case poke at (units_bytes (units_of cp)) p of
                       None \<Rightarrow> None
                     | Some p' \<Rightarrow> write_units s' (at + 2 * length (units_of cp)) p')))"
  by pat_completeness auto
termination
  by (relation "measure (\<lambda>(s, at, p). length s)")
    (simp, simp only: in_measure prod.case, metis utf8_next_shorter)

declare write_units.simps [simp del]

text \<open>\<open>((units + 1) * 2 + 3) & ~3\<close>.\<close>

definition str16_size :: "nat \<Rightarrow> nat" where
  "str16_size units = ((units + 1) * 2 + 3) div 4 * 4"

definition wdb_put_str16 :: "(nat \<Rightarrow> bool) \<Rightarrow> bytes option \<Rightarrow> wdb_parcel \<Rightarrow> wdb_parcel option" where
  "wdb_put_str16 alloc utf8 p =
     (case utf8 of
        None \<Rightarrow> wdb_put_i32 alloc (-1) p
      | Some s \<Rightarrow>
          (case count_units s 0 of
             None \<Rightarrow> None
           | Some units \<Rightarrow>
               if units > WDB_MAX_REPLY div 4 then Some (p\<lparr>pl_error := WDB_EINVAL\<rparr>)
               else (case wdb_put_i32 alloc (of_nat units) p of
                       None \<Rightarrow> None
                     | Some p1 \<Rightarrow>
                         (case parcel_grow alloc (str16_size units) p1 of
                            (None, p2) \<Rightarrow> Some p2
                          | (Some at, p2) \<Rightarrow> write_units s at p2))))"

definition c_string :: "string \<Rightarrow> bytes" where
  "c_string s = map (\<lambda>c. of_nat (of_char c)) s @ [0]"

definition wdb_put_token :: "(nat \<Rightarrow> bool) \<Rightarrow> bytes \<Rightarrow> wdb_parcel \<Rightarrow> wdb_parcel option" where
  "wdb_put_token alloc interface p =
     Option.bind (wdb_put_i32 alloc 0x80000000 p) (\<lambda>p.
     Option.bind (wdb_put_i32 alloc (-1) p) (\<lambda>p.
     Option.bind (wdb_put_i32 alloc 0x53595354 p) (\<lambda>p.
     wdb_put_str16 alloc (Some interface) p)))"

section \<open>Reading\<close>

definition wdb_get_i32 :: "wdb_parcel \<Rightarrow> u32 \<times> wdb_parcel" where
  "wdb_get_i32 p =
     (if pl_error p \<noteq> 0 then (0, p)
      else if pl_pos p + 4 > length (pl_data p) then (0, p\<lparr>pl_error := WDB_EPROTO\<rparr>)
      else let d = drop (pl_pos p) (pl_data p)
           in (le_word32 (d ! 0) (d ! 1) (d ! 2) (d ! 3), p\<lparr>pl_pos := pl_pos p + 4\<rparr>))"

definition utf8_encode :: "u32 \<Rightarrow> bytes" where
  "utf8_encode cp =
     (if cp < 0x80 then [ucast cp]
      else if cp < 0x800 then [ucast (0xC0 OR drop_bit 6 cp), ucast (0x80 OR (cp AND 0x3F))]
      else if cp < 0x10000 then
        [ucast (0xE0 OR drop_bit 12 cp), ucast (0x80 OR (drop_bit 6 cp AND 0x3F)),
         ucast (0x80 OR (cp AND 0x3F))]
      else
        [ucast (0xF0 OR drop_bit 18 cp), ucast (0x80 OR (drop_bit 12 cp AND 0x3F)),
         ucast (0x80 OR (drop_bit 6 cp AND 0x3F)), ucast (0x80 OR (cp AND 0x3F))])"

definition high_surrogate :: "u16 \<Rightarrow> bool" where
  "high_surrogate u \<longleftrightarrow> u \<ge> 0xD800 \<and> u \<le> 0xDBFF"

definition low_surrogate :: "u16 \<Rightarrow> bool" where
  "low_surrogate u \<longleftrightarrow> u \<ge> 0xDC00 \<and> u \<le> 0xDFFF"

definition join_surrogates :: "u16 \<Rightarrow> u16 \<Rightarrow> u32" where
  "join_surrogates u lo = 0x10000 + push_bit 10 (ucast u - 0xD800) + (ucast lo - 0xDC00)"

text \<open>The code points the decoding loop sees, in order.\<close>

fun utf16_points :: "u16 list \<Rightarrow> u32 list" where
  "utf16_points [] = []"
| "utf16_points [u] = [ucast u]"
| "utf16_points (u # lo # us) =
     (if high_surrogate u \<and> low_surrogate lo then join_surrogates u lo # utf16_points us
      else ucast u # utf16_points (lo # us))"

fun units_at :: "nat \<Rightarrow> bytes \<Rightarrow> u16 list" where
  "units_at (Suc n) (a # b # d) = le_word16 a b # units_at n d"
| "units_at n d = []"

text \<open>The result: the null pointer, or the bytes written to \<open>out\<close> before its NUL.\<close>

definition wdb_get_str16 :: "(nat \<Rightarrow> bool) \<Rightarrow> wdb_parcel \<Rightarrow> bytes option \<times> wdb_parcel" where
  "wdb_get_str16 alloc p =
     (case wdb_get_i32 p of (v, p) \<Rightarrow>
        if pl_error p \<noteq> 0 \<or> sint v < 0 then (None, p)
        else
          let units = unat v; size = str16_size units
          in if units > WDB_MAX_REPLY \<or> pl_pos p + size > length (pl_data p)
             then (None, p\<lparr>pl_error := WDB_EPROTO\<rparr>)
             else if \<not> alloc (units * 3 + 1) then (None, p\<lparr>pl_error := WDB_ENOMEM\<rparr>)
             else (Some (concat (map utf8_encode
                     (utf16_points (units_at units (drop (pl_pos p) (pl_data p)))))),
                   p\<lparr>pl_pos := pl_pos p + size\<rparr>))"

end
