(* ===== verification/Wd_Codec.thy ===== *)
theory Wd_Codec
  imports Wd_Parcel
begin

text \<open>
  Correctness of the parcels of \<open>waydroid/binder/wdbinder.c\<close>.

  \<^item> UTF-8 and UTF-16: \<open>utf8_next\<close> undoes \<open>utf8_encode\<close>, the decoding loop of \<open>wdb_get_str16\<close>
    undoes the encoding loop of \<open>wdb_put_str16\<close> on Unicode scalar values.
  \<^item> Memory safety: the two passes of \<open>wdb_put_str16\<close> agree, so no byte is written outside the
    space reserved, and neither pass reads past the terminating NUL, whatever the bytes are.
  \<^item> The locale \<open>parcel_field\<close> is the contract of a put and its get.
\<close>

section \<open>UTF-8\<close>

lemma utf8_lead2: "(cp::u32) < 0x800 \<Longrightarrow> (ucast (0xC0 OR drop_bit 6 cp) :: u8) AND 0xE0 = 0xC0"
  using below_exp [of cp 11] by (intro u8_eqI) (simp_all add: bit_simps)

lemma utf8_lead3: "(cp::u32) < 0x10000 \<Longrightarrow> (ucast (0xE0 OR drop_bit 12 cp) :: u8) AND 0xF0 = 0xE0"
  using below_exp [of cp 16] by (intro u8_eqI) (simp_all add: bit_simps)

lemma utf8_lead4: "(cp::u32) < 0x200000 \<Longrightarrow> (ucast (0xF0 OR drop_bit 18 cp) :: u8) AND 0xF8 = 0xF0"
  using below_exp [of cp 21] by (intro u8_eqI) (simp_all add: bit_simps)

lemma utf8_lead3_not2: "(cp::u32) < 0x10000 \<Longrightarrow> (ucast (0xE0 OR drop_bit 12 cp) :: u8) AND 0xE0 \<noteq> 0xC0"
  by (rule notI, drule arg_cong [of _ _ "\<lambda>x. bit x 5"]) (simp add: bit_simps)

lemma utf8_lead4_not: "(ucast (0xF0 OR drop_bit 18 (cp::u32)) :: u8) AND 0xE0 \<noteq> 0xC0" "(ucast (0xF0 OR drop_bit 18 cp) :: u8) AND 0xF0 \<noteq> 0xE0"
  by (rule notI, drule arg_cong [of _ _ "\<lambda>x. bit x 5"], simp add: bit_simps)
   (rule notI, drule arg_cong [of _ _ "\<lambda>x. bit x 4"], simp add: bit_simps)

lemma utf8_tail: "(ucast (0x80 OR ((x::u32) AND 0x3F)) :: u8) AND 0xC0 = 0x80"
  by (intro u8_eqI) (simp_all add: bit_simps)

lemma utf8_high: "\<not> (ucast (0x80 OR (x::u32)) :: u8) < 0x80" "\<not> (ucast (0xC0 OR (x::u32)) :: u8) < 0x80"
 "\<not> (ucast (0xE0 OR (x::u32)) :: u8) < 0x80" "\<not> (ucast (0xF0 OR (x::u32)) :: u8) < 0x80"
  by (simp_all add: u8_high bit_simps)

lemma word_masks: "0x3F = (mask 6 :: u32)" "0x1F = (mask 5 :: u32)" "0x0F = (mask 4 :: u32)" "0x07 = (mask 3 :: u32)"
  "0x3FF = (mask 10 :: u32)"
  "0xC0 = (push_bit 6 (mask 2) :: u32)"
  "0xE0 = (push_bit 5 (mask 3) :: u32)" "0xF0 = (push_bit 4 (mask 4) :: u32)"
  by (simp_all add: mask_eq_exp_minus_1)

lemma utf8_tail_val: "ucast (ucast (0x80 OR (x AND 0x3F)) :: u8) AND 0x3F = (x AND 0x3F :: u32)"
proof -
  have "\<not> bit (0x80 :: u32) n" if "n < 6" for n
    using that bit_exp_iff [of 7 n, where 'a = u32] by simp
  then show ?thesis unfolding word_masks(1) by (intro bit_word_eqI) (auto simp: bit_simps)
qed

lemma utf8_lead_val2: "(cp :: u32) < 0x800 \<Longrightarrow> ucast (ucast (0xC0 OR drop_bit 6 cp) :: u8) AND 0x1F = drop_bit 6 cp"
  using bits_below [of cp 11] unfolding word_masks by (intro bit_word_eqI) (fastforce simp: bit_simps)

lemma utf8_lead_val3: "(cp :: u32) < 0x10000 \<Longrightarrow> ucast (ucast (0xE0 OR drop_bit 12 cp) :: u8) AND 0x0F = drop_bit 12 cp"
  using bits_below [of cp 16] unfolding word_masks by (intro bit_word_eqI) (fastforce simp: bit_simps)

lemma utf8_lead_val4: "(cp :: u32) < 0x200000 \<Longrightarrow> ucast (ucast (0xF0 OR drop_bit 18 cp) :: u8) AND 0x07 = drop_bit 18 cp"
  using bits_below [of cp 21] unfolding word_masks by (intro bit_word_eqI) (fastforce simp: bit_simps)

lemma utf8_glue: "push_bit 6 (drop_bit 6 w) OR (w AND 0x3F) = (w :: u32)"
  unfolding word_masks by (rule bit_word_eqI) (auto simp: bit_simps)

lemma utf8_glue_shift: "push_bit 6 (drop_bit (n + 6) w) OR (drop_bit n w AND 0x3F) = (drop_bit n w :: u32)"
  unfolding word_masks by (rule bit_word_eqI) (auto simp: bit_simps add.commute)

lemma utf8_ascii: "(cp :: u32) < 0x80 \<Longrightarrow> ucast (ucast cp :: u8) = cp" "(cp :: u32) < 0x80 \<Longrightarrow> (ucast cp :: u8) < 0x80"
  using bits_below [of cp 7] by (fastforce intro!: bit_word_eqI simp: bit_simps u8_high)+

lemma utf8_next_encode:
  assumes "cp < 0x200000"
  shows "utf8_next (utf8_encode cp @ rest) = Some (cp, rest)"
proof -
  consider "cp < 0x80" | "\<not> cp < 0x80" "cp < 0x800" | "\<not> cp < 0x80" "\<not> cp < 0x800" "cp < 0x10000"
    | "\<not> cp < 0x80" "\<not> cp < 0x800" "\<not> cp < 0x10000" by blast
  then show ?thesis
  proof cases
    case 1
    then show ?thesis by (simp add: utf8_encode_def utf8_ascii)
  next
    case 2
    then show ?thesis
      by (simp add: utf8_encode_def utf8_high utf8_lead2 utf8_lead_val2 utf8_tail utf8_tail_val utf8_glue del: utf8_cont.simps) (simp add: utf8_tail utf8_tail_val utf8_lead_val2 utf8_glue)
  next
    case 3
    then show ?thesis
      using utf8_glue_shift [of 6 cp] by (simp add: utf8_encode_def utf8_high utf8_lead3 utf8_lead3_not2 utf8_lead_val3 utf8_tail utf8_tail_val utf8_glue numeral_2_eq_2)
  next
    case 4
    then show ?thesis using assms
      using utf8_glue_shift [of 6 cp] utf8_glue_shift [of 12 cp] by (simp add: utf8_encode_def utf8_high utf8_lead4 utf8_lead4_not utf8_lead_val4 utf8_tail utf8_tail_val utf8_glue numeral_3_eq_3)
  qed
qed

lemma surrogate_parts:
  fixes x :: u32
  assumes "x < 0x100000"
  defines "hi \<equiv> (ucast (0xD800 OR drop_bit 10 x) :: u16)" and "lo \<equiv> (ucast (0xDC00 OR (x AND 0x3FF)) :: u16)"
  shows "unat hi = 55296 + unat x div 1024" "unat lo = 56320 + unat x mod 1024"
proof -
  have x: "unat x < 1048576" using assms(1) by (simp add: word_less_nat_alt)
  have d: "unat (drop_bit 10 x) = unat x div 1024"
    unfolding unat_drop_bit_eq by (simp add: drop_bit_eq_div)
  have t: "unat (x AND 0x3FF) = unat x mod 1024"
    unfolding word_masks(5) take_bit_eq_mask [symmetric] by (subst unsigned_take_bit_eq) (simp add: take_bit_eq_mod)
  have "drop_bit 10 x < 2 ^ 10" "x AND 0x3FF < 2 ^ 10"
    using x by (simp_all add: word_less_nat_alt d t)
  then have b: "bit (drop_bit 10 x) n \<Longrightarrow> n < 10" "bit (x AND 0x3FF) n \<Longrightarrow> n < 10" for n
    by (simp_all add: bits_below)
  have num: "\<not> bit (0xD800 :: u32) n" "\<not> bit (0xDC00 :: u32) n" if "n < 10" for n
  proof -
    have e: "0xD800 = (push_bit 11 27 :: u32)" "0xDC00 = (push_bit 10 55 :: u32)" by simp_all
    show "\<not> bit (0xD800 :: u32) n" "\<not> bit (0xDC00 :: u32) n"
      unfolding e using that by (simp_all only: bit_push_bit_iff) auto
  qed
  have "0xD800 OR drop_bit 10 x = 0xD800 + drop_bit 10 x"
    by (rule disjunctive_add [symmetric]) (use b num in blast)
  moreover have "0xDC00 OR (x AND 0x3FF) = 0xDC00 + (x AND 0x3FF)"
    by (rule disjunctive_add [symmetric]) (use b num in blast)
  ultimately show "unat hi = 55296 + unat x div 1024" "unat lo = 56320 + unat x mod 1024"
    using x by (simp_all add: hi_def lo_def unsigned_ucast_eq unat_word_ariths d t take_bit_eq_mod)
qed

lemma utf16_points_single: "\<not> high_surrogate u \<Longrightarrow> utf16_points (u # us) = ucast u # utf16_points us"
  by (cases us) simp_all

definition scalar :: "u32 \<Rightarrow> bool" where
  "scalar cp \<longleftrightarrow> cp < 0x110000 \<and> \<not> (0xD800 \<le> cp \<and> cp \<le> 0xDFFF)"

lemma utf16_points_units:
  assumes "scalar cp"
  shows "utf16_points (units_of cp @ us) = cp # utf16_points us"
proof (cases "cp \<ge> 0x10000")
  case False
  then have c: "unat cp < 65536" by (simp add: word_le_nat_alt)
  then have u: "unat (ucast cp :: u16) = unat cp"
    by (subst unsigned_ucast_eq) (simp add: take_bit_eq_mod)
  have "unat (ucast (ucast cp :: u16) :: u32) = unat cp"
    using c by (subst unsigned_ucast_eq) (simp add: u take_bit_eq_mod)
  then have "ucast (ucast cp :: u16) = cp" by (simp add: word_unat_eq_iff)
  moreover have "\<not> high_surrogate (ucast cp)"
    using assms by (auto simp: high_surrogate_def scalar_def word_le_nat_alt u)
  ultimately show ?thesis using False by (simp add: units_of_def utf16_points_single)
next
  case True
  define x where "x = cp - 0x10000"
  have cp: "unat cp < 1114112" using assms by (simp add: scalar_def word_less_nat_alt)
  have ux: "unat x = unat cp - 65536"
    using True by (simp add: x_def unat_sub)
  then have x: "x < 0x100000" using cp by (simp add: word_less_nat_alt)
  note p = surrogate_parts [OF x]
  let ?hi = "ucast (0xD800 OR drop_bit 10 x) :: u16" and ?lo = "ucast (0xDC00 OR (x AND 0x3FF)) :: u16"
  have h: "high_surrogate ?hi" and l: "low_surrogate ?lo"
    using ux cp by (simp_all add: high_surrogate_def low_surrogate_def word_le_nat_alt p)
  have w: "unat (ucast ?hi :: u32) = unat ?hi" "unat (ucast ?lo :: u32) = unat ?lo"
    using ux cp by (subst unsigned_ucast_eq, simp add: p take_bit_eq_mod)+
  have s: "unat (ucast ?hi - 0xD800 :: u32) = unat x div 1024" "unat (ucast ?lo - 0xDC00 :: u32) = unat x mod 1024"
    by (subst unat_sub; simp add: word_le_nat_alt w p)+
  have "unat x < 1048576" using ux cp by simp
  then have m: "unat (push_bit 10 (ucast ?hi - 0xD800 :: u32)) = unat x div 1024 * 1024"
    unfolding push_bit_eq_mult by (subst unat_word_ariths) (simp add: s)
  have "unat (join_surrogates ?hi ?lo) = 65536 + unat x"
    using ux cp unfolding join_surrogates_def
    by (subst unat_word_ariths, subst unat_word_ariths) (simp only: m s, simp)
  then have "unat (join_surrogates ?hi ?lo) = unat cp"
    using True by (simp add: ux word_le_nat_alt)
  then have "join_surrogates ?hi ?lo = cp" by (simp add: word_unat_eq_iff)
  with True h l show ?thesis by (simp add: units_of_def x_def)
qed

section \<open>The two passes of \<open>wdb_put_str16\<close>\<close>

lemma utf8_cont_nul:
  "0 \<in> set s \<Longrightarrow> \<exists>cp' s'. utf8_cont k cp s = Some (cp', s') \<and> 0 \<in> set s'"
  by (induction k cp s rule: utf8_cont.induct) auto

lemma utf8_next_nul:
  assumes "0 \<in> set s" "s = b # t" "b \<noteq> 0"
  obtains cp s' where "utf8_next s = Some (cp, s')" "0 \<in> set s'" "length s' < length s"
proof -
  have "0 \<in> set t" using assms by auto
  then have "\<exists>cp s'. utf8_next s = Some (cp, s') \<and> 0 \<in> set s'"
    using utf8_cont_nul [of t] by (simp add: assms(2))
  with that utf8_next_shorter show ?thesis by blast
qed

text \<open>The code points of a C string: the reference for both passes.\<close>

function str_points :: "bytes \<Rightarrow> u32 list" where
  "str_points s =
     (case s of
        [] \<Rightarrow> []
      | b # _ \<Rightarrow>
          if b = 0 then []
          else (case utf8_next s of None \<Rightarrow> [] | Some (cp, s') \<Rightarrow> cp # str_points s'))"
  by pat_completeness auto
termination
  by (relation "measure length") (simp, simp only: in_measure, metis utf8_next_shorter)

declare str_points.simps [simp del]

definition str_units :: "bytes \<Rightarrow> u16 list" where
  "str_units s = concat (map units_of (str_points s))"

text \<open>Induction over the code points of a NUL-terminated string.\<close>

lemma c_string_induct [consumes 1, case_names nul point]:
  assumes "0 \<in> set s"
    and nul: "\<And>t. P (0 # t)"
    and point: "\<And>b t cp s'. b \<noteq> 0 \<Longrightarrow> 0 \<in> set (b # t) \<Longrightarrow> utf8_next (b # t) = Some (cp, s') \<Longrightarrow>
      0 \<in> set s' \<Longrightarrow> P s' \<Longrightarrow> P (b # t)"
  shows "P s"
  using assms(1)
proof (induction "length s" arbitrary: s rule: less_induct)
  case less
  then obtain b t where s: "s = b # t" by (cases s) auto
  show ?case
  proof (cases "b = 0")
    case True
    then show ?thesis using nul s by simp
  next
    case False
    from utf8_next_nul [OF less(2) s False] obtain cp s' where
      n: "utf8_next s = Some (cp, s')" "0 \<in> set s'" "length s' < length s" .
    then show ?thesis using point [OF False, of t cp s'] less s by simp
  qed
qed

lemma str_units_Nul [simp]: "str_units (0 # t) = []"
  by (simp add: str_units_def str_points.simps)

lemma str_units_point:
  "b \<noteq> 0 \<Longrightarrow> utf8_next (b # t) = Some (cp, s') \<Longrightarrow> str_units (b # t) = units_of cp @ str_units s'"
  by (simp add: str_units_def str_points.simps [of "b # t"] del: utf8_next.simps)

lemma length_units_of: "length (units_of cp) = (if cp \<ge> 0x10000 then 2 else 1)"
  by (simp add: units_of_def)

lemma count_units_eq: "0 \<in> set s \<Longrightarrow> count_units s n = Some (n + length (str_units s))"
proof (induction s arbitrary: n rule: c_string_induct)
  case (nul t)
  then show ?case by (simp add: count_units.simps)
next
  case (point b t cp s')
  then show ?case
    by (simp add: count_units.simps [of "b # t"] str_units_point length_units_of add.assoc
        del: utf8_next.simps)
qed

lemma length_units_bytes [simp]: "length (units_bytes us) = 2 * length us"
  by (induction us) (simp_all add: units_bytes_def)

lemma units_bytes_append [simp]: "units_bytes (us @ vs) = units_bytes us @ units_bytes vs"
  by (simp add: units_bytes_def)

text \<open>Writing at the front of reserved space; what lies around it stays.\<close>

lemma poke_at:
  assumes "pl_data p = pre @ zs @ post" "length zs = length w"
  shows "poke (length pre) w p = Some (p\<lparr>pl_data := pre @ w @ post\<rparr>)"
  using assms by (simp add: poke_def)

lemma write_units_eq:
  assumes "0 \<in> set s"
  shows "pl_data p = pre @ zs @ post \<Longrightarrow> length zs = 2 * length (str_units s) \<Longrightarrow>
    write_units s (length pre) p = Some (p\<lparr>pl_data := pre @ units_bytes (str_units s) @ post\<rparr>)"
  using assms
proof (induction s arbitrary: p pre zs rule: c_string_induct)
  case (nul t)
  then show ?case by (simp add: write_units.simps units_bytes_def)
next
  case (point b t cp s')
  note u = str_units_point [OF point(1,3)]
  let ?w = "units_bytes (units_of cp)" and ?n = "2 * length (units_of cp)"
  have z: "zs = take ?n zs @ drop ?n zs" "length (take ?n zs) = length ?w"
    using point(7) by (simp_all add: u)
  have p: "poke (length pre) ?w p = Some (p\<lparr>pl_data := pre @ ?w @ drop ?n zs @ post\<rparr>)"
    by (rule poke_at [OF _ z(2)]) (use point(6) z(1) in simp)
  have "write_units s' (length (pre @ ?w)) (p\<lparr>pl_data := pre @ ?w @ drop ?n zs @ post\<rparr>) =
      Some ((p\<lparr>pl_data := pre @ ?w @ drop ?n zs @ post\<rparr>)
        \<lparr>pl_data := (pre @ ?w) @ units_bytes (str_units s') @ post\<rparr>)"
    by (rule point(5) [where zs = "drop ?n zs"]) (use point(7) in \<open>simp_all add: u\<close>)
  with point(1,3) p show ?case
    by (simp add: write_units.simps [of "b # t"] u del: utf8_next.simps)
qed

section \<open>The parcel invariant\<close>

definition parcel_inv :: "wdb_parcel \<Rightarrow> bool" where
  "parcel_inv p \<longleftrightarrow> length (pl_data p) \<le> pl_cap p \<and> length (pl_data p) \<le> WDB_MAX_REPLY \<and>
     pl_pos p \<le> length (pl_data p)"

lemma grow_cap_enough: "0 < cap \<Longrightarrow> need \<le> grow_cap need cap \<and> cap \<le> grow_cap need cap"
proof (induction need cap rule: grow_cap.induct)
  case (1 need cap)
  then show ?case by (cases "cap \<ge> need") (auto simp: grow_cap.simps [of need cap])
qed

text \<open>What \<open>parcel_grow\<close> can do: reserve zeroed bytes at the end, or raise the error.\<close>

lemma parcel_grow_cases:
  obtains (fails) err where "parcel_grow alloc n p = (None, p\<lparr>pl_error := err\<rparr>)" "err \<noteq> 0"
  | (grows) cap where "parcel_grow alloc n p =
      (Some (length (pl_data p)), p\<lparr>pl_cap := cap, pl_data := pl_data p @ replicate n 0\<rparr>)"
    "pl_error p = 0" "length (pl_data p) + n \<le> cap" "length (pl_data p) + n \<le> WDB_MAX_REPLY"
proof -
  let ?need = "length (pl_data p) + n"
  have cap: "?need \<le> new_cap ?need p"
    using grow_cap_enough [of "if pl_cap p = 0 then 256 else pl_cap p" ?need] by (auto simp: new_cap_def)
  consider "pl_error p \<noteq> 0" | "pl_error p = 0" "n > WDB_MAX_REPLY \<or> ?need > WDB_MAX_REPLY"
    | "pl_error p = 0" "?need \<le> WDB_MAX_REPLY" "?need > pl_cap p \<and> \<not> alloc (new_cap ?need p)"
    | "pl_error p = 0" "?need \<le> WDB_MAX_REPLY" "\<not> (?need > pl_cap p \<and> \<not> alloc (new_cap ?need p))"
    by linarith
  then show thesis
  proof cases
    case 1
    then show ?thesis by (intro fails [of "pl_error p"]) (simp_all add: parcel_grow_def Let_def)
  next
    case 2
    then show ?thesis by (intro fails [of WDB_EINVAL]) (simp_all add: parcel_grow_def Let_def)
  next
    case 3
    then show ?thesis by (intro fails [of WDB_ENOMEM]) (simp_all add: parcel_grow_def Let_def)
  next
    case 4
    then show ?thesis
      using cap by (intro grows [of "new_cap ?need p"]) (auto simp: parcel_grow_def Let_def)
  qed
qed

text \<open>What a put can do: append, raise the error, or append a part and raise the error.\<close>

definition put_result :: "wdb_parcel \<Rightarrow> bytes \<Rightarrow> wdb_parcel \<Rightarrow> bool" where
  "put_result p w p' \<longleftrightarrow> parcel_inv p' \<and> pl_pos p' = pl_pos p \<and> (\<exists>v. pl_data p' = pl_data p @ v) \<and>
     (pl_error p' = 0 \<longrightarrow> pl_error p = 0 \<and> pl_data p' = pl_data p @ w)"

lemma put_i32_result:
  assumes "parcel_inv p"
  shows "\<exists>p'. wdb_put_i32 alloc v p = Some p' \<and> put_result p (le_bytes32 v) p'"
proof (cases rule: parcel_grow_cases [of alloc 4 p])
  case (fails err)
  with assms show ?thesis by (simp add: wdb_put_i32_def put_result_def parcel_inv_def)
next
  case (grows cap)
  let ?p = "p\<lparr>pl_cap := cap, pl_data := pl_data p @ replicate 4 0\<rparr>"
  have "poke (length (pl_data p)) (le_bytes32 v) ?p = Some (?p\<lparr>pl_data := pl_data p @ le_bytes32 v @ []\<rparr>)"
    by (rule poke_at [where zs = "replicate 4 0"]) simp_all
  with grows assms show ?thesis by (simp add: wdb_put_i32_def put_result_def parcel_inv_def)
qed

definition enc_str16 :: "u16 list \<Rightarrow> bytes" where
  "enc_str16 us = le_bytes32 (of_nat (length us)) @ units_bytes us
     @ replicate (str16_size (length us) - 2 * length us) 0"

lemma str16_size_fits: "2 * n + 2 \<le> str16_size n"
  unfolding str16_size_def by presburger

lemma length_enc_str16: "length (enc_str16 us) = 4 + str16_size (length us)"
  using str16_size_fits [of "length us"] by (simp add: enc_str16_def)

lemma put_str16_result:
  assumes "0 \<in> set s" "parcel_inv p"
  shows "\<exists>p'. wdb_put_str16 alloc (Some s) p = Some p' \<and> put_result p (enc_str16 (str_units s)) p'"
proof -
  let ?n = "length (str_units s)"
  have count: "count_units s 0 = Some ?n" using count_units_eq [OF assms(1), of 0] by simp
  from put_i32_result [OF assms(2)] obtain p1 where
    p1: "wdb_put_i32 alloc (of_nat ?n) p = Some p1" "put_result p (le_bytes32 (of_nat ?n)) p1" by blast
  have inv1: "parcel_inv p1" using p1(2) by (simp add: put_result_def)
  consider "?n > WDB_MAX_REPLY div 4" | "\<not> ?n > WDB_MAX_REPLY div 4" by blast
  then show ?thesis
  proof cases
    case 1
    with assms(2) count show ?thesis by (simp add: wdb_put_str16_def put_result_def parcel_inv_def)
  next
    case 2
    show ?thesis
    proof (cases rule: parcel_grow_cases [of alloc "str16_size ?n" p1])
      case (fails err)
      with 2 count p1 show ?thesis by (auto simp: wdb_put_str16_def put_result_def parcel_inv_def)
    next
      case (grows cap)
      let ?z = "str16_size ?n - 2 * ?n"
      let ?p2 = "p1\<lparr>pl_cap := cap, pl_data := pl_data p1 @ replicate (str16_size ?n) 0\<rparr>"
      have rep: "replicate (str16_size ?n) 0 = replicate (2 * ?n) 0 @ replicate ?z (0 :: u8)"
        using str16_size_fits [of ?n] by (simp flip: replicate_add)
      have "write_units s (length (pl_data p1)) ?p2 =
          Some (?p2\<lparr>pl_data := pl_data p1 @ units_bytes (str_units s) @ replicate ?z 0\<rparr>)"
        by (rule write_units_eq [OF assms(1), where zs = "replicate (2 * ?n) 0"]) (simp_all add: rep)
      with 2 count p1 grows inv1 show ?thesis
        using str16_size_fits [of ?n]
        by (auto simp: wdb_put_str16_def put_result_def parcel_inv_def enc_str16_def)
    qed
  qed
qed

section \<open>Reading back\<close>

lemma get_i32_at:
  assumes "pl_error p = 0" "drop (pl_pos p) (pl_data p) = le_bytes32 v @ rest"
  shows "wdb_get_i32 p = (v, p\<lparr>pl_pos := pl_pos p + 4\<rparr>)"
proof -
  have "length (drop (pl_pos p) (pl_data p)) = 4 + length rest" by (simp add: assms(2))
  then have "pl_pos p + 4 \<le> length (pl_data p)" by simp
  then show ?thesis
    using assms by (simp add: wdb_get_i32_def Let_def) (simp add: le_bytes32_def codec)
qed

lemma units_at_bytes: "units_at (length us) (units_bytes us @ rest) = us"
proof (induction us)
  case (Cons u us)
  have "units_bytes (u # us) @ rest = ucast u # ucast (drop_bit 8 u) # units_bytes us @ rest"
    by (simp add: units_bytes_def le_bytes16_def)
  with Cons show ?case by (simp add: codec)
qed simp

lemma str16_size_le: "str16_size n \<le> 2 * n + 5"
  unfolding str16_size_def by presburger

lemma of_nat_nonneg: "n \<le> WDB_MAX_REPLY \<Longrightarrow> 0 \<le> sint (of_nat n :: u32) \<and> unat (of_nat n :: u32) = n"
  by (simp add: WDB_MAX_REPLY_def signed_of_nat unat_of_nat signed_take_bit_int_eq_self)

definition roomy :: "(nat \<Rightarrow> bool) \<Rightarrow> bool" where
  "roomy alloc \<longleftrightarrow> (\<forall>n \<le> 4 * WDB_MAX_REPLY. alloc n)"

lemma get_str16_at:
  assumes "pl_error p = 0" "drop (pl_pos p) (pl_data p) = enc_str16 us @ rest"
    "length us \<le> WDB_MAX_REPLY" "roomy alloc"
  shows "wdb_get_str16 alloc p =
    (Some (concat (map utf8_encode (utf16_points us))), p\<lparr>pl_pos := pl_pos p + length (enc_str16 us)\<rparr>)"
proof -
  let ?n = "length us" and ?rest = "units_bytes us @ replicate (str16_size (length us) - 2 * length us) 0 @ rest"
  have d: "drop (pl_pos p) (pl_data p) = le_bytes32 (of_nat ?n) @ ?rest"
    using assms(2) by (simp add: enc_str16_def)
  note i = get_i32_at [OF assms(1) d]
  have "drop (pl_pos p + 4) (pl_data p) = drop 4 (drop (pl_pos p) (pl_data p))" by (simp add: add.commute)
  then have d4: "drop (pl_pos p + 4) (pl_data p) = ?rest" by (simp add: d)
  have "length (drop (pl_pos p) (pl_data p)) = length (enc_str16 us) + length rest" by (simp add: assms(2))
  then have l: "pl_pos p + 4 + str16_size ?n \<le> length (pl_data p)" by (simp add: length_enc_str16)
  have a: "alloc (?n * 3 + 1)" using assms(3,4) by (simp add: roomy_def WDB_MAX_REPLY_def)
  show ?thesis
    using of_nat_nonneg [OF assms(3)] assms(1,3) l a units_at_bytes [of us]
    by (simp add: wdb_get_str16_def i Let_def d4 length_enc_str16 not_less)
qed

text \<open>The contract of a put and its get: the bytes appended, and the value they read back as.\<close>

locale parcel_field =
  fixes put :: "'a \<Rightarrow> wdb_parcel \<Rightarrow> wdb_parcel option"
    and get :: "wdb_parcel \<Rightarrow> 'b \<times> wdb_parcel"
    and enc :: "'a \<Rightarrow> bytes"
    and val :: "'a \<Rightarrow> 'b"
    and ok :: "'a \<Rightarrow> bool"
  assumes put_some: "ok v \<Longrightarrow> parcel_inv p \<Longrightarrow> \<exists>p'. put v p = Some p' \<and> put_result p (enc v) p'"
    and get_val: "ok v \<Longrightarrow> pl_error p = 0 \<Longrightarrow> drop (pl_pos p) (pl_data p) = enc v @ rest \<Longrightarrow>
      get p = (val v, p\<lparr>pl_pos := pl_pos p + length (enc v)\<rparr>)"
begin

text \<open>What was put at the read position, with whatever follows it, is what is read.\<close>

lemma put_get:
  assumes "ok v" "put v p = Some p'" "parcel_inv p" "pl_error p' = 0" "pl_pos p = length (pl_data p)"
    and "pl_data q = pl_data p' @ rest" "pl_pos q = pl_pos p" "pl_error q = 0"
  shows "get q = (val v, q\<lparr>pl_pos := length (pl_data p')\<rparr>)"
proof -
  from put_some [OF assms(1,3)] assms(2,4) have d: "pl_data p' = pl_data p @ enc v"
    by (auto simp: put_result_def)
  have "drop (pl_pos q) (pl_data q) = enc v @ rest" by (simp add: assms(5-7) d)
  from get_val [OF assms(1,8) this] show ?thesis by (simp add: assms(5,7) d)
qed

end

interpretation i32_field: parcel_field "wdb_put_i32 alloc" wdb_get_i32 le_bytes32 "\<lambda>v. v" "\<lambda>_. True"
  for alloc
  by unfold_locales (simp_all add: put_i32_result get_i32_at)

definition str_ok :: "bytes \<Rightarrow> bool" where
  "str_ok s \<longleftrightarrow> 0 \<in> set s \<and> length (str_units s) \<le> WDB_MAX_REPLY"

interpretation str16_field: parcel_field "\<lambda>s. wdb_put_str16 (\<lambda>_. True) (Some s)" "wdb_get_str16 (\<lambda>_. True)"
    "\<lambda>s. enc_str16 (str_units s)" "\<lambda>s. Some (concat (map utf8_encode (utf16_points (str_units s))))" str_ok
  by unfold_locales
    (simp_all add: str_ok_def put_str16_result get_str16_at roomy_def)

section \<open>What the parcels guarantee\<close>

lemma parcel_inv_init: "parcel_inv wdb_parcel_init"
  by (simp add: parcel_inv_def wdb_parcel_init_def)

text \<open>
  C8: \<open>wdb_put_str16\<close> is memory safe on every NUL-terminated byte string, however malformed its
  UTF-8, under any allocator and in any state of the parcel: neither pass reads past the NUL, the
  second pass writes only into the space sized by the first, what was in the parcel stays, and
  unless an error is flagged the complete encoding has been appended.
\<close>

theorem put_str16_safe:
  assumes "0 \<in> set s" "parcel_inv p"
  shows "\<exists>p'. wdb_put_str16 alloc (Some s) p = Some p' \<and> parcel_inv p' \<and>
    (\<exists>w. pl_data p' = pl_data p @ w) \<and>
    (pl_error p' = 0 \<longrightarrow> pl_data p' = pl_data p @ enc_str16 (str_units s))"
  using put_str16_result [OF assms, of alloc] by (auto simp: put_result_def)

theorem put_str16_safe_witness:
  "\<exists>p'. wdb_put_str16 (\<lambda>_. True) (Some [0xE2, 0x28, 0xF0, 0]) wdb_parcel_init = Some p' \<and> parcel_inv p'"
  using put_str16_safe [of "[0xE2, 0x28, 0xF0, 0]" wdb_parcel_init "\<lambda>_. True"] parcel_inv_init by auto

lemma utf8_encode_nonzero:
  assumes "cp < 0x200000" "cp \<noteq> 0"
  obtains b t where "utf8_encode cp = b # t" "b \<noteq> 0"
proof -
  have "utf8_encode cp \<noteq> []" by (simp add: utf8_encode_def)
  then obtain b t where e: "utf8_encode cp = b # t" by (cases "utf8_encode cp") auto
  have "b \<noteq> 0"
  proof
    assume "b = 0"
    with e utf8_next_encode [OF assms(1), of "[]"] assms(2) show False by simp
  qed
  with e that show ?thesis by blast
qed

lemma scalar_bound: "scalar cp \<Longrightarrow> cp < 0x200000"
  by (simp add: scalar_def word_less_nat_alt)

lemma str_points_encode:
  "\<forall>cp \<in> set cps. scalar cp \<and> cp \<noteq> 0 \<Longrightarrow> str_points (concat (map utf8_encode cps) @ [0]) = cps"
proof (induction cps)
  case Nil
  then show ?case by (simp add: str_points.simps)
next
  case (Cons cp cps)
  then have cp: "cp < 0x200000" "cp \<noteq> 0" by (auto intro: scalar_bound)
  from utf8_encode_nonzero [OF this] obtain b t where bt: "utf8_encode cp = b # t" "b \<noteq> 0" .
  have n: "utf8_next (b # t @ r) = Some (cp, r)" for r
    using utf8_next_encode [OF cp(1), of r] by (simp add: bt)
  have "str_points (b # t @ r) = cp # str_points r" for r
    by (subst str_points.simps) (simp add: bt(2) n del: utf8_next.simps)
  with Cons bt show ?case by simp
qed

lemma utf16_points_encode: "\<forall>cp \<in> set cps. scalar cp \<Longrightarrow> utf16_points (concat (map units_of cps)) = cps"
  by (induction cps) (simp_all add: utf16_points_units)

lemma roundtrip_units:
  assumes "\<forall>cp \<in> set cps. scalar cp \<and> cp \<noteq> 0"
  shows "utf16_points (str_units (concat (map utf8_encode cps) @ [0])) = cps"
  using assms by (simp add: str_units_def str_points_encode utf16_points_encode)

text \<open>
  C7: A string of Unicode text (any scalar values but NUL) survives the trip: what
  \<open>wdb_put_str16\<close> appends to a parcel, \<open>wdb_get_str16\<close> reads back byte for byte, surrogate pairs
  included, and the read position stops right behind it.
\<close>

theorem str16_roundtrip:
  assumes "\<forall>cp \<in> set cps. scalar cp \<and> cp \<noteq> 0"
    and "str = concat (map utf8_encode cps)" "length (str_units (str @ [0])) \<le> WDB_MAX_REPLY"
    and "parcel_inv p" "pl_pos p = length (pl_data p)"
    and "wdb_put_str16 (\<lambda>_. True) (Some (str @ [0])) p = Some p'" "pl_error p' = 0"
  shows "wdb_get_str16 (\<lambda>_. True) p' = (Some str, p'\<lparr>pl_pos := length (pl_data p')\<rparr>)"
proof -
  have ok: "str_ok (str @ [0])" using assms(3) by (simp add: str_ok_def)
  have "pl_pos p' = pl_pos p"
    using str16_field.put_some [OF ok assms(4)] assms(6) by (auto simp: put_result_def)
  from str16_field.put_get [OF ok assms(6,4,7,5), of p' "[]"] this assms(7)
  show ?thesis using roundtrip_units [OF assms(1)] by (simp add: assms(2))
qed

text \<open>An e with acute accent and a character outside the basic plane.\<close>

theorem str16_roundtrip_witness:
  "wdb_get_str16 (\<lambda>_. True)
     \<lparr>pl_data = [3, 0, 0, 0, 0xE9, 0, 0x3D, 0xD8, 0, 0xDE, 0, 0], pl_cap = 256, pl_pos = 0, pl_error = 0\<rparr> =
   (Some [0xC3, 0xA9, 0xF0, 0x9F, 0x98, 0x80],
    \<lparr>pl_data = [3, 0, 0, 0, 0xE9, 0, 0x3D, 0xD8, 0, 0xDE, 0, 0], pl_cap = 256, pl_pos = 12, pl_error = 0\<rparr>)"
proof -
  let ?str = "[0xC3, 0xA9, 0xF0, 0x9F, 0x98, 0x80] :: bytes"
  have s: "?str = concat (map utf8_encode [0xE9, 0x1F600])" by (simp add: utf8_encode_def)
  have sc: "\<forall>cp \<in> set [0xE9, 0x1F600]. scalar cp \<and> cp \<noteq> 0" by (simp add: scalar_def)
  have p: "str_points (?str @ [0]) = [0xE9, 0x1F600]" unfolding s by (rule str_points_encode [OF sc])
  then have u: "str_units (?str @ [0]) = [0xE9, 0xD83D, 0xDE00]" by (simp add: str_units_def units_of_def)
  then have len: "length (str_units (?str @ [0])) \<le> WDB_MAX_REPLY" by (simp add: WDB_MAX_REPLY_def)
  have put: "wdb_put_str16 (\<lambda>_. True) (Some (?str @ [0])) wdb_parcel_init =
      Some \<lparr>pl_data = [3, 0, 0, 0, 0xE9, 0, 0x3D, 0xD8, 0, 0xDE, 0, 0], pl_cap = 256, pl_pos = 0, pl_error = 0\<rparr>"
  proof -
    define str where "str = ?str @ [0]"
    let ?p1 = "\<lparr>pl_data = [3, 0, 0, 0] @ [0, 0, 0, 0, 0, 0] @ [0, 0], pl_cap = 256, pl_pos = 0, pl_error = 0\<rparr>"
    have n: "0 \<in> set str" and us: "str_units str = [0xE9, 0xD83D, 0xDE00]" by (simp_all add: str_def u [simplified])
    have b: "units_bytes [0xE9, 0xD83D, 0xDE00] = [0xE9, 0, 0x3D, 0xD8, 0, 0xDE]"
      by (simp add: units_bytes_def le_bytes16_def)
    have "write_units str (length [3, 0, 0, 0 :: u8]) ?p1 =
        Some (?p1\<lparr>pl_data := [3, 0, 0, 0] @ units_bytes (str_units str) @ [0, 0]\<rparr>)"
      by (rule write_units_eq [OF n, of _ _ "[0, 0, 0, 0, 0, 0]"]) (simp_all add: us)
    then have w: "write_units str 4 ?p1 =
        Some (?p1\<lparr>pl_data := [3, 0, 0, 0, 0xE9, 0, 0x3D, 0xD8, 0, 0xDE, 0, 0]\<rparr>)"
      by (simp add: us b eval_nat_numeral)
    have "wdb_put_i32 (\<lambda>_. True) (of_nat 3) wdb_parcel_init =
        Some \<lparr>pl_data = [3, 0, 0, 0], pl_cap = 256, pl_pos = 0, pl_error = 0\<rparr>"
      by (simp add: wdb_put_i32_def parcel_grow_def new_cap_def grow_cap.simps poke_def wdb_parcel_init_def
          WDB_MAX_REPLY_def le_bytes32_def)
    moreover have "parcel_grow (\<lambda>_. True) 8 \<lparr>pl_data = [3, 0, 0, 0], pl_cap = 256, pl_pos = 0, pl_error = 0\<rparr> =
        (Some 4, ?p1)"
    proof -
      have "replicate 8 (0 :: u8) = [0, 0, 0, 0, 0, 0, 0, 0]" by (simp add: eval_nat_numeral)
      then show ?thesis by (simp add: parcel_grow_def new_cap_def WDB_MAX_REPLY_def)
    qed
    ultimately show ?thesis
      using count_units_eq [OF n, of 0] w unfolding str_def [symmetric]
      by (simp add: us wdb_put_str16_def str16_size_def WDB_MAX_REPLY_def)
  qed
  show ?thesis
    using str16_roundtrip [OF sc s len parcel_inv_init _ put] by (simp add: wdb_parcel_init_def)
qed

lemma length_utf8_encode: "length (utf8_encode (ucast (u :: u16))) \<le> 3"
proof -
  have "(ucast u :: u32) < 2 ^ 16"
    by (subst less_exp_iff_bits) (auto simp: bit_simps dest: bit_imp_le_length)
  then show ?thesis by (simp add: utf8_encode_def)
qed

lemma length_decoded: "length (concat (map utf8_encode (utf16_points us))) \<le> 3 * length us"
proof (induction us rule: utf16_points.induct)
  case (2 u)
  then show ?case using length_utf8_encode [of u] by simp
next
  case (3 u lo us)
  have "length (utf8_encode (join_surrogates u lo)) \<le> 4" by (simp add: utf8_encode_def)
  with 3 length_utf8_encode [of u] show ?case by auto
qed simp

lemma length_units_at: "2 * n \<le> length d \<Longrightarrow> length (units_at n d) = n"
  by (induction n d rule: units_at.induct) auto

lemma get_i32_inv: "parcel_inv p \<Longrightarrow> parcel_inv (snd (wdb_get_i32 p))"
  by (auto simp: wdb_get_i32_def parcel_inv_def Let_def)

text \<open>
  C26: \<open>wdb_get_str16\<close> is memory safe on every reply, however hostile: the units it decodes all lie
  inside the parcel, what it writes fits the \<open>3 * units + 1\<close> bytes it allocates, and the read
  position never passes the end.
\<close>

theorem get_str16_safe:
  assumes "parcel_inv p" "wdb_get_str16 alloc p = (Some out, p')"
  defines "units \<equiv> unat (fst (wdb_get_i32 p))"
  shows "pl_pos p + 4 + 2 * units \<le> length (pl_data p) \<and>
    length (units_at units (drop (pl_pos p + 4) (pl_data p))) = units \<and>
    length out + 1 \<le> units * 3 + 1 \<and> parcel_inv p'"
proof -
  obtain v q where g: "wdb_get_i32 p = (v, q)" by (cases "wdb_get_i32 p")
  then have u: "units = unat v" by (simp add: units_def)
  have c: "pl_error q = 0" "pl_pos q + str16_size units \<le> length (pl_data q)"
    "out = concat (map utf8_encode (utf16_points (units_at units (drop (pl_pos q) (pl_data q)))))"
    "p' = q\<lparr>pl_pos := pl_pos q + str16_size units\<rparr>"
    using assms(2) by (auto simp: wdb_get_str16_def g u Let_def split: if_splits)
  have q: "pl_pos q = pl_pos p + 4" "pl_data q = pl_data p" "pl_cap q = pl_cap p"
    using g c(1) by (auto simp: wdb_get_i32_def Let_def split: if_splits)
  have s: "2 * units + 2 \<le> str16_size units" by (rule str16_size_fits)
  then have l: "length (units_at units (drop (pl_pos p + 4) (pl_data p))) = units"
    using c(2) by (intro length_units_at) (simp add: q)
  have "length out \<le> 3 * units"
    using length_decoded [of "units_at units (drop (pl_pos q) (pl_data q))"] l by (simp add: c(3) q)
  with s l c q assms(1) show ?thesis by (simp add: parcel_inv_def)
qed

definition sample_parcel :: wdb_parcel where
  "sample_parcel = \<lparr>pl_data = [1, 0, 0, 0, 0x41, 0, 0, 0], pl_cap = 256, pl_pos = 0, pl_error = 0\<rparr>"

theorem get_str16_safe_witness:
  "wdb_get_str16 (\<lambda>_. True) sample_parcel = (Some [0x41], sample_parcel\<lparr>pl_pos := 8\<rparr>) \<and>
   parcel_inv (sample_parcel\<lparr>pl_pos := 8\<rparr>)"
proof -
  have g: "wdb_get_str16 (\<lambda>_. True) sample_parcel = (Some [0x41], sample_parcel\<lparr>pl_pos := 8\<rparr>)"
  proof -
    have e: "enc_str16 [0x41] = [1, 0, 0, 0, 0x41, 0, 0, 0]"
    proof -
      have "str16_size (Suc 0) = 4" "replicate 2 (0 :: u8) = [0, 0]"
        by (simp_all add: str16_size_def numeral_2_eq_2)
      then show ?thesis by (simp add: enc_str16_def le_bytes32_def units_bytes_def le_bytes16_def)
    qed
    have "wdb_get_str16 (\<lambda>_. True) sample_parcel =
        (Some (concat (map utf8_encode (utf16_points [0x41]))), sample_parcel\<lparr>pl_pos := 0 + 8\<rparr>)"
      using get_str16_at [of sample_parcel "[0x41]" "[]" "\<lambda>_. True"]
      by (simp add: e sample_parcel_def WDB_MAX_REPLY_def roomy_def)
    then show ?thesis by (simp add: utf8_encode_def)
  qed
  have "parcel_inv sample_parcel" by (simp add: parcel_inv_def sample_parcel_def WDB_MAX_REPLY_def)
  from get_str16_safe [OF this g] g show ?thesis by simp
qed

text \<open>
  The error is sticky: once a parcel has failed, every later put leaves its data alone and its
  error set, every later get returns nothing and does not move, so a caller may check once at the
  end.
\<close>

lemma parcel_error_sticky:
  assumes "pl_error p \<noteq> 0" "0 \<in> set s"
  shows "wdb_put_i32 alloc v p = Some p \<and> wdb_get_i32 p = (0, p) \<and>
    wdb_get_str16 alloc p = (None, p) \<and>
    (\<exists>err. err \<noteq> 0 \<and> wdb_put_str16 alloc (Some s) p = Some (p\<lparr>pl_error := err\<rparr>))"
proof -
  have g: "parcel_grow alloc n p = (None, p)" for n using assms(1) by (simp add: parcel_grow_def)
  have i: "wdb_put_i32 alloc v p = Some p" for v by (simp add: wdb_put_i32_def g)
  have r: "wdb_get_i32 p = (0, p)" using assms(1) by (simp add: wdb_get_i32_def)
  have "\<exists>err. err \<noteq> 0 \<and> wdb_put_str16 alloc (Some s) p = Some (p\<lparr>pl_error := err\<rparr>)"
  proof (cases "length (str_units s) > WDB_MAX_REPLY div 4")
    case True
    then show ?thesis
      using count_units_eq [OF assms(2), of 0] by (intro exI [of _ WDB_EINVAL]) (simp add: wdb_put_str16_def)
  next
    case False
    then show ?thesis
      using count_units_eq [OF assms(2), of 0] assms(1)
      by (intro exI [of _ "pl_error p"]) (simp add: wdb_put_str16_def i g)
  qed
  with assms(1) i r show ?thesis by (simp add: wdb_get_str16_def)
qed

lemma utf8_cont_numeral:
  "utf8_cont 2 cp s = utf8_cont (Suc (Suc 0)) cp s" "utf8_cont 3 cp s = utf8_cont (Suc (Suc (Suc 0))) cp s"
  by (simp_all only: numeral_2_eq_2 numeral_3_eq_3)


end
