(* ===== verification/Wd_Binder.thy ===== *)
theory Wd_Binder
  imports Wd_Codec "HOL-Library.Monad_Syntax"
begin

text \<open>
  The binder client: \<open>waydroid/binder/wdbinder.c\<close> from \<open>wdb_new\<close> on.

  \<^item> \<open>wdb\<close> is the connection. \<open>wb_log\<close> records what was written to the driver, in order.
  \<^item> The kernel is not part of the program: what \<open>open\<close>, \<open>mmap\<close>, \<open>poll\<close>, the clock and
    \<open>BINDER_WRITE_READ\<close> answer is in a \<open>binder_env\<close>. A read delivers commands already told apart
    (\<open>br_cmd\<close>); \<open>BR_Short\<close> is a command whose payload is cut off.
  \<^item> The wait for a reply is driven from outside, so it takes fuel; \<open>None\<close> means that it ran
    out, or that a copy left its buffer. The theorems show that neither happens: the wait returns
    as soon as the clock reaches the deadline.
  \<^item> Pointers that receive a result (\<open>reply\<close>, \<open>handle\<close>) are not null.
\<close>

section \<open>State\<close>

datatype bc_cmd = BC_Transaction u32 u32 bytes | BC_FreeBuffer u64 | BC_IncRefs u32 | BC_Acquire u32

record wdb =
  wb_path :: bytes
  wb_fd :: int
  wb_map :: bool
  wb_have_platform :: bool
  wb_platform :: u32
  wb_log :: "bc_cmd list"

text \<open>\<open>strncpy\<close> into \<open>char path[256]\<close>, the last byte staying NUL.\<close>

definition path_copy :: "bytes \<Rightarrow> bytes" where
  "path_copy p = take 255 (takeWhile (\<lambda>b. b \<noteq> 0) p)"

text \<open>\<open>calloc\<close> failing is the \<open>None\<close> of the caller, who then has no connection.\<close>

definition wdb_new :: "bytes option \<Rightarrow> wdb" where
  "wdb_new binder_path = \<lparr>wb_path = (case binder_path of None \<Rightarrow> [] | Some p \<Rightarrow> path_copy p), wb_fd = -1,
     wb_map = False, wb_have_platform = False, wb_platform = 0, wb_log = []\<rparr>"

definition wdb_reset :: "wdb \<Rightarrow> wdb" where
  "wdb_reset b = b\<lparr>wb_map := False, wb_fd := -1, wb_have_platform := False\<rparr>"

definition wdb_set_path :: "bytes option \<Rightarrow> wdb \<Rightarrow> wdb" where
  "wdb_set_path binder_path b =
     (case binder_path of
        None \<Rightarrow> b
      | Some p \<Rightarrow>
          if wb_path b = takeWhile (\<lambda>x. x \<noteq> 0) p then b
          else (wdb_reset b)\<lparr>wb_path := path_copy p\<rparr>)"

section \<open>The kernel's answers\<close>

record br_reply =
  rp_ptr :: u64
  rp_data :: bytes
  rp_offsets :: "u64 list"
  rp_handle_at :: "u64 \<Rightarrow> u32 option"
  rp_status_code :: bool

datatype br_cmd = BR_Short | BR_DeadReply | BR_FailedReply | BR_FrozenReply | BR_Transaction u64
  | BR_Reply br_reply | BR_Noop

datatype read_answer = ReadAgain | ReadFailed | ReadCmds "br_cmd list"

datatype poll_answer = PollIntr | PollTimeout | PollFailed | PollIn read_answer

record binder_env =
  be_open :: int
  be_version :: bool
  be_mmap :: bool
  be_write :: bool
  be_start :: int
  be_steps :: "nat \<Rightarrow> int \<times> poll_answer"

definition wdb_connect :: "binder_env \<Rightarrow> wdb \<Rightarrow> int \<times> wdb" where
  "wdb_connect e b =
     (if wb_fd b \<ge> 0 then (WDB_OK, b)
      else if wb_path b = [] then (WDB_EOPEN, b)
      else if be_open e < 0 then (WDB_EOPEN, b)
      else if \<not> be_version e then (WDB_EPROTO, b)
      else if \<not> be_mmap e then (WDB_EOPEN, b)
      else (WDB_OK, b\<lparr>wb_fd := be_open e, wb_map := True\<rparr>))"

definition bwr_write :: "bc_cmd list \<Rightarrow> wdb \<Rightarrow> wdb" where
  "bwr_write cmds b = b\<lparr>wb_log := wb_log b @ cmds\<rparr>"

definition free_buffer :: "u64 \<Rightarrow> wdb \<Rightarrow> wdb" where
  "free_buffer ptr b = bwr_write [BC_FreeBuffer ptr] b"

section \<open>One transaction\<close>

record txn =
  tx_rc :: int
  tx_reply :: wdb_parcel
  tx_object :: "u32 option"
  tx_wdb :: wdb

definition failed :: "int \<Rightarrow> wdb \<Rightarrow> txn" where
  "failed rc b = \<lparr>tx_rc = rc, tx_reply = wdb_parcel_init, tx_object = None, tx_wdb = b\<rparr>"

definition FLAT_BINDER_OBJECT_SIZE :: u64 where "FLAT_BINDER_OBJECT_SIZE = 24"

text \<open>The copy of the reply's data into a fresh parcel.\<close>

definition copy_reply :: "(nat \<Rightarrow> bool) \<Rightarrow> bytes \<Rightarrow> (int \<times> wdb_parcel) option" where
  "copy_reply alloc d =
     (if length d > WDB_MAX_REPLY then Some (WDB_EPROTO, wdb_parcel_init)
      else if d = [] then Some (WDB_OK, wdb_parcel_init)
      else (case parcel_grow alloc (length d) wdb_parcel_init of
              (None, p) \<Rightarrow> Some (WDB_ENOMEM, p)
            | (Some at, p) \<Rightarrow> map_option (Pair WDB_OK) (poke at d p)))"

text \<open>The first binder handle of the reply, if the caller asked for it.\<close>

definition reply_object :: "bool \<Rightarrow> br_reply \<Rightarrow> u32 option" where
  "reply_object want r =
     (case rp_offsets r of
        [] \<Rightarrow> None
      | off # _ \<Rightarrow>
          if want \<and> off + FLAT_BINDER_OBJECT_SIZE \<le> of_nat (length (rp_data r)) then rp_handle_at r off
          else None)"

definition handle_reply :: "(nat \<Rightarrow> bool) \<Rightarrow> bool \<Rightarrow> br_reply \<Rightarrow> wdb \<Rightarrow> txn option" where
  "handle_reply alloc want r b = do {
     (result, reply) \<leftarrow> copy_reply alloc (rp_data r);
     let object = (if result = WDB_OK then reply_object want r else None);
     let b = (case object of None \<Rightarrow> b | Some h \<Rightarrow> bwr_write [BC_IncRefs h, BC_Acquire h] b);
     let b = free_buffer (rp_ptr r) b;
     Some (if result \<noteq> WDB_OK
           then \<lparr>tx_rc = result, tx_reply = wdb_parcel_free reply, tx_object = None, tx_wdb = b\<rparr>
           else if rp_status_code r
           then \<lparr>tx_rc = WDB_EPROTO, tx_reply = wdb_parcel_free reply, tx_object = object, tx_wdb = b\<rparr>
           else \<lparr>tx_rc = WDB_OK, tx_reply = reply, tx_object = object, tx_wdb = b\<rparr>)}"

text \<open>
  The commands of one read: a result (\<open>Inl\<close>) ends the call, otherwise the wait goes on with the
  connection (\<open>Inr\<close>).
\<close>

fun read_cmds :: "(nat \<Rightarrow> bool) \<Rightarrow> bool \<Rightarrow> br_cmd list \<Rightarrow> wdb \<Rightarrow> (txn + wdb) option" where
  "read_cmds alloc want [] b = Some (Inr b)"
| "read_cmds alloc want (BR_Short # cs) b = Some (Inl (failed WDB_EPROTO (wdb_reset b)))"
| "read_cmds alloc want (BR_DeadReply # cs) b = Some (Inl (failed WDB_EDEAD (wdb_reset b)))"
| "read_cmds alloc want (BR_FailedReply # cs) b = Some (Inl (failed WDB_EPROTO (wdb_reset b)))"
| "read_cmds alloc want (BR_FrozenReply # cs) b = Some (Inl (failed WDB_EPROTO (wdb_reset b)))"
| "read_cmds alloc want (BR_Transaction ptr # cs) b = read_cmds alloc want cs (free_buffer ptr b)"
| "read_cmds alloc want (BR_Reply r # cs) b = map_option Inl (handle_reply alloc want r b)"
| "read_cmds alloc want (BR_Noop # cs) b = read_cmds alloc want cs b"

fun wait_reply :: "nat \<Rightarrow> (nat \<Rightarrow> bool) \<Rightarrow> bool \<Rightarrow> int \<Rightarrow> (nat \<Rightarrow> int \<times> poll_answer) \<Rightarrow> nat \<Rightarrow> wdb \<Rightarrow> txn option" where
  "wait_reply 0 alloc want deadline steps k b = None"
| "wait_reply (Suc fuel) alloc want deadline steps k b =
     (if deadline - fst (steps k) \<le> 0 then Some (failed WDB_ETIMEDOUT (wdb_reset b))
      else (case snd (steps k) of
              PollIntr \<Rightarrow> wait_reply fuel alloc want deadline steps (Suc k) b
            | PollTimeout \<Rightarrow> Some (failed WDB_ETIMEDOUT (wdb_reset b))
            | PollFailed \<Rightarrow> Some (failed WDB_EDEAD (wdb_reset b))
            | PollIn ReadAgain \<Rightarrow> wait_reply fuel alloc want deadline steps (Suc k) b
            | PollIn ReadFailed \<Rightarrow> Some (failed WDB_EDEAD (wdb_reset b))
            | PollIn (ReadCmds cs) \<Rightarrow>
                (case read_cmds alloc want cs b of
                   None \<Rightarrow> None
                 | Some (Inl r) \<Rightarrow> Some r
                 | Some (Inr b') \<Rightarrow> wait_reply fuel alloc want deadline steps (Suc k) b')))"

text \<open>\<open>alloc\<close> and \<open>fuel\<close> are shared by all calls; \<open>want\<close> is \<open>object != NULL\<close>.\<close>

definition transact ::
  "nat \<Rightarrow> (nat \<Rightarrow> bool) \<Rightarrow> binder_env \<Rightarrow> u32 \<Rightarrow> u32 \<Rightarrow> wdb_parcel option \<Rightarrow> int \<Rightarrow> bool \<Rightarrow> wdb \<Rightarrow> txn option" where
  "transact fuel alloc e handle code req timeout_ms want b =
     (case req of
        None \<Rightarrow> Some (failed WDB_EINVAL b)
      | Some q \<Rightarrow>
          if pl_error q \<noteq> 0 then Some (failed (pl_error q) b)
          else (case wdb_connect e b of (rc, b1) \<Rightarrow>
                  if rc \<noteq> WDB_OK then Some (failed rc b1)
                  else if \<not> be_write e then Some (failed WDB_EDEAD (wdb_reset b1))
                  else wait_reply fuel alloc want
                         (be_start e + (if timeout_ms > 0 then timeout_ms else 1)) (be_steps e) 0
                         (bwr_write [BC_Transaction handle code (pl_data q)] b1)))"

definition wdb_transact ::
  "nat \<Rightarrow> (nat \<Rightarrow> bool) \<Rightarrow> binder_env \<Rightarrow> u32 \<Rightarrow> u32 \<Rightarrow> wdb_parcel option \<Rightarrow> int \<Rightarrow> wdb option \<Rightarrow> (int \<times> wdb_parcel \<times> wdb option) option" where
  "wdb_transact fuel alloc e handle code request timeout_ms bo =
     (case bo of
        None \<Rightarrow> Some (WDB_EINVAL, wdb_parcel_init, None)
      | Some b \<Rightarrow> map_option (\<lambda>r. (tx_rc r, tx_reply r, Some (tx_wdb r)))
                    (transact fuel alloc e handle code request timeout_ms False b))"

section \<open>Lookups and platform calls\<close>

definition SM_LOOKUP :: u32 where "SM_LOOKUP = 2"
definition WDB_MAX_LIST :: int where "WDB_MAX_LIST = 4096"
definition IFACE_SERVICE_MANAGER :: bytes where
  "IFACE_SERVICE_MANAGER = c_string ''android.os.IServiceManager''"
definition IFACE_PLATFORM :: bytes where "IFACE_PLATFORM = c_string ''lineageos.waydroid.IPlatform''"
definition SERVICE_PLATFORM :: bytes where "SERVICE_PLATFORM = c_string ''waydroidplatform''"

definition wdb_get_service ::
  "nat \<Rightarrow> (nat \<Rightarrow> bool) \<Rightarrow> binder_env \<Rightarrow> bytes option \<Rightarrow> int \<Rightarrow> wdb \<Rightarrow> (int \<times> u32 option \<times> wdb) option" where
  "wdb_get_service fuel alloc e name timeout_ms b =
     (if name = None then Some (WDB_EINVAL, None, b)
      else do {
        req \<leftarrow> wdb_put_token alloc IFACE_SERVICE_MANAGER wdb_parcel_init;
        req \<leftarrow> wdb_put_str16 alloc name req;
        r \<leftarrow> transact fuel alloc e 0 SM_LOOKUP (Some req) timeout_ms True b;
        Some (if tx_rc r \<noteq> WDB_OK then tx_rc r else if tx_object r \<noteq> None then WDB_OK else WDB_ENOSERVICE,
              tx_object r, tx_wdb r)})"

text \<open>
  What the outside answers during one \<open>platform_call\<close>: the readings of the clock, and the
  kernel's answers for the lookup and the call of each attempt.
\<close>

record call_env =
  ce_fuel :: nat
  ce_alloc :: "nat \<Rightarrow> bool"
  ce_clock :: "nat \<Rightarrow> int"
  ce_lookup :: "nat \<Rightarrow> binder_env"
  ce_call :: "nat \<Rightarrow> binder_env"

definition at_least_one :: "int \<Rightarrow> int" where
  "at_least_one left = (if left > 0 then left else 1)"

text \<open>The lookup of one attempt, when no handle is cached.\<close>

definition platform_lookup :: "call_env \<Rightarrow> nat \<Rightarrow> int \<Rightarrow> wdb \<Rightarrow> (int \<times> wdb) option" where
  "platform_lookup e attempt deadline b =
     (if wb_have_platform b then Some (WDB_OK, b)
      else do {
        (rc, h, b1) \<leftarrow> wdb_get_service (ce_fuel e) (ce_alloc e) (ce_lookup e attempt) (Some SERVICE_PLATFORM)
           (at_least_one (deadline - ce_clock e (2 * attempt + 1))) b;
        Some (rc, let b2 = (case h of None \<Rightarrow> b1 | Some h \<Rightarrow> b1\<lparr>wb_platform := h\<rparr>)
                  in if rc \<noteq> WDB_OK then b2 else b2\<lparr>wb_have_platform := True\<rparr>)})"

text \<open>\<open>for (int attempt = 0; attempt < 2; attempt++)\<close>; \<open>left\<close> counts the attempts left.\<close>

fun platform_attempts :: "nat \<Rightarrow> call_env \<Rightarrow> u32 \<Rightarrow> wdb_parcel \<Rightarrow> int \<Rightarrow> int \<times> wdb_parcel \<times> wdb
    \<Rightarrow> (int \<times> wdb_parcel \<times> wdb) option" where
  "platform_attempts 0 e code req deadline (rc, rep, b) = Some (rc, rep, b)"
| "platform_attempts (Suc left) e code req deadline (rc, rep, b) = do {
     let attempt = 2 - Suc left;
     (rc, b) \<leftarrow> platform_lookup e attempt deadline b;
     if rc \<noteq> WDB_OK then Some (rc, rep, b)
     else do {
       r \<leftarrow> transact (ce_fuel e) (ce_alloc e) (ce_call e attempt) (wb_platform b) code (Some req)
              (at_least_one (deadline - ce_clock e (2 * attempt + 2))) False b;
       if tx_rc r \<noteq> WDB_EDEAD then Some (tx_rc r, tx_reply r, tx_wdb r)
       else platform_attempts left e code req deadline (tx_rc r, wdb_parcel_free (tx_reply r), tx_wdb r)}}"

text \<open>\<open>None\<close> for the connection is the null pointer.\<close>

definition platform_call ::
  "call_env \<Rightarrow> u32 \<Rightarrow> wdb_parcel \<Rightarrow> int \<Rightarrow> wdb option \<Rightarrow> (int \<times> wdb_parcel \<times> wdb option) option" where
  "platform_call e code req timeout_ms bo =
     (case bo of
        None \<Rightarrow> Some (WDB_EINVAL, wdb_parcel_init, None)
      | Some b \<Rightarrow> do {
          (rc, rep, b) \<leftarrow> platform_attempts 2 e code req (ce_clock e 0 + timeout_ms) (WDB_OK, wdb_parcel_init, b);
          if rc \<noteq> WDB_OK then Some (rc, rep, Some b)
          else (case wdb_get_i32 rep of (ex, rep) \<Rightarrow>
                  if pl_error rep \<noteq> 0 then Some (WDB_EPROTO, wdb_parcel_init, Some b)
                  else if ex \<noteq> 0 then Some (WDB_EREMOTE, wdb_parcel_init, Some b)
                  else Some (WDB_OK, rep, Some b))})"

section \<open>A call returns\<close>

lemma poke_fresh: "pl_data p = replicate (length d) 0 \<Longrightarrow> poke 0 d p = Some (p\<lparr>pl_data := d\<rparr>)"
  by (simp add: poke_def)

text \<open>The copy of a reply never leaves the parcel, and on success holds exactly the reply.\<close>

lemma copy_reply_some:
  obtains (copied) p where "copy_reply alloc d = Some (WDB_OK, p)" "parcel_inv p" "pl_data p = d" "pl_pos p = 0"
      "pl_error p = 0"
  | (refused) rc p where "copy_reply alloc d = Some (rc, p)" "rc = WDB_EPROTO \<or> rc = WDB_ENOMEM"
proof -
  consider "length d > WDB_MAX_REPLY" | "d = []" | "length d \<le> WDB_MAX_REPLY" "d \<noteq> []" by fastforce
  then show thesis
  proof cases
    case 1
    then show ?thesis by (intro refused) (auto simp: copy_reply_def)
  next
    case 2
    then show ?thesis
      by (intro copied [of wdb_parcel_init]) (simp_all add: copy_reply_def parcel_inv_def wdb_parcel_init_def)
  next
    case 3
    show ?thesis
    proof (cases rule: parcel_grow_cases [of alloc "length d" wdb_parcel_init])
      case (fails err)
      with 3 show ?thesis by (intro refused) (auto simp: copy_reply_def)
    next
      case (grows cap)
      let ?p = "wdb_parcel_init\<lparr>pl_cap := cap, pl_data := pl_data wdb_parcel_init @ replicate (length d) 0\<rparr>"
      have "poke (length (pl_data wdb_parcel_init)) d ?p = Some (?p\<lparr>pl_data := d\<rparr>)"
        by (simp add: wdb_parcel_init_def poke_fresh)
      with 3 grows show ?thesis
        by (intro copied [of "?p\<lparr>pl_data := d\<rparr>"])
          (simp_all add: copy_reply_def parcel_inv_def wdb_parcel_init_def)
    qed
  qed
qed

definition disconnected :: "wdb \<Rightarrow> bool" where
  "disconnected b \<longleftrightarrow> wb_fd b = -1 \<and> \<not> wb_map b \<and> \<not> wb_have_platform b"

lemma reset_disconnected [simp]: "disconnected (wdb_reset b)" "wb_log (wdb_reset b) = wb_log b"
  by (simp_all add: disconnected_def wdb_reset_def)

definition refs_of :: "u32 option \<Rightarrow> bc_cmd list" where
  "refs_of obj = (case obj of None \<Rightarrow> [] | Some h \<Rightarrow> [BC_IncRefs h, BC_Acquire h])"

text \<open>
  How a call can end once its transaction is written: with the connection closed, or with a reply
  whose handle was referenced before its buffer was given back. \<open>frees\<close> are the buffers of stray
  transactions.
\<close>

definition same_conn :: "wdb \<Rightarrow> wdb \<Rightarrow> bool" where
  "same_conn b b' \<longleftrightarrow> b' = b\<lparr>wb_log := wb_log b'\<rparr>"

definition answered :: "br_reply \<Rightarrow> wdb \<Rightarrow> txn \<Rightarrow> bool" where
  "answered rp b r \<longleftrightarrow> same_conn b (tx_wdb r) \<and> (\<exists>frees. wb_log (tx_wdb r) =
     wb_log b @ map BC_FreeBuffer frees @ refs_of (tx_object r) @ [BC_FreeBuffer (rp_ptr rp)]) \<and>
     (tx_rc r = WDB_OK \<longrightarrow> pl_data (tx_reply r) = rp_data rp \<and> pl_pos (tx_reply r) = 0 \<and>
        pl_error (tx_reply r) = 0 \<and> parcel_inv (tx_reply r)) \<and>
     tx_rc r \<in> {WDB_OK, WDB_EPROTO, WDB_ENOMEM}"

definition closed_end :: "wdb \<Rightarrow> txn \<Rightarrow> bool" where
  "closed_end b r \<longleftrightarrow> disconnected (tx_wdb r) \<and> tx_object r = None \<and>
     tx_rc r \<in> {WDB_EDEAD, WDB_EPROTO, WDB_ETIMEDOUT} \<and>
     (\<exists>frees. wb_log (tx_wdb r) = wb_log b @ map BC_FreeBuffer frees)"

lemma handle_reply_answers: "\<exists>r. handle_reply alloc want rp b = Some r \<and> answered rp b r"
proof (cases rule: copy_reply_some [of alloc "rp_data rp"])
  case (copied p)
  then show ?thesis
    by (cases "reply_object want rp")
      (auto simp: handle_reply_def Let_def answered_def refs_of_def same_conn_def bwr_write_def free_buffer_def)
next
  case (refused rc p)
  then show ?thesis
    by (auto simp: handle_reply_def Let_def answered_def refs_of_def same_conn_def bwr_write_def free_buffer_def)
qed

lemma failed_closed [simp]:
  "rc \<in> {WDB_EDEAD, WDB_EPROTO, WDB_ETIMEDOUT} \<Longrightarrow> closed_end b (failed rc (wdb_reset b))"
  by (auto simp: closed_end_def failed_def)

text \<open>Only buffers of stray transactions are freed while the wait goes on.\<close>

definition waits :: "wdb \<Rightarrow> wdb \<Rightarrow> bool" where
  "waits b b' \<longleftrightarrow> same_conn b b' \<and> (\<exists>frees. wb_log b' = wb_log b @ map BC_FreeBuffer frees)"

lemma waits_refl: "waits b b"
  by (simp add: waits_def same_conn_def exI [of _ "[]"])

lemma free_buffer_waits: "waits b (free_buffer ptr b)"
  by (auto simp: waits_def same_conn_def free_buffer_def bwr_write_def intro: exI [of _ "[ptr]"])

lemma same_conn_trans: "same_conn b b' \<Longrightarrow> same_conn b' c \<Longrightarrow> same_conn b c"
  by (cases b; cases b'; cases c) (simp add: same_conn_def)

lemma waits_log:
  assumes "waits b b'" "wb_log c = wb_log b' @ map BC_FreeBuffer gs @ rest"
  shows "\<exists>fs. wb_log c = wb_log b @ map BC_FreeBuffer fs @ rest"
proof -
  from assms(1) obtain fs where "wb_log b' = wb_log b @ map BC_FreeBuffer fs" by (auto simp: waits_def)
  with assms(2) show ?thesis by (intro exI [of _ "fs @ gs"]) simp
qed

lemma waits_ends:
  assumes "waits b b'"
  shows "waits b' c \<Longrightarrow> waits b c" "answered rp b' r \<Longrightarrow> answered rp b r" "closed_end b' r \<Longrightarrow> closed_end b r"
proof -
  have s: "same_conn b' c \<Longrightarrow> same_conn b c" for c
    using assms by (auto simp: waits_def intro: same_conn_trans)
  have log: "\<exists>gs. wb_log c = wb_log b' @ map BC_FreeBuffer gs \<Longrightarrow> \<exists>fs. wb_log c = wb_log b @ map BC_FreeBuffer fs" for c
    using waits_log [OF assms, where rest = "[]" and c = c] by auto
  show "waits b' c \<Longrightarrow> waits b c" unfolding waits_def using s log by metis
  show "answered rp b' r \<Longrightarrow> answered rp b r"
    unfolding answered_def using s waits_log [OF assms, where c = "tx_wdb r"] by metis
  show "closed_end b' r \<Longrightarrow> closed_end b r" unfolding closed_end_def using log by metis
qed

lemma read_cmds_ends:
  obtains (goes_on) b' where "read_cmds alloc want cs b = Some (Inr b')" "waits b b'"
  | (closes) r where "read_cmds alloc want cs b = Some (Inl r)" "closed_end b r"
  | (answers) r rp where "read_cmds alloc want cs b = Some (Inl r)" "BR_Reply rp \<in> set cs" "answered rp b r"
proof -
  have "(\<exists>b'. read_cmds alloc want cs b = Some (Inr b') \<and> waits b b') \<or>
      (\<exists>r. read_cmds alloc want cs b = Some (Inl r) \<and> closed_end b r) \<or>
      (\<exists>r rp. read_cmds alloc want cs b = Some (Inl r) \<and> BR_Reply rp \<in> set cs \<and> answered rp b r)"
  proof (induction alloc want cs b rule: read_cmds.induct)
    case (6 alloc want ptr cs b)
    then show ?case using waits_ends [OF free_buffer_waits [of b ptr]] by (simp del: ex_simps) blast
  next
    case (7 alloc want r cs b)
    then show ?case using handle_reply_answers [of alloc want r b] by auto
  qed (auto simp: waits_refl)
  with that show thesis by blast
qed

text \<open>Both ends of the wait at once: it comes to an end, and how.\<close>

definition replied :: "(nat \<Rightarrow> int \<times> poll_answer) \<Rightarrow> wdb \<Rightarrow> txn \<Rightarrow> bool" where
  "replied steps b r \<longleftrightarrow> (\<exists>j t cs rp. steps j = (t, PollIn (ReadCmds cs)) \<and> BR_Reply rp \<in> set cs \<and> answered rp b r)"

lemma wait_reply_ends:
  "wait_reply fuel alloc want deadline steps k b = Some r \<Longrightarrow> closed_end b r \<or> replied steps b r"
proof (induction fuel arbitrary: k b)
  case (Suc fuel)
  obtain t a where st: "steps k = (t, a)" by (cases "steps k")
  have again: "wait_reply fuel alloc want deadline steps (Suc k) b' = Some r \<Longrightarrow> waits b b' \<Longrightarrow>
      closed_end b r \<or> replied steps b r" for b'
    using Suc.IH [of "Suc k" b'] waits_ends unfolding replied_def by blast
  show ?case
  proof (cases "deadline - t \<le> 0")
    case True
    with Suc.prems st show ?thesis by auto
  next
    case False
    consider "a = PollIntr \<or> a = PollIn ReadAgain" | "a = PollTimeout \<or> a = PollFailed \<or> a = PollIn ReadFailed"
      | cs where "a = PollIn (ReadCmds cs)" by (cases a; metis read_answer.exhaust)
    then show ?thesis
    proof cases
      case 1
      with Suc.prems st False again [OF _ waits_refl] show ?thesis by auto
    next
      case 2
      with Suc.prems st False show ?thesis by auto
    next
      case (3 cs)
      show ?thesis
      proof (cases rule: read_cmds_ends [of alloc want cs b])
        case (goes_on b')
        with Suc.prems st False 3 again [of b'] show ?thesis by simp
      next
        case (closes r')
        with Suc.prems st False 3 show ?thesis by simp
      next
        case (answers r' rp)
        with Suc.prems st False 3 show ?thesis unfolding replied_def by auto
      qed
    qed
  qed
qed simp

lemma wait_reply_returns:
  "fst (steps (k + n)) \<ge> deadline \<Longrightarrow> n < fuel \<Longrightarrow> \<exists>r. wait_reply fuel alloc want deadline steps k b = Some r"
proof (induction fuel arbitrary: k n b)
  case (Suc fuel)
  show ?case
  proof (cases "deadline - fst (steps k) \<le> 0")
    case False
    with Suc.prems obtain m where m: "n = Suc m" by (cases n) auto
    with Suc.prems have again: "\<exists>r. wait_reply fuel alloc want deadline steps (Suc k) b' = Some r" for b'
      by (intro Suc.IH [of "Suc k" m]) auto
    have "\<exists>r. (case read_cmds alloc want cs b of None \<Rightarrow> None | Some (Inl r) \<Rightarrow> Some r
        | Some (Inr b') \<Rightarrow> wait_reply fuel alloc want deadline steps (Suc k) b') = Some r" for cs
      by (cases rule: read_cmds_ends [of alloc want cs b]) (simp_all add: again)
    with False again show ?thesis by (auto split: poll_answer.split read_answer.split)
  qed simp
qed simp

definition deadline_of :: "binder_env \<Rightarrow> int \<Rightarrow> int" where
  "deadline_of e timeout_ms = be_start e + at_least_one timeout_ms"

lemmas transact_unfold = transact_def at_least_one_def deadline_of_def

lemma connect_cases:
  obtains (kept) rc where "wdb_connect e b = (rc, b)" "rc \<noteq> WDB_OK" "rc \<in> {WDB_EOPEN, WDB_EPROTO}" "wb_fd b < 0"
  | (opened) b1 where "wdb_connect e b = (WDB_OK, b1)" "wb_log b1 = wb_log b" "wb_fd b1 \<ge> 0"
      "wb_have_platform b1 = wb_have_platform b" "wb_map b1 = (wb_map b \<or> wb_fd b < 0)" "wb_path b1 = wb_path b"
  by (cases "wb_fd b \<ge> 0"; cases "wb_path b = []"; cases "be_open e < 0"; cases "be_version e"; cases "be_mmap e")
    (simp_all add: wdb_connect_def)

text \<open>
  How a call can end: refused before anything was written, closed, or replied to.
\<close>

lemma transact_cases:
  assumes "transact fuel alloc e handle code req timeout_ms want b = Some r"
  obtains (refused) rc where "r = failed rc b" "rc \<noteq> WDB_OK"
      "rc \<in> {WDB_EINVAL, WDB_EOPEN, WDB_EPROTO} \<or> (\<exists>q. req = Some q \<and> rc = pl_error q)"
  | (dead) b1 where "r = failed WDB_EDEAD (wdb_reset b1)" "wdb_connect e b = (WDB_OK, b1)"
  | (sent) q b1 where "req = Some q" "pl_error q = 0" "wdb_connect e b = (WDB_OK, b1)"
      "closed_end (bwr_write [BC_Transaction handle code (pl_data q)] b1) r \<or>
       replied (be_steps e) (bwr_write [BC_Transaction handle code (pl_data q)] b1) r"
proof -
  consider "req = None" | q where "req = Some q" "pl_error q \<noteq> 0" | q where "req = Some q" "pl_error q = 0"
    by (cases req) auto
  then show thesis
  proof cases
    case 1
    with assms show ?thesis by (intro refused [of WDB_EINVAL]) (simp_all add: transact_unfold)
  next
    case (2 q)
    with assms show ?thesis by (intro refused [of "pl_error q"]) (simp_all add: transact_unfold)
  next
    case (3 q)
    show ?thesis
    proof (cases rule: connect_cases [of e b])
      case (kept rc)
      with 3 assms show ?thesis by (intro refused [of rc]) (simp_all add: transact_unfold)
    next
      case (opened b1)
      show ?thesis
      proof (cases "be_write e")
        case True
        with 3 assms opened have "wait_reply fuel alloc want (deadline_of e timeout_ms) (be_steps e) 0
            (bwr_write [BC_Transaction handle code (pl_data q)] b1) = Some r" by (simp add: transact_unfold)
        from wait_reply_ends [OF this] sent [OF 3 opened(1)] show ?thesis by blast
      next
        case False
        with 3 assms opened show ?thesis by (intro dead [of b1]) (simp_all add: transact_unfold)
      qed
    qed
  qed
qed

lemma transact_some:
  assumes "fst (be_steps e k) \<ge> deadline_of e timeout_ms" "k < fuel"
  shows "\<exists>r. transact fuel alloc e handle code req timeout_ms want b = Some r"
proof -
  have "\<exists>r. wait_reply fuel alloc want (deadline_of e timeout_ms) (be_steps e) 0 b' = Some r" for b'
    using wait_reply_returns [where k = 0 and n = k and steps = "be_steps e"] assms by simp
  then show ?thesis by (auto simp: transact_unfold split: option.split prod.split)
qed


definition quiet_env :: binder_env where
  "quiet_env = \<lparr>be_open = 3, be_version = True, be_mmap = True, be_write = True, be_start = 0,
     be_steps = (\<lambda>k. (10 * int k, PollIntr))\<rparr>"


text \<open>
  C4: No late reply. After a call the connection is closed, or nothing was written at all, or the
  transaction was answered by a reply read from the driver: the open connection never carries an
  unanswered transaction, so a reply can only belong to the call that waits for it. A handle taken
  from the reply is referenced before the buffer holding the kernel's only reference is freed, and
  that buffer is freed exactly once, as the last thing written.
\<close>

theorem transact_answered_or_closed:
  assumes "transact fuel alloc e handle code (Some q) timeout_ms want b = Some r"
  shows "disconnected (tx_wdb r) \<or> tx_wdb r = b \<or>
    (\<exists>j t cs rp frees. be_steps e j = (t, PollIn (ReadCmds cs)) \<and> BR_Reply rp \<in> set cs \<and>
       wb_log (tx_wdb r) = wb_log b @ [BC_Transaction handle code (pl_data q)] @ map BC_FreeBuffer frees
         @ refs_of (tx_object r) @ [BC_FreeBuffer (rp_ptr rp)] \<and>
       (tx_rc r = WDB_OK \<longrightarrow> pl_data (tx_reply r) = rp_data rp))"
  using assms
proof (cases rule: transact_cases)
  case (refused rc)
  then show ?thesis by (simp add: failed_def)
next
  case (dead b1)
  then show ?thesis by (simp add: failed_def)
next
  case (sent q' b1)
  have "wb_log b1 = wb_log b" using connect_cases [of e b] sent(3) by (metis Pair_inject)
  with sent show ?thesis
    by (fastforce simp: closed_end_def replied_def answered_def bwr_write_def)
qed

definition lookup_reply :: br_reply where
  "lookup_reply = \<lparr>rp_ptr = 0x1000, rp_data = replicate 24 0, rp_offsets = [0], rp_handle_at = (\<lambda>_. Some 7),
     rp_status_code = False\<rparr>"

definition lookup_env :: binder_env where
  "lookup_env = quiet_env\<lparr>be_steps := (\<lambda>k. (10 * int k,
     if k = 1 then PollIn (ReadCmds [BR_Noop, BR_Transaction 0x2000, BR_Reply lookup_reply]) else PollIntr))\<rparr>"

text \<open>An interrupted poll, then a stray transaction in front of the reply.\<close>

theorem transact_answered_or_closed_witness:
  "\<exists>r j t cs rp frees. transact 3 (\<lambda>_. True) lookup_env 0 2 (Some wdb_parcel_init) 500 True (wdb_new (Some [0x2F])) = Some r \<and>
     tx_object r = Some 7 \<and> be_steps lookup_env j = (t, PollIn (ReadCmds cs)) \<and> BR_Reply rp \<in> set cs \<and>
     wb_log (tx_wdb r) = [BC_Transaction 0 2 []] @ map BC_FreeBuffer frees
       @ [BC_IncRefs 7, BC_Acquire 7] @ [BC_FreeBuffer (rp_ptr rp)]"
proof -
  let ?b = "wdb_new (Some [0x2F])"
  obtain r where r: "transact 3 (\<lambda>_. True) lookup_env 0 2 (Some wdb_parcel_init) 500 True ?b = Some r"
      "tx_object r = Some 7" "wb_fd (tx_wdb r) = 3"
  proof -
    obtain p where "copy_reply (\<lambda>_. True) (rp_data lookup_reply) = Some (WDB_OK, p)"
      by (auto simp: copy_reply_def lookup_reply_def parcel_grow_def wdb_parcel_init_def new_cap_def
          grow_cap.simps poke_def WDB_MAX_REPLY_def)
    moreover have "reply_object True lookup_reply = Some 7"
      by (simp add: reply_object_def lookup_reply_def FLAT_BINDER_OBJECT_SIZE_def)
    ultimately have h: "\<exists>r. handle_reply (\<lambda>_. True) True lookup_reply b = Some r \<and> tx_object r = Some 7 \<and>
        wb_fd (tx_wdb r) = wb_fd b" for b
      by (simp add: handle_reply_def Let_def free_buffer_def bwr_write_def)
    let ?c = "free_buffer 0x2000 (bwr_write [BC_Transaction 0 2 []] (?b\<lparr>wb_fd := 3, wb_map := True\<rparr>))"
    have "transact 3 (\<lambda>_. True) lookup_env 0 2 (Some wdb_parcel_init) 500 True ?b =
        handle_reply (\<lambda>_. True) True lookup_reply ?c"
      using h [of ?c] by (auto simp: transact_unfold numeral_3_eq_3 wdb_connect_def lookup_env_def
        quiet_env_def wdb_new_def path_copy_def wdb_parcel_init_def)
    moreover have "wb_fd ?c = 3" by (simp add: free_buffer_def bwr_write_def)
    ultimately show ?thesis using h [of ?c] that by metis
  qed
  have "\<not> disconnected (tx_wdb r)" "tx_wdb r \<noteq> ?b" "wb_log ?b = []" "pl_data wdb_parcel_init = []"
    using r(3) by (auto simp: disconnected_def wdb_new_def wdb_parcel_init_def)
  moreover have "refs_of (tx_object r) = [BC_IncRefs 7, BC_Acquire 7]" by (simp add: r(2) refs_of_def)
  ultimately show ?thesis using transact_answered_or_closed [OF r(1)] r by (metis append_Nil)
qed

end
