(* ===== verification/Wd_Platform.thy ===== *)
theory Wd_Platform
  imports Wd_Binder
begin

text \<open>
  The calls of \<open>IPlatform\<close> (\<open>waydroid/binder/wdbinder.c\<close> from \<open>platform_request\<close> on), one definition
  per function. A C string is \<open>None\<close> for the null pointer or its bytes with the NUL. Each call
  returns its code, the value stored through its out parameter (\<open>None\<close> if nothing was stored) and
  the connection; the whole result is \<open>None\<close> only if a copy left its buffer or the fuel ran out.
\<close>

section \<open>Requests\<close>

definition platform_request :: "(nat \<Rightarrow> bool) \<Rightarrow> wdb_parcel option" where
  "platform_request alloc = wdb_put_token alloc IFACE_PLATFORM wdb_parcel_init"

definition finish :: "wdb_parcel \<Rightarrow> int" where
  "finish rep = (if pl_error rep \<noteq> 0 then WDB_EPROTO else WDB_OK)"

definition PLATFORM_GETPROP :: u32 where "PLATFORM_GETPROP = 1"
definition PLATFORM_SETPROP :: u32 where "PLATFORM_SETPROP = 2"
definition PLATFORM_GET_APPS_INFO :: u32 where "PLATFORM_GET_APPS_INFO = 3"
definition PLATFORM_INSTALL_APP :: u32 where "PLATFORM_INSTALL_APP = 5"
definition PLATFORM_REMOVE_APP :: u32 where "PLATFORM_REMOVE_APP = 6"
definition PLATFORM_LAUNCH_APP :: u32 where "PLATFORM_LAUNCH_APP = 7"
definition PLATFORM_GET_APP_NAME :: u32 where "PLATFORM_GET_APP_NAME = 8"
definition PLATFORM_SETTINGS_PUT_STRING :: u32 where "PLATFORM_SETTINGS_PUT_STRING = 9"
definition PLATFORM_SETTINGS_GET_STRING :: u32 where "PLATFORM_SETTINGS_GET_STRING = 10"
definition PLATFORM_SETTINGS_PUT_INT :: u32 where "PLATFORM_SETTINGS_PUT_INT = 11"
definition PLATFORM_SETTINGS_GET_INT :: u32 where "PLATFORM_SETTINGS_GET_INT = 12"
definition PLATFORM_LAUNCH_INTENT :: u32 where "PLATFORM_LAUNCH_INTENT = 13"

section \<open>Calls\<close>

definition wdb_platform_getprop ::
  "call_env \<Rightarrow> bytes option \<Rightarrow> bytes option \<Rightarrow> int \<Rightarrow> wdb option \<Rightarrow> (int \<times> bytes option option \<times> wdb option) option" where
  "wdb_platform_getprop e key dflt timeout_ms b = do {
     req \<leftarrow> platform_request (ce_alloc e);
     req \<leftarrow> wdb_put_str16 (ce_alloc e) key req;
     req \<leftarrow> wdb_put_str16 (ce_alloc e) (Some (case dflt of None \<Rightarrow> [0] | Some d \<Rightarrow> d)) req;
     (rc, rep, b) \<leftarrow> platform_call e PLATFORM_GETPROP req timeout_ms b;
     if rc \<noteq> WDB_OK then Some (rc, None, b)
     else (case wdb_get_str16 (ce_alloc e) rep of (v, rep) \<Rightarrow> Some (finish rep, Some v, b))}"

definition wdb_platform_setprop ::
  "call_env \<Rightarrow> bytes option \<Rightarrow> bytes option \<Rightarrow> int \<Rightarrow> wdb option \<Rightarrow> (int \<times> wdb option) option" where
  "wdb_platform_setprop e key val timeout_ms b = do {
     req \<leftarrow> platform_request (ce_alloc e);
     req \<leftarrow> wdb_put_str16 (ce_alloc e) key req;
     req \<leftarrow> wdb_put_str16 (ce_alloc e) val req;
     (rc, rep, b) \<leftarrow> platform_call e PLATFORM_SETPROP req timeout_ms b;
     Some (if rc \<noteq> WDB_OK then rc else finish rep, b)}"

definition call_str_to_int ::
  "call_env \<Rightarrow> u32 \<Rightarrow> bytes option \<Rightarrow> int \<Rightarrow> wdb option \<Rightarrow> (int \<times> u32 option \<times> wdb option) option" where
  "call_str_to_int e code arg timeout_ms b = do {
     req \<leftarrow> platform_request (ce_alloc e);
     req \<leftarrow> wdb_put_str16 (ce_alloc e) arg req;
     (rc, rep, b) \<leftarrow> platform_call e code req timeout_ms b;
     if rc \<noteq> WDB_OK then Some (rc, None, b)
     else (case wdb_get_i32 rep of (v, rep) \<Rightarrow> Some (finish rep, Some v, b))}"

definition wdb_platform_install_app ::
  "call_env \<Rightarrow> bytes option \<Rightarrow> int \<Rightarrow> wdb option \<Rightarrow> (int \<times> u32 option \<times> wdb option) option" where
  "wdb_platform_install_app e path_in_container timeout_ms b =
     call_str_to_int e PLATFORM_INSTALL_APP path_in_container timeout_ms b"

definition wdb_platform_remove_app ::
  "call_env \<Rightarrow> bytes option \<Rightarrow> int \<Rightarrow> wdb option \<Rightarrow> (int \<times> u32 option \<times> wdb option) option" where
  "wdb_platform_remove_app e package timeout_ms b = call_str_to_int e PLATFORM_REMOVE_APP package timeout_ms b"

definition wdb_platform_launch_app ::
  "call_env \<Rightarrow> bytes option \<Rightarrow> int \<Rightarrow> wdb option \<Rightarrow> (int \<times> wdb option) option" where
  "wdb_platform_launch_app e package timeout_ms b = do {
     req \<leftarrow> platform_request (ce_alloc e);
     req \<leftarrow> wdb_put_str16 (ce_alloc e) package req;
     (rc, rep, b) \<leftarrow> platform_call e PLATFORM_LAUNCH_APP req timeout_ms b;
     Some (if rc \<noteq> WDB_OK then rc else finish rep, b)}"

definition wdb_platform_app_name ::
  "call_env \<Rightarrow> bytes option \<Rightarrow> int \<Rightarrow> wdb option \<Rightarrow> (int \<times> bytes option option \<times> wdb option) option" where
  "wdb_platform_app_name e package timeout_ms b = do {
     req \<leftarrow> platform_request (ce_alloc e);
     req \<leftarrow> wdb_put_str16 (ce_alloc e) package req;
     (rc, rep, b) \<leftarrow> platform_call e PLATFORM_GET_APP_NAME req timeout_ms b;
     if rc \<noteq> WDB_OK then Some (rc, None, b)
     else (case wdb_get_str16 (ce_alloc e) rep of (v, rep) \<Rightarrow> Some (finish rep, Some v, b))}"

definition wdb_platform_settings_put_string ::
  "call_env \<Rightarrow> u32 \<Rightarrow> bytes option \<Rightarrow> bytes option \<Rightarrow> int \<Rightarrow> wdb option \<Rightarrow> (int \<times> wdb option) option" where
  "wdb_platform_settings_put_string e ns key val timeout_ms b = do {
     req \<leftarrow> platform_request (ce_alloc e);
     req \<leftarrow> wdb_put_i32 (ce_alloc e) ns req;
     req \<leftarrow> wdb_put_str16 (ce_alloc e) key req;
     req \<leftarrow> wdb_put_str16 (ce_alloc e) val req;
     (rc, rep, b) \<leftarrow> platform_call e PLATFORM_SETTINGS_PUT_STRING req timeout_ms b;
     Some (if rc \<noteq> WDB_OK then rc else finish rep, b)}"

definition wdb_platform_settings_get_string ::
  "call_env \<Rightarrow> u32 \<Rightarrow> bytes option \<Rightarrow> int \<Rightarrow> wdb option \<Rightarrow> (int \<times> bytes option option \<times> wdb option) option" where
  "wdb_platform_settings_get_string e ns key timeout_ms b = do {
     req \<leftarrow> platform_request (ce_alloc e);
     req \<leftarrow> wdb_put_i32 (ce_alloc e) ns req;
     req \<leftarrow> wdb_put_str16 (ce_alloc e) key req;
     (rc, rep, b) \<leftarrow> platform_call e PLATFORM_SETTINGS_GET_STRING req timeout_ms b;
     if rc \<noteq> WDB_OK then Some (rc, None, b)
     else (case wdb_get_str16 (ce_alloc e) rep of (v, rep) \<Rightarrow> Some (finish rep, Some v, b))}"

definition wdb_platform_settings_put_int ::
  "call_env \<Rightarrow> u32 \<Rightarrow> bytes option \<Rightarrow> u32 \<Rightarrow> int \<Rightarrow> wdb option \<Rightarrow> (int \<times> wdb option) option" where
  "wdb_platform_settings_put_int e ns key val timeout_ms b = do {
     req \<leftarrow> platform_request (ce_alloc e);
     req \<leftarrow> wdb_put_i32 (ce_alloc e) ns req;
     req \<leftarrow> wdb_put_str16 (ce_alloc e) key req;
     req \<leftarrow> wdb_put_i32 (ce_alloc e) val req;
     (rc, rep, b) \<leftarrow> platform_call e PLATFORM_SETTINGS_PUT_INT req timeout_ms b;
     Some (if rc \<noteq> WDB_OK then rc else finish rep, b)}"

definition wdb_platform_settings_get_int ::
  "call_env \<Rightarrow> u32 \<Rightarrow> bytes option \<Rightarrow> int \<Rightarrow> wdb option \<Rightarrow> (int \<times> u32 option \<times> wdb option) option" where
  "wdb_platform_settings_get_int e ns key timeout_ms b = do {
     req \<leftarrow> platform_request (ce_alloc e);
     req \<leftarrow> wdb_put_i32 (ce_alloc e) ns req;
     req \<leftarrow> wdb_put_str16 (ce_alloc e) key req;
     (rc, rep, b) \<leftarrow> platform_call e PLATFORM_SETTINGS_GET_INT req timeout_ms b;
     if rc \<noteq> WDB_OK then Some (rc, None, b)
     else (case wdb_get_i32 rep of (v, rep) \<Rightarrow> Some (finish rep, Some v, b))}"

definition wdb_platform_launch_intent ::
  "call_env \<Rightarrow> bytes option \<Rightarrow> bytes option \<Rightarrow> int \<Rightarrow> wdb option \<Rightarrow> (int \<times> wdb option) option" where
  "wdb_platform_launch_intent e action uri timeout_ms b = do {
     req \<leftarrow> platform_request (ce_alloc e);
     req \<leftarrow> wdb_put_str16 (ce_alloc e) action req;
     req \<leftarrow> wdb_put_str16 (ce_alloc e) uri req;
     (rc, rep, b) \<leftarrow> platform_call e PLATFORM_LAUNCH_INTENT req timeout_ms b;
     Some (if rc \<noteq> WDB_OK then rc else finish rep, b)}"

section \<open>The list of apps\<close>

record wdb_app =
  ap_name :: "bytes option"
  ap_package :: "bytes option"
  ap_activity :: "bytes option"

text \<open>\<open>for (k = 0; k < cats && !rep.error; k++) free(wdb_get_str16(&rep));\<close>\<close>

fun skip_strings :: "(nat \<Rightarrow> bool) \<Rightarrow> nat \<Rightarrow> wdb_parcel \<Rightarrow> wdb_parcel" where
  "skip_strings alloc 0 rep = rep"
| "skip_strings alloc (Suc k) rep =
     (if pl_error rep \<noteq> 0 then rep else skip_strings alloc k (snd (wdb_get_str16 alloc rep)))"

text \<open>One entry after its marker.\<close>

definition read_app :: "(nat \<Rightarrow> bool) \<Rightarrow> wdb_parcel \<Rightarrow> wdb_app \<times> wdb_parcel" where
  "read_app alloc rep =
     (case wdb_get_str16 alloc rep of (name, rep) \<Rightarrow>
      case wdb_get_str16 alloc rep of (package, rep) \<Rightarrow>
      case wdb_get_str16 alloc rep of (action, rep) \<Rightarrow>
      case wdb_get_str16 alloc rep of (launchIntent, rep) \<Rightarrow>
      case wdb_get_str16 alloc rep of (componentPackageName, rep) \<Rightarrow>
      case wdb_get_str16 alloc rep of (activity, rep) \<Rightarrow>
      case wdb_get_i32 rep of (cats, rep) \<Rightarrow>
        let rep = (if sint cats > WDB_MAX_LIST then rep\<lparr>pl_error := WDB_EPROTO\<rparr> else rep)
        in (\<lparr>ap_name = name, ap_package = package, ap_activity = activity\<rparr>,
            skip_strings alloc (nat (sint cats)) rep))"

text \<open>The loop; \<open>out\<close> is the part of the array in use.\<close>

fun read_apps :: "(nat \<Rightarrow> bool) \<Rightarrow> nat \<Rightarrow> wdb_app list \<Rightarrow> wdb_parcel \<Rightarrow> wdb_app list \<times> wdb_parcel" where
  "read_apps alloc 0 out rep = (out, rep)"
| "read_apps alloc (Suc n) out rep =
     (if pl_error rep \<noteq> 0 then (out, rep)
      else (case wdb_get_i32 rep of (marker, rep) \<Rightarrow>
              if marker = 0 then read_apps alloc n out rep
              else (case read_app alloc rep of (a, rep) \<Rightarrow>
                      read_apps alloc n
                        (if pl_error rep = 0 \<and> ap_package a \<noteq> None then out @ [a] else out) rep)))"

definition SIZEOF_WDB_APP :: nat where "SIZEOF_WDB_APP = 24"

definition read_list :: "(nat \<Rightarrow> bool) \<Rightarrow> wdb_parcel \<Rightarrow> int \<times> wdb_app list" where
  "read_list alloc rep =
     (case wdb_get_i32 rep of (n, rep) \<Rightarrow>
        if pl_error rep \<noteq> 0 \<or> sint n < 0 \<or> sint n > WDB_MAX_LIST then (WDB_EPROTO, [])
        else if \<not> alloc ((if unat n > 0 then unat n else 1) * SIZEOF_WDB_APP) then (WDB_ENOMEM, [])
        else (case read_apps alloc (unat n) [] rep of (out, rep) \<Rightarrow>
                if pl_error rep \<noteq> 0 then (WDB_EPROTO, []) else (WDB_OK, out)))"

definition wdb_platform_list_apps ::
  "call_env \<Rightarrow> int \<Rightarrow> wdb option \<Rightarrow> (int \<times> wdb_app list \<times> wdb option) option" where
  "wdb_platform_list_apps e timeout_ms b = do {
     req \<leftarrow> platform_request (ce_alloc e);
     (rc, rep, b) \<leftarrow> platform_call e PLATFORM_GET_APPS_INFO req timeout_ms b;
     if rc \<noteq> WDB_OK then Some (rc, [], b)
     else (case read_list (ce_alloc e) rep of (rc, apps) \<Rightarrow> Some (rc, apps, b))}"

section \<open>The connection across calls\<close>

text \<open>A cached handle only ever belongs to an open connection.\<close>

definition wdb_inv :: "wdb \<Rightarrow> bool" where
  "wdb_inv b \<longleftrightarrow> disconnected b \<or> wb_fd b \<ge> 0 \<and> wb_map b"

fun calls :: "bc_cmd list \<Rightarrow> (u32 \<times> u32) list" where
  "calls (BC_Transaction h c d # cs) = (h, c) # calls cs"
| "calls (_ # cs) = calls cs"
| "calls [] = []"

lemma calls_append [simp]: "calls (xs @ ys) = calls xs @ calls ys"
  by (induction xs rule: calls.induct) auto

lemma calls_quiet [simp]: "calls (map BC_FreeBuffer fs) = []" "calls (refs_of obj) = []"
  by (induction fs) (auto simp: refs_of_def split: option.split)

lemma connect_inv: "wdb_inv b \<Longrightarrow> wdb_connect e b = (WDB_OK, b1) \<Longrightarrow> wdb_inv b1 \<and> wb_fd b1 \<ge> 0 \<and>
    wb_log b1 = wb_log b \<and> wb_have_platform b1 = wb_have_platform b"
  by (cases rule: connect_cases [of e b]) (auto simp: wdb_inv_def disconnected_def)

text \<open>What one transaction does to the connection.\<close>

definition txn_effect :: "u32 \<Rightarrow> u32 \<Rightarrow> wdb \<Rightarrow> txn \<Rightarrow> (u32 \<times> u32) list \<Rightarrow> bool" where
  "txn_effect handle code b r c \<longleftrightarrow> wdb_inv (tx_wdb r) \<and> calls (wb_log (tx_wdb r)) = calls (wb_log b) @ c \<and>
     (c = [] \<or> c = [(handle, code)]) \<and> (tx_rc r = WDB_OK \<longrightarrow> c = [(handle, code)] \<and> wb_fd (tx_wdb r) \<ge> 0) \<and>
     (tx_rc r = WDB_EDEAD \<longrightarrow> disconnected (tx_wdb r)) \<and>
     (tx_rc r = WDB_OK \<longrightarrow> wb_have_platform (tx_wdb r) = wb_have_platform b \<and>
        pl_error (tx_reply r) = 0 \<and> parcel_inv (tx_reply r))"

lemma transact_effect:
  assumes "transact fuel alloc e handle code (Some q) timeout_ms want b = Some r" "wdb_inv b" "pl_error q \<noteq> WDB_EDEAD"
  shows "\<exists>c. txn_effect handle code b r c"
  using assms(1)
proof (cases rule: transact_cases)
  case (refused rc)
  with assms show ?thesis by (intro exI [of _ "[]"]) (auto simp: txn_effect_def failed_def)
next
  case (dead b1)
  with connect_inv [OF assms(2) dead(2)] show ?thesis
    by (intro exI [of _ "[]"]) (auto simp: txn_effect_def failed_def wdb_inv_def)
next
  case (sent q' b1)
  let ?b = "bwr_write [BC_Transaction handle code (pl_data q')] b1"
  note inv = connect_inv [OF assms(2) sent(3)]
  from sent(4) have "txn_effect handle code b r [(handle, code)]"
  proof
    assume "closed_end ?b r"
    with inv show ?thesis by (auto simp: txn_effect_def closed_end_def bwr_write_def wdb_inv_def)
  next
    assume "replied (be_steps e) ?b r"
    then obtain rp where a: "answered rp ?b r" by (auto simp: replied_def)
    then obtain l where l: "tx_wdb r = b1\<lparr>wb_log := l\<rparr>"
      by (auto simp: answered_def same_conn_def bwr_write_def)
    from a inv have "calls l = calls (wb_log b) @ [(handle, code)]"
      by (auto simp: answered_def bwr_write_def l)
    with a inv show ?thesis
      by (auto simp: txn_effect_def answered_def l wdb_inv_def disconnected_def)
  qed
  then show ?thesis ..
qed

text \<open>A request only ever fails for want of space; it never claims a dead peer.\<close>

definition req_ok :: "wdb_parcel \<Rightarrow> bool" where
  "req_ok p \<longleftrightarrow> parcel_inv p \<and> pl_error p \<in> {0, WDB_EINVAL, WDB_ENOMEM}"

lemma parcel_grow_error: "parcel_grow alloc n p = (at, p') \<Longrightarrow> pl_error p' \<in> {pl_error p, WDB_EINVAL, WDB_ENOMEM}"
  by (auto simp: parcel_grow_def Let_def split: if_splits)

lemma poke_error: "poke at w p = Some p' \<Longrightarrow> pl_error p' = pl_error p"
  by (auto simp: poke_def split: if_splits)

lemma write_units_error: "write_units s at p = Some p' \<Longrightarrow> pl_error p' = pl_error p"
proof (induction s at p arbitrary: p' rule: write_units.induct)
  case (1 s at p)
  note w = 1(2) [unfolded write_units.simps [of s at p]]
  show ?case
  proof (cases s)
    case Nil
    with w show ?thesis by simp
  next
    case (Cons b t)
    show ?thesis
    proof (cases "b = 0")
      case True
      with w Cons show ?thesis by simp
    next
      case False
      with w Cons obtain cp s' p1 where n: "utf8_next s = Some (cp, s')"
          "poke at (units_bytes (units_of cp)) p = Some p1" "write_units s' (at + 2 * length (units_of cp)) p1 = Some p'"
        by (auto split: option.splits prod.splits simp del: utf8_next.simps)
      with 1(1) [OF Cons False n(1) refl n(2,3)] poke_error [OF n(2)] show ?thesis by simp
    qed
  qed
qed

lemma put_i32_error:
  assumes "wdb_put_i32 alloc v p = Some p'"
  shows "pl_error p' \<in> {pl_error p, WDB_EINVAL, WDB_ENOMEM}"
proof -
  obtain at p1 where g: "parcel_grow alloc 4 p = (at, p1)" by (cases "parcel_grow alloc 4 p")
  then have "pl_error p' = pl_error p1"
    using assms poke_error by (cases at) (auto simp: wdb_put_i32_def)
  with parcel_grow_error [OF g] show ?thesis by simp
qed

lemma put_str16_error:
  assumes "wdb_put_str16 alloc s p = Some p'"
  shows "pl_error p' \<in> {pl_error p, WDB_EINVAL, WDB_ENOMEM}"
proof (cases s)
  case None
  with assms put_i32_error show ?thesis by (simp add: wdb_put_str16_def)
next
  case (Some t)
  with assms obtain n where n: "count_units t 0 = Some n" by (auto simp: wdb_put_str16_def split: option.splits)
  show ?thesis
  proof (cases "n > WDB_MAX_REPLY div 4")
    case True
    with assms Some n show ?thesis by (auto simp: wdb_put_str16_def)
  next
    case False
    with assms Some n obtain p1 where i: "wdb_put_i32 alloc (of_nat n) p = Some p1"
      by (auto simp: wdb_put_str16_def split: option.splits)
    obtain at p2 where g: "parcel_grow alloc (str16_size n) p1 = (at, p2)"
      by (cases "parcel_grow alloc (str16_size n) p1")
    have "pl_error p' = pl_error p2"
      using assms Some n False i g write_units_error by (cases at) (auto simp: wdb_put_str16_def)
    with put_i32_error [OF i] parcel_grow_error [OF g] show ?thesis by auto
  qed
qed

definition c_str :: "bytes option \<Rightarrow> bool" where
  "c_str s \<longleftrightarrow> (case s of None \<Rightarrow> True | Some t \<Rightarrow> 0 \<in> set t)"

lemma put_i32_req: "req_ok p \<Longrightarrow> \<exists>p'. wdb_put_i32 alloc v p = Some p' \<and> req_ok p'"
  using put_i32_result [of p alloc v] put_i32_error [of alloc v p] by (auto simp: req_ok_def put_result_def)

lemma put_str16_req: "c_str s \<Longrightarrow> req_ok p \<Longrightarrow> \<exists>p'. wdb_put_str16 alloc s p = Some p' \<and> req_ok p'"
proof (cases s)
  case None
  then show "req_ok p \<Longrightarrow> ?thesis" using put_i32_req by (simp add: wdb_put_str16_def)
next
  case (Some t)
  then show "c_str s \<Longrightarrow> req_ok p \<Longrightarrow> ?thesis"
    using put_str16_result [of t p alloc] put_str16_error [of alloc s p]
    by (auto simp: req_ok_def put_result_def c_str_def)
qed

lemma put_token_req:
  assumes "0 \<in> set iface" "req_ok p"
  shows "\<exists>p'. wdb_put_token alloc iface p = Some p' \<and> req_ok p'"
proof -
  from put_i32_req [OF assms(2)] obtain p1 where p1: "wdb_put_i32 alloc 0x80000000 p = Some p1" "req_ok p1" by blast
  from put_i32_req [OF p1(2)] obtain p2 where p2: "wdb_put_i32 alloc (-1) p1 = Some p2" "req_ok p2" by blast
  from put_i32_req [OF p2(2)] obtain p3 where p3: "wdb_put_i32 alloc 0x53595354 p2 = Some p3" "req_ok p3" by blast
  have "c_str (Some iface)" using assms(1) by (simp add: c_str_def)
  from put_str16_req [OF this p3(2)] show ?thesis by (simp add: wdb_put_token_def p1 p2 p3)
qed

lemma req_ok_init [simp]: "req_ok wdb_parcel_init"
  by (simp add: req_ok_def parcel_inv_init) (simp add: wdb_parcel_init_def)

lemma c_str_const [simp]: "c_str None" "c_str (Some (c_string s))" "0 \<in> set (c_string s)"
  by (simp_all add: c_str_def c_string_def)

lemma platform_request_req: "\<exists>p. platform_request alloc = Some p \<and> req_ok p"
  unfolding platform_request_def IFACE_PLATFORM_def by (rule put_token_req) simp_all

section \<open>Lookup and retry\<close>

abbreviation lookup_call :: "u32 \<times> u32" where
  "lookup_call \<equiv> (0, SM_LOOKUP)"

lemma get_service_request:
  "c_str name \<Longrightarrow> \<exists>q req. wdb_put_token alloc IFACE_SERVICE_MANAGER wdb_parcel_init = Some q \<and>
     wdb_put_str16 alloc name q = Some req \<and> req_ok req"
  using put_token_req [of IFACE_SERVICE_MANAGER wdb_parcel_init alloc] put_str16_req [of name]
  by (fastforce simp: IFACE_SERVICE_MANAGER_def)

text \<open>What a lookup does to the connection.\<close>

definition lookup_effect :: "wdb \<Rightarrow> int \<Rightarrow> wdb \<Rightarrow> (u32 \<times> u32) list \<Rightarrow> bool" where
  "lookup_effect b rc b' l \<longleftrightarrow> wdb_inv b' \<and> calls (wb_log b') = calls (wb_log b) @ l \<and> (l = [] \<or> l = [lookup_call]) \<and>
     (rc = WDB_OK \<longrightarrow> wb_have_platform b' \<and> (\<not> wb_have_platform b \<longrightarrow> l = [lookup_call]))"

lemma platform_lookup_effect:
  assumes "platform_lookup e attempt deadline b = Some (rc, b')" "wdb_inv b"
  shows "\<exists>l. lookup_effect b rc b' l"
proof (cases "wb_have_platform b")
  case True
  with assms show ?thesis by (intro exI [of _ "[]"]) (auto simp: platform_lookup_def lookup_effect_def)
next
  case False
  obtain q req where q: "wdb_put_token (ce_alloc e) IFACE_SERVICE_MANAGER wdb_parcel_init = Some q"
      "wdb_put_str16 (ce_alloc e) (Some SERVICE_PLATFORM) q = Some req" "req_ok req"
    using get_service_request [of "Some SERVICE_PLATFORM" "ce_alloc e"] unfolding SERVICE_PLATFORM_def by auto
  with assms(1) False obtain r where
    r: "transact (ce_fuel e) (ce_alloc e) (ce_lookup e attempt) 0 SM_LOOKUP (Some req)
          (at_least_one (deadline - ce_clock e (2 * attempt + 1))) True b = Some r" and
    rc: "rc = (if tx_rc r \<noteq> WDB_OK then tx_rc r else if tx_object r \<noteq> None then WDB_OK else WDB_ENOSERVICE)" and
    b': "b' = (let b2 = (case tx_object r of None \<Rightarrow> tx_wdb r | Some h \<Rightarrow> (tx_wdb r)\<lparr>wb_platform := h\<rparr>)
               in if rc \<noteq> WDB_OK then b2 else b2\<lparr>wb_have_platform := True\<rparr>)"
    by (auto simp: platform_lookup_def wdb_get_service_def bind_eq_Some_conv)
  from q(3) have "pl_error req \<noteq> WDB_EDEAD" by (auto simp: req_ok_def)
  from transact_effect [OF r assms(2) this] obtain c where "txn_effect 0 SM_LOOKUP b r c" ..
  then show ?thesis
    by (intro exI [of _ c])
      (auto simp: txn_effect_def lookup_effect_def rc b' Let_def wdb_inv_def disconnected_def split: option.split if_splits)
qed

text \<open>What one attempt does: a lookup if no handle is cached, then the call.\<close>

definition attempt_effect :: "u32 \<Rightarrow> wdb \<Rightarrow> wdb \<Rightarrow> (u32 \<times> u32) list \<Rightarrow> (u32 \<times> u32) list \<Rightarrow> bool" where
  "attempt_effect code b b' l c \<longleftrightarrow> wdb_inv b' \<and> calls (wb_log b') = calls (wb_log b) @ l @ c \<and>
     (l = [] \<or> l = [lookup_call]) \<and> (c = [] \<or> (\<exists>h. c = [(h, code)])) \<and>
     (c \<noteq> [] \<and> \<not> wb_have_platform b \<longrightarrow> l = [lookup_call])"

lemma platform_attempt:
  assumes "platform_attempts (Suc n) e code req deadline (rc0, rep0, b) = Some (rc, rep, b')" "wdb_inv b"
    "pl_error req \<noteq> WDB_EDEAD"
  obtains (ends) l c where "attempt_effect code b b' l c" "rc = WDB_OK \<longrightarrow> pl_error rep = 0 \<and> parcel_inv rep"
  | (again) l c b1 rep1 where "attempt_effect code b b1 l c" "disconnected b1"
      "platform_attempts n e code req deadline (WDB_EDEAD, rep1, b1) = Some (rc, rep, b')"
proof -
  let ?a = "2 - Suc n"
  from assms(1) obtain rc1 b1 where lk: "platform_lookup e ?a deadline b = Some (rc1, b1)"
    by (auto simp: bind_eq_Some_conv Let_def)
  from platform_lookup_effect [OF this assms(2)] obtain l where l: "lookup_effect b rc1 b1 l" ..
  show thesis
  proof (cases "rc1 = WDB_OK")
    case False
    with assms(1) lk l show ?thesis by (intro ends [of l "[]"]) (auto simp: attempt_effect_def lookup_effect_def)
  next
    case True
    with assms(1) lk obtain r where
      r: "transact (ce_fuel e) (ce_alloc e) (ce_call e ?a) (wb_platform b1) code (Some req)
            (at_least_one (deadline - ce_clock e (2 * ?a + 2))) False b1 = Some r" and
      k: "(if tx_rc r \<noteq> WDB_EDEAD then Some (tx_rc r, tx_reply r, tx_wdb r)
           else platform_attempts n e code req deadline (tx_rc r, wdb_parcel_free (tx_reply r), tx_wdb r)) = Some (rc, rep, b')"
      by (auto simp: bind_eq_Some_conv Let_def)
    from l have "wdb_inv b1" by (simp add: lookup_effect_def)
    from transact_effect [OF r this assms(3)] obtain c where c: "txn_effect (wb_platform b1) code b1 r c" ..
    from c l True have eff: "attempt_effect code b (tx_wdb r) l c"
      by (auto simp: attempt_effect_def txn_effect_def lookup_effect_def)
    show ?thesis
    proof (cases "tx_rc r = WDB_EDEAD")
      case True
      with k c eff show ?thesis by (intro again) (auto simp: txn_effect_def)
    next
      case False
      with k c eff show ?thesis by (intro ends) (auto simp: txn_effect_def)
    qed
  qed
qed

lemma platform_attempts_two:
  assumes "platform_attempts 2 e code req deadline (rc0, rep0, b) = Some (rc, rep, b')" "wdb_inv b"
    "pl_error req \<noteq> WDB_EDEAD"
  obtains (once) l c where "attempt_effect code b b' l c" "rc = WDB_OK \<longrightarrow> pl_error rep = 0 \<and> parcel_inv rep"
  | (twice) l c b1 l' c' where "attempt_effect code b b1 l c" "disconnected b1" "attempt_effect code b1 b' l' c'"
      "rc = WDB_OK \<longrightarrow> pl_error rep = 0 \<and> parcel_inv rep"
  using assms [unfolded numeral_2_eq_2]
proof (cases rule: platform_attempt)
  case (ends l c)
  with once show ?thesis by blast
next
  case (again l c b1 rep1)
  from again(1) have "wdb_inv b1" by (simp add: attempt_effect_def)
  from again(3) this assms(3) show ?thesis
  proof (cases rule: platform_attempt)
    case (ends l' c')
    with again twice show ?thesis by blast
  next
    case second: (again l' c' b2 rep2)
    then have "b' = b2" "rc \<noteq> WDB_OK" by auto
    with again second twice show ?thesis by blast
  qed
qed

lemma attempt_bounds:
  assumes "attempt_effect code b b' l c"
  shows "length l \<le> 1" "length c \<le> 1" "set l \<subseteq> {lookup_call}" "\<forall>(h, k) \<in> set c. k = code"
    "c \<noteq> [] \<and> \<not> wb_have_platform b \<longrightarrow> l = [lookup_call]"
  using assms unfolding attempt_effect_def by auto

lemma platform_call_attempts:
  assumes "platform_call e code req timeout_ms (Some b) = Some (rc, rep, bo)"
  obtains rc1 rep1 b' where "bo = Some b'"
    "platform_attempts 2 e code req (ce_clock e 0 + timeout_ms) (WDB_OK, wdb_parcel_init, b) = Some (rc1, rep1, b')"
    "rc = WDB_OK \<longrightarrow> rc1 = WDB_OK \<and> rep = snd (wdb_get_i32 rep1) \<and> fst (wdb_get_i32 rep1) = 0 \<and> pl_error rep = 0"
  using assms that
  by (fastforce simp: platform_call_def bind_eq_Some_conv split: if_splits prod.splits)

text \<open>
  C29: A stale handle is never used twice. However the driver answers, one platform call writes at
  most two transactions with its code; the second one is preceded, on a new connection, by a fresh
  lookup of the service, and so is the first one when no handle is cached. The connection is left
  consistent: a cached handle belongs to an open, mapped connection. A successful call leaves the
  reply readable behind a zero exception code.
\<close>

theorem platform_call_retries_once:
  assumes "platform_call e code req timeout_ms (Some b) = Some (rc, rep, Some b')"
    and "wdb_inv b" "pl_error req \<noteq> WDB_EDEAD"
  shows "wdb_inv b' \<and> (rc = WDB_OK \<longrightarrow> pl_error rep = 0 \<and> parcel_inv rep) \<and>
    (\<exists>l c l' c'. calls (wb_log b') = calls (wb_log b) @ l @ c @ l' @ c' \<and>
       length c \<le> 1 \<and> length c' \<le> 1 \<and> (\<forall>(h, k) \<in> set (c @ c'). k = code) \<and>
       set (l @ l') \<subseteq> {lookup_call} \<and> length l \<le> 1 \<and> length l' \<le> 1 \<and>
       (c' \<noteq> [] \<longrightarrow> l' = [lookup_call]) \<and> (c \<noteq> [] \<and> \<not> wb_have_platform b \<longrightarrow> l = [lookup_call]))"
proof -
  obtain rc1 rep1 where a: "platform_attempts 2 e code req (ce_clock e 0 + timeout_ms) (WDB_OK, wdb_parcel_init, b) =
        Some (rc1, rep1, b')"
      and ok: "rc = WDB_OK \<longrightarrow> rc1 = WDB_OK \<and> rep = snd (wdb_get_i32 rep1) \<and> pl_error rep = 0"
    using platform_call_attempts [OF assms(1)] by blast
  from a assms(2,3) show ?thesis
  proof (cases rule: platform_attempts_two)
    case (once l c)
    then have "wdb_inv b'" "calls (wb_log b') = calls (wb_log b) @ l @ c @ [] @ []"
      by (simp_all add: attempt_effect_def)
    moreover from once ok get_i32_inv [of rep1] have "rc = WDB_OK \<longrightarrow> pl_error rep = 0 \<and> parcel_inv rep" by blast
    moreover note attempt_bounds [OF once(1)]
    ultimately show ?thesis by (intro conjI exI [of _ l] exI [of _ c] exI [of _ "[]"]) simp_all
  next
    case (twice l c b1 l' c')
    then have "wdb_inv b'" "calls (wb_log b') = calls (wb_log b) @ l @ c @ l' @ c'" "\<not> wb_have_platform b1"
      by (simp_all add: attempt_effect_def disconnected_def)
    moreover from twice ok get_i32_inv [of rep1] have "rc = WDB_OK \<longrightarrow> pl_error rep = 0 \<and> parcel_inv rep" by blast
    moreover note attempt_bounds [OF twice(1)] attempt_bounds [OF twice(3)]
    ultimately show ?thesis
      by (intro conjI exI [of _ l] exI [of _ c] exI [of _ l'] exI [of _ c']) (simp_all add: ball_Un)
  qed
qed

definition stale_b :: wdb where
  "stale_b = \<lparr>wb_path = [0x2F], wb_fd = 3, wb_map = True, wb_have_platform = True, wb_platform = 9, wb_log = []\<rparr>"

definition ok_reply :: br_reply where
  "ok_reply = \<lparr>rp_ptr = 0x3000, rp_data = [0, 0, 0, 0], rp_offsets = [], rp_handle_at = (\<lambda>_. None), rp_status_code = False\<rparr>"

definition answer_env :: "br_cmd list \<Rightarrow> binder_env" where
  "answer_env cs = quiet_env\<lparr>be_steps := (\<lambda>k. (10 * int k, PollIn (ReadCmds cs)))\<rparr>"

text \<open>Android restarted: the cached handle answers dead, the new one works.\<close>

definition restart_env :: call_env where
  "restart_env = \<lparr>ce_fuel = 51, ce_alloc = (\<lambda>_. True), ce_clock = (\<lambda>_. 0),
     ce_lookup = (\<lambda>_. answer_env [BR_Reply lookup_reply]),
     ce_call = (\<lambda>attempt. answer_env [if attempt = 0 then BR_DeadReply else BR_Reply ok_reply])\<rparr>"

section \<open>Every call returns\<close>

text \<open>
  The clock does not run backwards, and in every wait it reaches the deadline within the fuel.
\<close>

definition prompt :: "call_env \<Rightarrow> int \<Rightarrow> bool" where
  "prompt e timeout_ms \<longleftrightarrow> (\<forall>n. ce_clock e 0 \<le> ce_clock e n) \<and>
     (\<forall>a. \<exists>k < ce_fuel e. fst (be_steps (ce_lookup e a) k) \<ge> deadline_of (ce_lookup e a) timeout_ms) \<and>
     (\<forall>a. \<exists>k < ce_fuel e. fst (be_steps (ce_call e a) k) \<ge> deadline_of (ce_call e a) timeout_ms)"

lemma transact_left:
  assumes "\<exists>k < fuel. fst (be_steps e k) \<ge> deadline_of e timeout_ms" "left \<le> timeout_ms"
  shows "\<exists>r. transact fuel alloc e handle code req (at_least_one left) want b = Some r"
proof -
  from assms(1) obtain k where "k < fuel" "fst (be_steps e k) \<ge> deadline_of e timeout_ms" by blast
  with assms(2) show ?thesis
    by (intro transact_some [where timeout_ms = "at_least_one left" and e = e and k = k]) (auto simp: deadline_of_def at_least_one_def split: if_splits)
qed

lemma platform_attempts_some:
  assumes "prompt e timeout_ms"
  shows "\<exists>res. platform_attempts n e code req (ce_clock e 0 + timeout_ms) st = Some res"
proof (induction n arbitrary: st)
  case (Suc n)
  let ?d = "ce_clock e 0 + timeout_ms" and ?a = "2 - Suc n"
  have left: "?d - ce_clock e m \<le> timeout_ms" for m using assms by (simp add: prompt_def)
  obtain rc rep b where st: "st = (rc, rep, b)" by (cases st)
  obtain q req' where q: "wdb_put_token (ce_alloc e) IFACE_SERVICE_MANAGER wdb_parcel_init = Some q"
      "wdb_put_str16 (ce_alloc e) (Some SERVICE_PLATFORM) q = Some req'"
    using get_service_request [of "Some SERVICE_PLATFORM" "ce_alloc e"] unfolding SERVICE_PLATFORM_def by auto
  have "\<exists>r. transact (ce_fuel e) (ce_alloc e) (ce_lookup e ?a) 0 SM_LOOKUP (Some req')
      (at_least_one (?d - ce_clock e (2 * ?a + 1))) True b = Some r"
    using assms left by (intro transact_left) (auto simp: prompt_def)
  then have "\<exists>x. platform_lookup e ?a ?d b = Some x"
    by (auto simp: platform_lookup_def wdb_get_service_def q)
  then obtain rc1 b1 where lk: "platform_lookup e ?a ?d b = Some (rc1, b1)" by auto
  have "\<exists>r. transact (ce_fuel e) (ce_alloc e) (ce_call e ?a) (wb_platform b1) code (Some req)
      (at_least_one (?d - ce_clock e (2 * ?a + 2))) False b1 = Some r"
    using assms left by (intro transact_left) (auto simp: prompt_def)
  then obtain r where r: "transact (ce_fuel e) (ce_alloc e) (ce_call e ?a) (wb_platform b1) code (Some req)
      (at_least_one (?d - ce_clock e (2 * ?a + 2))) False b1 = Some r" ..
  show ?case using Suc.IH lk r by (auto simp: st Let_def simp del: diff_Suc_Suc)
qed auto

lemma platform_call_some:
  assumes "prompt e timeout_ms"
  shows "\<exists>rc rep b'. platform_call e code req timeout_ms bo = Some (rc, rep, b')"
proof (cases bo)
  case (Some b)
  obtain rc rep b' where
    "platform_attempts 2 e code req (ce_clock e 0 + timeout_ms) (WDB_OK, wdb_parcel_init, b) = Some (rc, rep, b')"
    using platform_attempts_some [OF assms] by (metis prod_cases3)
  with Some show ?thesis by (auto simp: platform_call_def split: prod.split)
qed (simp add: platform_call_def)

lemma restart_prompt: "prompt restart_env 500"
  by (auto simp: prompt_def restart_env_def answer_env_def deadline_of_def quiet_env_def at_least_one_def
      intro!: exI [of _ 50])

theorem platform_call_retries_once_witness:
  "\<exists>rc rep b' l c l' c'. platform_call restart_env 1 wdb_parcel_init 500 (Some stale_b) = Some (rc, rep, Some b') \<and>
     wdb_inv b' \<and> calls (wb_log b') = l @ c @ l' @ c' \<and> length c \<le> 1 \<and> length c' \<le> 1"
proof -
  obtain rc rep bo where p: "platform_call restart_env 1 wdb_parcel_init 500 (Some stale_b) = Some (rc, rep, bo)"
    using platform_call_some [OF restart_prompt] by blast
  then obtain b' where b': "bo = Some b'" by (rule platform_call_attempts)
  have "wdb_inv stale_b" "pl_error wdb_parcel_init \<noteq> WDB_EDEAD" "calls (wb_log stale_b) = []"
    by (simp_all add: wdb_inv_def stale_b_def wdb_parcel_init_def)
  with platform_call_retries_once [OF p [unfolded b']] p b' show ?thesis by (metis append_Nil)
qed

text \<open>The requests of all calls, and then the calls themselves, run to their end.\<close>

lemma put_i32_step:
  "req_ok p \<Longrightarrow> (\<And>p'. req_ok p' \<Longrightarrow> \<exists>x. k p' = Some x) \<Longrightarrow> \<exists>x. Option.bind (wdb_put_i32 alloc v p) k = Some x"
  using put_i32_req [of p alloc v] by auto

lemma put_str16_step:
  "c_str s \<Longrightarrow> req_ok p \<Longrightarrow> (\<And>p'. req_ok p' \<Longrightarrow> \<exists>x. k p' = Some x) \<Longrightarrow> \<exists>x. Option.bind (wdb_put_str16 alloc s p) k = Some x"
  using put_str16_req [of s p alloc] by auto

lemma request_step:
  "(\<And>p. req_ok p \<Longrightarrow> \<exists>x. k p = Some x) \<Longrightarrow> \<exists>x. Option.bind (platform_request alloc) k = Some x"
  using platform_request_req [of alloc] by auto

lemma call_step:
  "prompt e timeout_ms \<Longrightarrow> (\<And>rc rep b'. \<exists>x. k (rc, rep, b') = Some x) \<Longrightarrow>
     \<exists>x. Option.bind (platform_call e code req timeout_ms bo) k = Some x"
  using platform_call_some [of e timeout_ms code req bo] by force

lemmas call_steps = request_step put_i32_step put_str16_step call_step

text \<open>
  Every call of the platform interface returns, with a code, whatever the strings (any
  NUL-terminated bytes, or null), the state of the connection, the allocator and the answers of the
  driver: it neither hangs nor writes outside a parcel, as long as time passes.
\<close>

lemma platform_calls_return:
  assumes "prompt e timeout_ms" "c_str s" "c_str t"
  shows "(\<exists>x. wdb_platform_getprop e s t timeout_ms b = Some x) \<and>
    (\<exists>x. wdb_platform_setprop e s t timeout_ms b = Some x) \<and>
    (\<exists>x. wdb_platform_list_apps e timeout_ms b = Some x) \<and>
    (\<exists>x. wdb_platform_install_app e s timeout_ms b = Some x) \<and>
    (\<exists>x. wdb_platform_remove_app e s timeout_ms b = Some x) \<and>
    (\<exists>x. wdb_platform_launch_app e s timeout_ms b = Some x) \<and>
    (\<exists>x. wdb_platform_app_name e s timeout_ms b = Some x) \<and>
    (\<exists>x. wdb_platform_settings_put_string e ns s t timeout_ms b = Some x) \<and>
    (\<exists>x. wdb_platform_settings_get_string e ns s timeout_ms b = Some x) \<and>
    (\<exists>x. wdb_platform_settings_put_int e ns s v timeout_ms b = Some x) \<and>
    (\<exists>x. wdb_platform_settings_get_int e ns s timeout_ms b = Some x) \<and>
    (\<exists>x. wdb_platform_launch_intent e s t timeout_ms b = Some x)"
proof -
  have d: "c_str (Some (case t of None \<Rightarrow> [0] | Some d \<Rightarrow> d))"
    using assms(3) by (cases t) (simp_all add: c_str_def)
  show ?thesis
    unfolding wdb_platform_getprop_def wdb_platform_setprop_def wdb_platform_list_apps_def
      wdb_platform_install_app_def wdb_platform_remove_app_def call_str_to_int_def wdb_platform_launch_app_def
      wdb_platform_app_name_def wdb_platform_settings_put_string_def wdb_platform_settings_get_string_def
      wdb_platform_settings_put_int_def wdb_platform_settings_get_int_def wdb_platform_launch_intent_def
    by (intro conjI; rule call_steps)
      (intro call_steps assms d; auto split: prod.split)+
qed

section \<open>The list of apps on the wire\<close>

text \<open>
  The layout the comment above \<open>wdb_platform_list_apps\<close> gives: a String16 is its UTF-16 units or null.
\<close>

type_synonym wire_string = "u16 list option"

record wire_app =
  wa_name :: wire_string
  wa_package :: wire_string
  wa_action :: wire_string
  wa_intent :: wire_string
  wa_component :: wire_string
  wa_activity :: wire_string
  wa_categories :: "wire_string list"

definition enc_wstr :: "wire_string \<Rightarrow> bytes" where
  "enc_wstr w = (case w of None \<Rightarrow> le_bytes32 (-1) | Some us \<Rightarrow> enc_str16 us)"

definition dec_wstr :: "wire_string \<Rightarrow> bytes option" where
  "dec_wstr w = map_option (\<lambda>us. concat (map utf8_encode (utf16_points us))) w"

definition wstr_ok :: "wire_string \<Rightarrow> bool" where
  "wstr_ok w \<longleftrightarrow> (case w of None \<Rightarrow> True | Some us \<Rightarrow> length us \<le> WDB_MAX_REPLY)"

definition enc_wapp :: "wire_app \<Rightarrow> bytes" where
  "enc_wapp a = enc_wstr (wa_name a) @ enc_wstr (wa_package a) @ enc_wstr (wa_action a) @ enc_wstr (wa_intent a)
     @ enc_wstr (wa_component a) @ enc_wstr (wa_activity a)
     @ le_bytes32 (of_nat (length (wa_categories a))) @ concat (map enc_wstr (wa_categories a))"

definition enc_entry :: "wire_app option \<Rightarrow> bytes" where
  "enc_entry x = (case x of None \<Rightarrow> le_bytes32 0 | Some a \<Rightarrow> le_bytes32 1 @ enc_wapp a)"

lemma enc_entry_simps [simp]: "enc_entry None = le_bytes32 0" "enc_entry (Some a) = le_bytes32 1 @ enc_wapp a"
  by (simp_all add: enc_entry_def)

definition wapp_ok :: "wire_app \<Rightarrow> bool" where
  "wapp_ok a \<longleftrightarrow> wstr_ok (wa_name a) \<and> wstr_ok (wa_package a) \<and> wstr_ok (wa_action a) \<and> wstr_ok (wa_intent a) \<and>
     wstr_ok (wa_component a) \<and> wstr_ok (wa_activity a) \<and> length (wa_categories a) \<le> 4096 \<and>
     list_all wstr_ok (wa_categories a)"

definition dec_wapp :: "wire_app \<Rightarrow> wdb_app" where
  "dec_wapp a = \<lparr>ap_name = dec_wstr (wa_name a), ap_package = dec_wstr (wa_package a),
     ap_activity = dec_wstr (wa_activity a)\<rparr>"

fun dec_entries :: "wire_app option list \<Rightarrow> wdb_app list" where
  "dec_entries [] = []"
| "dec_entries (None # xs) = dec_entries xs"
| "dec_entries (Some a # xs) = (if wa_package a = None then [] else [dec_wapp a]) @ dec_entries xs"

text \<open>The parcel stands, without error, in front of these bytes.\<close>

definition stands :: "wdb_parcel \<Rightarrow> bytes \<Rightarrow> bool" where
  "stands p w \<longleftrightarrow> pl_error p = 0 \<and> drop (pl_pos p) (pl_data p) = w"

definition ahead :: "wdb_parcel \<Rightarrow> nat \<Rightarrow> wdb_parcel" where
  "ahead p n = p\<lparr>pl_pos := pl_pos p + n\<rparr>"

lemma stands_ahead: "stands p (w @ rest) \<Longrightarrow> n = length w \<Longrightarrow> stands (ahead p n) rest"
proof -
  assume s: "stands p (w @ rest)" and n: "n = length w"
  have "drop (pl_pos p + n) (pl_data p) = drop n (drop (pl_pos p) (pl_data p))" by (simp add: add.commute)
  with s n show ?thesis by (simp add: stands_def ahead_def)
qed

lemma ahead_ahead [simp]: "ahead (ahead p m) n = ahead p (m + n)"
  by (simp add: ahead_def)

lemma stands_i32: "stands p (le_bytes32 v @ rest) \<Longrightarrow> wdb_get_i32 p = (v, ahead p 4) \<and> stands (ahead p 4) rest"
  using get_i32_at [of p v rest] stands_ahead [of p "le_bytes32 v" rest 4] by (simp add: stands_def ahead_def)

lemma stands_wstr:
  assumes "stands p (enc_wstr w @ rest)" "wstr_ok w" "roomy alloc"
  shows "wdb_get_str16 alloc p = (dec_wstr w, ahead p (length (enc_wstr w))) \<and>
    stands (ahead p (length (enc_wstr w))) rest"
proof -
  have "wdb_get_str16 alloc p = (dec_wstr w, ahead p (length (enc_wstr w)))"
  proof (cases w)
    case None
    with assms(1) stands_i32 [of p "-1" rest] show ?thesis
      by (auto simp: enc_wstr_def dec_wstr_def wdb_get_str16_def)
  next
    case (Some us)
    with assms get_str16_at [of p us rest alloc] show ?thesis
      by (auto simp: enc_wstr_def dec_wstr_def wstr_ok_def stands_def ahead_def)
  qed
  with stands_ahead [OF assms(1) refl] show ?thesis by simp
qed

lemma stands_cats:
  "stands p (concat (map enc_wstr ws) @ rest) \<Longrightarrow> list_all wstr_ok ws \<Longrightarrow> roomy alloc \<Longrightarrow>
    skip_strings alloc (length ws) p = ahead p (length (concat (map enc_wstr ws))) \<and>
    stands (ahead p (length (concat (map enc_wstr ws)))) rest"
proof (induction ws arbitrary: p)
  case Nil
  then show ?case by (simp add: ahead_def)
next
  case (Cons w ws)
  have "stands p (enc_wstr w @ concat (map enc_wstr ws) @ rest)" "wstr_ok w" using Cons.prems by simp_all
  note w = stands_wstr [OF this Cons.prems(3)]
  from Cons.prems(1) have "pl_error p = 0" by (simp add: stands_def)
  with w Cons.IH [OF conjunct2 [OF w]] Cons.prems show ?case by simp
qed

lemma count_word: "n \<le> 4096 \<Longrightarrow> sint (of_nat n :: u32) = int n \<and> unat (of_nat n :: u32) = n"
  by (simp add: signed_of_nat unat_of_nat signed_take_bit_int_eq_self)

lemma stands_app:
  assumes "stands p (enc_wapp a @ rest)" "wapp_ok a" "roomy alloc"
  shows "read_app alloc p = (dec_wapp a, ahead p (length (enc_wapp a))) \<and> stands (ahead p (length (enc_wapp a))) rest"
proof -
  note ok = assms(2) [unfolded wapp_ok_def] and s0 = assms(1) [unfolded enc_wapp_def append_assoc]
  note s1 = stands_wstr [OF s0 _ assms(3)]
  note s2 = stands_wstr [OF conjunct2 [OF s1] _ assms(3)]
  note s3 = stands_wstr [OF conjunct2 [OF s2] _ assms(3)]
  note s4 = stands_wstr [OF conjunct2 [OF s3] _ assms(3)]
  note s5 = stands_wstr [OF conjunct2 [OF s4] _ assms(3)]
  note s6 = stands_wstr [OF conjunct2 [OF s5] _ assms(3)]
  note s7 = stands_i32 [OF conjunct2 [OF s6]]
  note s8 = stands_cats [OF conjunct2 [OF s7] _ assms(3)]
  have c: "sint (of_nat (length (wa_categories a)) :: u32) = int (length (wa_categories a))"
    using ok count_word by blast
  have "\<not> sint (of_nat (length (wa_categories a)) :: u32) > WDB_MAX_LIST"
    using ok by (simp add: c WDB_MAX_LIST_def)
  with s1 s2 s3 s4 s5 s6 s7 s8 ok show ?thesis
    by (simp add: read_app_def dec_wapp_def enc_wapp_def c add.assoc)
qed

lemma stands_apps:
  "stands p (concat (map enc_entry xs) @ rest) \<Longrightarrow> list_all (\<lambda>x. case x of None \<Rightarrow> True | Some a \<Rightarrow> wapp_ok a) xs \<Longrightarrow>
    roomy alloc \<Longrightarrow> \<exists>p'. read_apps alloc (length xs) out p = (out @ dec_entries xs, p') \<and> stands p' rest"
proof (induction xs arbitrary: p out)
  case Nil
  then show ?case by simp
next
  case (Cons x xs)
  from Cons.prems(1) have e: "pl_error p = 0" by (simp add: stands_def)
  show ?case
  proof (cases x)
    case None
    with Cons.prems(1) have "stands p (le_bytes32 0 @ concat (map enc_entry xs) @ rest)" by simp
    note m = stands_i32 [OF this]
    from Cons.IH [OF conjunct2 [OF m]] Cons.prems None m e show ?thesis by simp
  next
    case (Some a)
    with Cons.prems(1) have "stands p (le_bytes32 1 @ enc_wapp a @ concat (map enc_entry xs) @ rest)"
      by simp
    note m = stands_i32 [OF this]
    from Cons.prems(2) Some have "wapp_ok a" by simp
    note r = stands_app [OF conjunct2 [OF m] this Cons.prems(3)]
    then have "pl_error (ahead (ahead p 4) (length (enc_wapp a))) = 0" by (simp add: stands_def)
    moreover have "ap_package (dec_wapp a) = None \<longleftrightarrow> wa_package a = None" by (simp add: dec_wapp_def dec_wstr_def)
    ultimately show ?thesis
      using Cons.IH [OF conjunct2 [OF r], of out] Cons.IH [OF conjunct2 [OF r], of "out @ [dec_wapp a]"] Cons.prems Some m r e
      by (cases "wa_package a") auto
  qed
qed

text \<open>
  C30: The list of apps is decoded completely and in order. For a reply that holds any list of up to
  4096 entries in the layout of the wire, null entries and null strings included, the call yields
  exactly the entries that have a package, each with its own name, package and activity as UTF-8,
  and reports success.
\<close>

theorem list_apps_decodes:
  assumes "pl_error rep = 0"
    "drop (pl_pos rep) (pl_data rep) = le_bytes32 (of_nat (length xs)) @ concat (map enc_entry xs) @ rest"
    and "length xs \<le> 4096" "list_all (\<lambda>x. case x of None \<Rightarrow> True | Some a \<Rightarrow> wapp_ok a) xs" "roomy alloc"
  shows "read_list alloc rep = (WDB_OK, dec_entries xs)"
proof -
  have "stands rep (le_bytes32 (of_nat (length xs)) @ concat (map enc_entry xs) @ rest)"
    using assms(1,2) by (simp add: stands_def)
  note n = stands_i32 [OF this]
  from stands_apps [OF conjunct2 [OF n] assms(4,5), of "[]"] obtain p' where
    p': "read_apps alloc (length xs) [] (ahead rep 4) = (dec_entries xs, p')" "pl_error p' = 0"
    by (auto simp: stands_def)
  have "alloc ((if length xs > 0 then length xs else 1) * SIZEOF_WDB_APP)"
    using assms(3,5) by (simp add: roomy_def WDB_MAX_REPLY_def SIZEOF_WDB_APP_def)
  with n p' count_word [OF assms(3)] assms(1,3) show ?thesis
    by (cases xs) (simp_all add: read_list_def WDB_MAX_LIST_def ahead_def)
qed

definition sample_apps :: "wire_app option list" where
  "sample_apps = [None, Some \<lparr>wa_name = Some [0x41], wa_package = Some [0x62], wa_action = None, wa_intent = Some [],
     wa_component = None, wa_activity = None, wa_categories = [Some [0x63], None]\<rparr>]"

theorem list_apps_decodes_witness:
  "read_list (\<lambda>_. True) \<lparr>pl_data = le_bytes32 2 @ concat (map enc_entry sample_apps), pl_cap = 256, pl_pos = 0, pl_error = 0\<rparr> =
     (WDB_OK, [\<lparr>ap_name = Some [0x41], ap_package = Some [0x62], ap_activity = None\<rparr>])"
  using list_apps_decodes [of "\<lparr>pl_data = le_bytes32 2 @ concat (map enc_entry sample_apps), pl_cap = 256, pl_pos = 0, pl_error = 0\<rparr>"
      sample_apps "[]" "\<lambda>_. True"]
  by (simp add: sample_apps_def wapp_ok_def wstr_ok_def WDB_MAX_REPLY_def roomy_def dec_wapp_def dec_wstr_def utf8_encode_def)

lemma read_apps_bound:
  "\<forall>a \<in> set out. ap_package a \<noteq> None \<Longrightarrow> read_apps alloc n out rep = (out', rep') \<Longrightarrow>
    length out' \<le> length out + n \<and> (\<forall>a \<in> set out'. ap_package a \<noteq> None)"
proof (induction n arbitrary: out rep)
  case (Suc n)
  obtain m rep1 where m: "wdb_get_i32 rep = (m, rep1)" by (cases "wdb_get_i32 rep")
  obtain a rep2 where a: "read_app alloc rep1 = (a, rep2)" by (cases "read_app alloc rep1")
  show ?case
  proof (cases "pl_error rep \<noteq> 0 \<or> m = 0")
    case True
    with Suc.prems Suc.IH [of out rep1] m show ?thesis by (auto split: if_splits)
  next
    case False
    let ?out = "if pl_error rep2 = 0 \<and> ap_package a \<noteq> None then out @ [a] else out"
    from False Suc.prems m a have "read_apps alloc n ?out rep2 = (out', rep')" by simp
    moreover have "\<forall>a \<in> set ?out. ap_package a \<noteq> None" using Suc.prems(1) by auto
    ultimately have "length out' \<le> length ?out + n \<and> (\<forall>a \<in> set out'. ap_package a \<noteq> None)" by (rule Suc.IH [rotated])
    then show ?thesis by (auto split: if_splits)
  qed
qed simp

lemma unat_nonneg: "0 \<le> sint (v :: u32) \<Longrightarrow> int (unat v) = sint v"
  using sint_lt [of v] by (simp add: uint_sint take_bit_int_eq_self)

text \<open>
  Whatever bytes the reply holds, the list read from it is bounded by the announced and checked
  count, so the array allocated for it is never overrun; every app delivered has a package; and a
  failure delivers no app at all.
\<close>

lemma list_apps_bounded:
  "case read_list alloc rep of (rc, apps) \<Rightarrow>
     int (length apps) \<le> max 0 (sint (fst (wdb_get_i32 rep))) \<and> int (length apps) \<le> WDB_MAX_LIST \<and>
     list_all (\<lambda>a. ap_package a \<noteq> None) apps \<and> (rc = WDB_OK \<or> apps = [])"
proof -
  obtain n rep1 where n: "wdb_get_i32 rep = (n, rep1)" by (cases "wdb_get_i32 rep")
  obtain out rep2 where o: "read_apps alloc (unat n) [] rep1 = (out, rep2)" by (cases "read_apps alloc (unat n) [] rep1")
  have b: "length out \<le> unat n" "list_all (\<lambda>a. ap_package a \<noteq> None) out"
    using read_apps_bound [OF _ o] by (auto simp: list_all_iff)
  show ?thesis
  proof (cases "0 \<le> sint n \<and> sint n \<le> WDB_MAX_LIST")
    case True
    then have "int (length out) \<le> sint n" using b(1) unat_nonneg [of n] by linarith
    with True b(2) show ?thesis by (auto simp: read_list_def n o WDB_MAX_LIST_def)
  next
    case False
    then show ?thesis by (auto simp: read_list_def n WDB_MAX_LIST_def)
  qed
qed

end
