(* ===== verification/Ril_Types.thy ===== *)
theory Ril_Types
  imports Prelude
begin

text \<open>
  The vocabulary of the two interfaces the vendor RIL (\<open>hardware/ril\<close>) sits between: the vendor ABI
  of \<open>hril\<close> above it and the AIDL radio HAL of the container below it. Both are declared outside
  the repository; only the names and the fields that the bridge uses appear here. An enumeration
  has a constructor for each value the code tells apart.
\<close>

section \<open>hril\<close>

datatype HReq = HREQ_MODEM_GET_IMEISV | HREQ_SMS_SEND_SMS_MORE_MODE | HREQ_OTHER int

text \<open>\<open>rq_ptr\<close> is the address: two requests are two objects even if their contents agree.\<close>

record ReqDataInfo =
  rq_ptr :: nat
  rq_slotId :: int
  rq_request :: HReq

datatype HRilErrNumber = HRIL_ERR_SUCCESS | HRIL_ERR_GENERIC_FAILURE | HRIL_ERR_INVALID_PARAMETER
  | HRIL_ERR_MODEM_DEVICE_CLOSE | HRIL_ERR_PINPUK_PASSWORD_NOCORRECT | HRIL_ERR_NEED_PIN_CODE
  | HRIL_ERR_NEED_PUK_CODE | HRIL_ERR_VENDOR_NOT_IMPLEMENT | HRIL_ERR_NO_SIMCARD_INSERTED

datatype HNoti = HNOTI_MODEM_RADIO_STATE_UPDATED | HNOTI_SIM_STATUS_CHANGED
  | HNOTI_CALL_STATE_UPDATED | HNOTI_CALL_RINGBACK_VOICE_REPORT | HNOTI_CALL_EMERGENCY_NUMBER_REPORT
  | HNOTI_CALL_USSD_REPORT | HNOTI_CALL_SS_REPORT
  | HNOTI_SMS_NEW_SMS | HNOTI_SMS_STATUS_REPORT | HNOTI_SMS_NEW_SMS_STORED_ON_SIM
  | HNOTI_NETWORK_CS_REG_STATUS_UPDATED | HNOTI_NETWORK_PS_REG_STATUS_UPDATED
  | HNOTI_NETWORK_SIGNAL_STRENGTH_UPDATED | HNOTI_NETWORK_TIME_UPDATED | HNOTI_DATA_PDP_CONTEXT_LIST_UPDATED

datatype HRilRadioPowerState = HRIL_RADIO_POWER_STATE_OFF | HRIL_RADIO_POWER_STATE_ON
  | HRIL_RADIO_POWER_STATE_UNAVAILABLE

datatype HRilSimType = HRIL_SIM_TYPE_UNKNOWN | HRIL_SIM_TYPE_SIM | HRIL_SIM_TYPE_USIM

datatype HRilSimState = HRIL_SIM_NOT_INSERTED | HRIL_SIM_NOT_READY | HRIL_SIM_READY | HRIL_SIM_PIN
  | HRIL_SIM_PUK | HRIL_PH_NET_PIN

record HRilCardState =
  cs_index :: int
  cs_simType :: HRilSimType
  cs_simState :: HRilSimState
  cs_iccid :: string

datatype HRilRadioTech = RADIO_TECHNOLOGY_UNKNOWN | RADIO_TECHNOLOGY_GSM | RADIO_TECHNOLOGY_1XRTT
  | RADIO_TECHNOLOGY_GPRS | RADIO_TECHNOLOGY_EDGE | RADIO_TECHNOLOGY_UMTS | RADIO_TECHNOLOGY_IS95A
  | RADIO_TECHNOLOGY_IS95B | RADIO_TECHNOLOGY_EVDO_0 | RADIO_TECHNOLOGY_EVDO_A | RADIO_TECHNOLOGY_EVDO_B
  | RADIO_TECHNOLOGY_HSDPA | RADIO_TECHNOLOGY_HSUPA | RADIO_TECHNOLOGY_HSPA | RADIO_TECHNOLOGY_HSPAP
  | RADIO_TECHNOLOGY_EHRPD | RADIO_TECHNOLOGY_LTE | RADIO_TECHNOLOGY_LTE_CA | RADIO_TECHNOLOGY_WCDMA
  | RADIO_TECHNOLOGY_DCHSPAP | RADIO_TECHNOLOGY_EVDO | RADIO_TECHNOLOGY_TD_SCDMA | RADIO_TECHNOLOGY_IWLAN
  | RADIO_TECHNOLOGY_NR

datatype HRilRegStatus = NO_REG_MT_NO_SEARCH | REG_MT_HOME | NO_REG_MT_SEARCHING | REG_MT_REJECTED
  | REG_MT_UNKNOWN | REG_MT_ROAMING | REG_MT_EMERGENCY

datatype HRilRegNotifyMode = REG_NOT_NOTIFY | REG_NOTIFY_STAT_ONLY | REG_NOTIFY_STAT_LAC_CELLID

record HRilRegStatusInfo =
  rs_notifyMode :: HRilRegNotifyMode
  rs_regStatus :: HRilRegStatus
  rs_lacCode :: int
  rs_cellId :: int
  rs_actType :: HRilRadioTech
  rs_isDcNrRestricted :: int
  rs_isNrAvailable :: int
  rs_isEnDcAvailable :: int

record HRilRssi =
  ri_gsm_rxlev :: int
  ri_gsm_ber :: int
  ri_wcdma_rxlev :: int
  ri_wcdma_ber :: int
  ri_wcdma_rscp :: int
  ri_wcdma_ecio :: int
  ri_cdma_rssi :: int
  ri_cdma_ecno :: int
  ri_lte_rxlev :: int
  ri_lte_rsrp :: int
  ri_lte_rsrq :: int
  ri_lte_snr :: int
  ri_tdscdma_rscp :: int
  ri_nr_rsrp :: int
  ri_nr_rsrq :: int
  ri_nr_sinr :: int

record HRilCallInfo =
  ci_index :: int
  ci_dir :: int
  ci_state :: int
  ci_voice :: bool
  ci_mpty :: int
  ci_voiceDomain :: int
  ci_callType :: int
  ci_number :: string
  ci_type :: int
  ci_alpha :: string
  ci_name :: string
  ci_namePresentation :: int

record HRilCFQueryInfo =
  cf_reason :: int
  cf_status :: int
  cf_classx :: int
  cf_type :: int
  cf_time :: int
  cf_number :: string

record HRilEmergencyInfo =
  em_index :: int
  em_total :: int
  em_eccNum :: string
  em_category :: int
  em_simpresent :: int
  em_mcc :: string
  em_abnormalService :: int

record HRilDataCallResponse =
  dc_reason :: int
  dc_retryTime :: int
  dc_cid :: int
  dc_active :: int
  dc_type :: string
  dc_netPortName :: string
  dc_address :: string
  dc_dns :: string
  dc_dnsSec :: string
  dc_gateway :: string
  dc_maxTransferUnit :: int
  dc_pCscfPrimAddr :: string
  dc_pCscfSecAddr :: string
  dc_pduSessionId :: int

record HRilSmsResponse =
  sr_msgRef :: int
  sr_pdu :: string
  sr_errCode :: int

text \<open>The payload of a report: what \<open>data\<close> and \<open>len\<close> describe.\<close>

datatype call_data = CallList "HRilCallInfo list" | ClipData int int | ClirData int int | WaitData int int
  | RestrictionData int int | CFList "HRilCFQueryInfo list" | EmergencyList "HRilEmergencyInfo list"
  | UssdData int string | SsData int int int int

datatype hril_data = NoData | StringData string | StringsData "string list" | IntData int
  | PowerData HRilRadioPowerState | VoiceRadioInfo string HRilRadioTech string
  | CardData HRilCardState | SimIOData int int string | LockData bool int
  | RegData HRilRegStatusInfo | RssiData HRilRssi
  | SmsData HRilSmsResponse | SmscData int string | PdpList "HRilDataCallResponse list" | PdpData HRilDataCallResponse
  | CallData call_data

datatype ril_part = DModem | DSim | DNetwork | DSms | DData | DCall

datatype report_type = HRIL_RESPONSE | HRIL_NOTIFICATION

text \<open>\<open>ReportInfo\<close> with the arguments of the callback it is passed to.\<close>

record hril_report =
  rp_part :: ril_part
  rp_slot :: int
  rp_requestInfo :: "ReqDataInfo option"
  rp_notifyId :: "HNoti option"
  rp_type :: report_type
  rp_error :: HRilErrNumber
  rp_payload :: hril_data

section \<open>The AIDL radio HAL\<close>

datatype RadioError = RE_NONE | RE_RADIO_NOT_AVAILABLE | RE_PASSWORD_INCORRECT | RE_SIM_PIN2 | RE_SIM_PUK2
  | RE_REQUEST_NOT_SUPPORTED | RE_SIM_ABSENT | RE_INVALID_ARGUMENTS | RE_OTHER int

record RadioResponseInfo =
  in_serial :: int
  in_error :: RadioError

datatype RadioIndicationType = UNSOLICITED | UNSOLICITED_ACK_EXP

datatype RadioState = RadioState_OFF | RadioState_ON | RadioState_OTHER

datatype AccessNetwork = AN_UNKNOWN | AN_GERAN | AN_UTRAN | AN_EUTRAN | AN_CDMA2000 | AN_IWLAN | AN_NGRAN

datatype RadioTechnology = RT_UNKNOWN | RT_GPRS | RT_EDGE | RT_UMTS | RT_IS95A | RT_IS95B | RT_ONE_X_RTT | RT_EVDO_0
  | RT_EVDO_A | RT_HSDPA | RT_HSUPA | RT_HSPA | RT_EVDO_B | RT_EHRPD | RT_LTE | RT_HSPAP | RT_GSM
  | RT_TD_SCDMA | RT_IWLAN | RT_LTE_CA | RT_NR

record IccIo =
  io_command :: int
  io_fileId :: int
  io_path :: string
  io_p1 :: int
  io_p2 :: int
  io_p3 :: int
  io_data :: string
  io_pin2 :: string
  io_aid :: string

record CallForwardInfo =
  fw_status :: int
  fw_reason :: int
  fw_serviceClass :: int
  fw_toa :: int
  fw_number :: string
  fw_timeSeconds :: int

datatype PdpProtocolType = Pdp_UNKNOWN | Pdp_IP | Pdp_IPV6 | Pdp_IPV4V6 | Pdp_PPP | Pdp_NON_IP | Pdp_UNSTRUCTURED

datatype DataRequestReason = Reason_NORMAL | Reason_SHUTDOWN | Reason_HANDOVER

datatype ProfileId = ID_DEFAULT | ID_TETHERED | ID_IMS | ID_FOTA | ID_CBS

datatype ProfileType = TYPE_COMMON | TYPE_3GPP | TYPE_3GPP2

record DataProfileInfo =
  pf_apn :: string
  pf_protocol :: PdpProtocolType
  pf_roamingProtocol :: PdpProtocolType
  pf_authType :: int
  pf_user :: string
  pf_password :: string
  pf_supportedApnTypesBitmap :: u32
  pf_profileId :: ProfileId
  pf_type :: ProfileType
  pf_bearerBitmap :: int
  pf_enabled :: bool
  pf_persistent :: bool
  pf_preferred :: bool
  pf_alwaysOn :: bool

record SetupDataCallResult =
  sd_cause :: int
  sd_suggestedRetryTime :: int
  sd_cid :: int
  sd_active :: int
  sd_type :: PdpProtocolType
  sd_ifname :: string
  sd_addresses :: "string list"
  sd_dnses :: "string list"
  sd_gateways :: "string list"
  sd_pcscf :: "string list"
  sd_mtuV4 :: int
  sd_mtuV6 :: int
  sd_pduSessionId :: int

datatype SmsAcknowledgeFailCause = MEMORY_CAPACITY_EXCEEDED | UNSPECIFIED_ERROR

datatype modem_method = A_setRadioPower bool bool bool | A_getImei | A_getBasebandVersion | A_requestShutdown

datatype sim_method = A_getIccCardStatus | A_getImsiForApp string | A_iccIoForApp IccIo
  | A_enableUiccApplications bool
  | A_supplyIccPinForApp string string | A_supplyIccPukForApp string string string
  | A_supplyIccPin2ForApp string string | A_supplyIccPuk2ForApp string string string
  | A_getFacilityLockForApp string string int string | A_setFacilityLockForApp string bool string int string

datatype network_method = A_getSignalStrength | A_getVoiceRegistrationState | A_getDataRegistrationState
  | A_getOperator | A_getNetworkSelectionMode | A_setNetworkSelectionModeAutomatic
  | A_setNetworkSelectionModeManual string AccessNetwork
  | A_getAllowedNetworkTypesBitmap | A_setAllowedNetworkTypesBitmap int | A_setLocationUpdates bool
  | A_setIndicationFilter int | A_setBarringPassword string string string | A_setSuppServiceNotifications bool

datatype sms_method = A_sendSms string string | A_sendSmsExpectMore string string
  | A_acknowledgeLastIncomingGsmSms bool SmsAcknowledgeFailCause | A_getSmscAddress | A_setSmscAddress string
  | A_reportSmsMemoryStatus bool | A_writeSmsToSim int string string | A_deleteSmsOnSim int

datatype data_method = A_setupDataCall AccessNetwork DataProfileInfo bool DataRequestReason
  | A_deactivateDataCall int DataRequestReason | A_getDataCallList | A_setInitialAttachApn DataProfileInfo
  | A_setDataProfile "DataProfileInfo list" | A_setDataAllowed bool

datatype voice_method = A_getCurrentCalls | A_dial string int | A_acceptCall | A_rejectCall | A_hangup int
  | A_switchWaitingOrHoldingAndActive | A_conference | A_separateConnection int
  | A_hangupWaitingOrBackground | A_hangupForegroundResumeBackground | A_explicitCallTransfer
  | A_startDtmf string | A_sendDtmf string | A_stopDtmf | A_setMute bool | A_getMute | A_getLastCallFailCause
  | A_getClip | A_getClir | A_setClir int | A_getCallWaiting int | A_setCallWaiting bool int
  | A_getCallForwardStatus CallForwardInfo | A_setCallForward CallForwardInfo
  | A_sendUssd string | A_cancelPendingUssd

datatype aidl_method = A_setResponseFunctions | A_responseAcknowledgement
  | IRadioModem modem_method | IRadioSim sim_method | IRadioNetwork network_method
  | IRadioMessaging sms_method | IRadioData data_method | IRadioVoice voice_method

text \<open>A call on the service object \<open>ac_handle\<close>; \<open>ac_serial\<close> is \<open>None\<close> for the methods without one.\<close>

record aidl_call =
  ac_handle :: nat
  ac_serial :: "int option"
  ac_method :: aidl_method

end
