(* ===== verification/Ril_Bridge.thy ===== *)
theory Ril_Bridge
  imports Ril_Types
begin

text \<open>
  The bridge between \<open>hril\<close> and the container's radio services: \<open>hardware/ril/src/hybris_ril_bridge.cpp\<close>.

  \<^item> \<open>ril\<close> is the state of the process: the members of \<open>RilBridge\<close> and the file-scope variables of
    the domains (\<open>g_\<dots>\<close>). \<open>rb_reports\<close> is what was handed to \<open>hril\<close> through \<open>reportOps_\<close> and
    \<open>rb_aidl\<close> what was called on the services, both in order.
  \<^item> Every operation holds one mutex for its whole effect on the state, so it is one step.
  \<^item> A service object is a number, the null pointer \<open>None\<close>. A call on a service is oneway; the
    code does not look at its status.
  \<^item> \<open>nextSerial_\<close> is an \<open>int32_t\<close> that wraps around.
  \<^item> What the service manager, \<open>/proc\<close>, the parameters and the detached probe thread answer is
    given by functions of the round of the loop that asks.
\<close>

section \<open>State\<close>

definition MAX_SLOTS :: int where "MAX_SLOTS = 2"

record ril =
  rb_reportOps :: bool
  rb_reports :: "hril_report list"
  rb_aidl :: "aidl_call list"
  rb_connected :: bool
  rb_modem :: "nat option list"
  rb_sim :: "nat option list"
  rb_network :: "nat option list"
  rb_messaging :: "nat option list"
  rb_data :: "nat option list"
  rb_voice :: "nat option list"
  rb_pending :: "(int, ReqDataInfo) smap"
  rb_notifying :: "(int, int \<times> HNoti) smap"
  rb_nextSerial :: int
  g_radioState :: "HRilRadioPowerState list"
  g_powerRequests :: "(int, bool) smap"
  g_appAid :: "string list"
  g_dataAccessNetwork :: "AccessNetwork list"
  g_lastReg :: "((int \<times> HNoti) \<times> HRilRegStatusInfo) list"
  g_clipPresentation :: "int list"
  g_profiles :: "DataProfileInfo list list"

definition ril_init :: ril where
  "ril_init = \<lparr>rb_reportOps = False, rb_reports = [], rb_aidl = [], rb_connected = False,
     rb_modem = [None, None], rb_sim = [None, None], rb_network = [None, None], rb_messaging = [None, None],
     rb_data = [None, None], rb_voice = [None, None], rb_pending = [], rb_notifying = [], rb_nextSerial = 1,
     g_radioState = [HRIL_RADIO_POWER_STATE_OFF, HRIL_RADIO_POWER_STATE_OFF], g_powerRequests = [],
     g_appAid = [[], []], g_dataAccessNetwork = [AN_UNKNOWN, AN_UNKNOWN], g_lastReg = [],
     g_clipPresentation = [0, 0], g_profiles = [[], []]\<rparr>"

text \<open>The service objects of one slot; a slot outside the arrays has none.\<close>

definition slot_of :: "nat option list \<Rightarrow> int \<Rightarrow> nat option" where
  "slot_of services slotId = (if slotId < 0 \<or> slotId \<ge> MAX_SLOTS then None else services ! nat slotId)"

definition Modem :: "int \<Rightarrow> ril \<Rightarrow> nat option" where "Modem slotId s = slot_of (rb_modem s) slotId"
definition Sim :: "int \<Rightarrow> ril \<Rightarrow> nat option" where "Sim slotId s = slot_of (rb_sim s) slotId"
definition Network :: "int \<Rightarrow> ril \<Rightarrow> nat option" where "Network slotId s = slot_of (rb_network s) slotId"
definition Messaging :: "int \<Rightarrow> ril \<Rightarrow> nat option" where "Messaging slotId s = slot_of (rb_messaging s) slotId"
definition Data :: "int \<Rightarrow> ril \<Rightarrow> nat option" where "Data slotId s = slot_of (rb_data s) slotId"
definition Voice :: "int \<Rightarrow> ril \<Rightarrow> nat option" where "Voice slotId s = slot_of (rb_voice s) slotId"

lemmas service_defs = Modem_def Sim_def Network_def Messaging_def Data_def Voice_def

section \<open>Serials\<close>

definition INT32_MAX :: int where "INT32_MAX = 2147483647"
definition INT32_MIN :: int where "INT32_MIN = -2147483648"

text \<open>\<open>nextSerial_++; if (nextSerial_ < 0) nextSerial_ = 1;\<close>\<close>

definition bump_serial :: "int \<Rightarrow> int" where
  "bump_serial n = (let n' = (if n = INT32_MAX then INT32_MIN else n + 1) in if n' < 0 then 1 else n')"

text \<open>
  The domains only track a request that \<open>Require\<dots>\<close> or they themselves found to be there; a null
  request would be stored as a null pointer, which \<open>TakePending\<close> cannot tell from an absent one.
\<close>

definition Track :: "ReqDataInfo option \<Rightarrow> ril \<Rightarrow> int \<times> ril" where
  "Track request s =
     (let serial = rb_nextSerial s
      in (serial, s\<lparr>rb_nextSerial := bump_serial serial,
            rb_pending := (case request of None \<Rightarrow> map_erase serial (rb_pending s)
                           | Some r \<Rightarrow> map_put serial r (rb_pending s))\<rparr>))"

definition NextSerial :: "ril \<Rightarrow> int \<times> ril" where
  "NextSerial s = (rb_nextSerial s, s\<lparr>rb_nextSerial := bump_serial (rb_nextSerial s)\<rparr>)"

definition TakePending :: "int \<Rightarrow> ril \<Rightarrow> ReqDataInfo option \<times> ril" where
  "TakePending serial s =
     (case map_find serial (rb_pending s) of
        None \<Rightarrow> (None, s)
      | Some req \<Rightarrow> (Some req, s\<lparr>rb_pending := map_erase serial (rb_pending s)\<rparr>))"

definition TrackNotify :: "int \<Rightarrow> HNoti \<Rightarrow> ril \<Rightarrow> int \<times> ril" where
  "TrackNotify slotId notifyId s =
     (let serial = rb_nextSerial s
      in (serial, s\<lparr>rb_nextSerial := bump_serial serial,
            rb_notifying := map_put serial (slotId, notifyId) (rb_notifying s)\<rparr>))"

definition TakeNotify :: "int \<Rightarrow> ril \<Rightarrow> (int \<times> HNoti) option \<times> ril" where
  "TakeNotify serial s =
     (case map_find serial (rb_notifying s) of
        None \<Rightarrow> (None, s)
      | Some t \<Rightarrow> (Some t, s\<lparr>rb_notifying := map_erase serial (rb_notifying s)\<rparr>))"

definition aidl :: "nat \<Rightarrow> int option \<Rightarrow> aidl_method \<Rightarrow> ril \<Rightarrow> ril" where
  "aidl h serial m s = s\<lparr>rb_aidl := rb_aidl s @ [\<lparr>ac_handle = h, ac_serial = serial, ac_method = m\<rparr>]\<rparr>"

section \<open>Reports\<close>

definition report :: "ril_part \<Rightarrow> ReqDataInfo option \<Rightarrow> HRilErrNumber \<Rightarrow> hril_data \<Rightarrow> ril \<Rightarrow> ril" where
  "report part request err d s =
     (if \<not> rb_reportOps s then s
      else (case request of
              None \<Rightarrow> s
            | Some r \<Rightarrow> s\<lparr>rb_reports := rb_reports s @
                [\<lparr>rp_part = part, rp_slot = rq_slotId r, rp_requestInfo = Some r, rp_notifyId = None,
                  rp_type = HRIL_RESPONSE, rp_error = err, rp_payload = d\<rparr>]\<rparr>))"

definition ReportModem :: "ReqDataInfo option \<Rightarrow> HRilErrNumber \<Rightarrow> hril_data \<Rightarrow> ril \<Rightarrow> ril" where
  "ReportModem = report DModem"
definition ReportSim :: "ReqDataInfo option \<Rightarrow> HRilErrNumber \<Rightarrow> hril_data \<Rightarrow> ril \<Rightarrow> ril" where
  "ReportSim = report DSim"
definition ReportNetwork :: "ReqDataInfo option \<Rightarrow> HRilErrNumber \<Rightarrow> hril_data \<Rightarrow> ril \<Rightarrow> ril" where
  "ReportNetwork = report DNetwork"
definition ReportSms :: "ReqDataInfo option \<Rightarrow> HRilErrNumber \<Rightarrow> hril_data \<Rightarrow> ril \<Rightarrow> ril" where
  "ReportSms = report DSms"
definition ReportData :: "ReqDataInfo option \<Rightarrow> HRilErrNumber \<Rightarrow> hril_data \<Rightarrow> ril \<Rightarrow> ril" where
  "ReportData = report DData"
definition ReportCall :: "ReqDataInfo option \<Rightarrow> HRilErrNumber \<Rightarrow> hril_data \<Rightarrow> ril \<Rightarrow> ril" where
  "ReportCall = report DCall"

lemmas report_defs = ReportModem_def ReportSim_def ReportNetwork_def ReportSms_def ReportData_def ReportCall_def

definition notify :: "ril_part \<Rightarrow> int \<Rightarrow> HNoti \<Rightarrow> hril_data \<Rightarrow> ril \<Rightarrow> ril" where
  "notify part slotId notifyId d s =
     (if \<not> rb_reportOps s then s
      else s\<lparr>rb_reports := rb_reports s @
        [\<lparr>rp_part = part, rp_slot = slotId, rp_requestInfo = None, rp_notifyId = Some notifyId,
          rp_type = HRIL_NOTIFICATION, rp_error = HRIL_ERR_SUCCESS, rp_payload = d\<rparr>]\<rparr>)"

definition NotifyModem :: "int \<Rightarrow> HNoti \<Rightarrow> hril_data \<Rightarrow> ril \<Rightarrow> ril" where "NotifyModem = notify DModem"
definition NotifySim :: "int \<Rightarrow> HNoti \<Rightarrow> hril_data \<Rightarrow> ril \<Rightarrow> ril" where "NotifySim = notify DSim"
definition NotifyNetwork :: "int \<Rightarrow> HNoti \<Rightarrow> hril_data \<Rightarrow> ril \<Rightarrow> ril" where "NotifyNetwork = notify DNetwork"
definition NotifySms :: "int \<Rightarrow> HNoti \<Rightarrow> hril_data \<Rightarrow> ril \<Rightarrow> ril" where "NotifySms = notify DSms"
definition NotifyData :: "int \<Rightarrow> HNoti \<Rightarrow> hril_data \<Rightarrow> ril \<Rightarrow> ril" where "NotifyData = notify DData"
definition NotifyCall :: "int \<Rightarrow> HNoti \<Rightarrow> hril_data \<Rightarrow> ril \<Rightarrow> ril" where "NotifyCall = notify DCall"

lemmas notify_defs = NotifyModem_def NotifySim_def NotifyNetwork_def NotifySms_def NotifyData_def NotifyCall_def

text \<open>\<open>Require\<dots>\<close>: the service, or a failure reported. \<open>None\<close> is the return value \<open>false\<close>.\<close>

definition require ::
  "(int \<Rightarrow> ril \<Rightarrow> nat option) \<Rightarrow> (ReqDataInfo option \<Rightarrow> HRilErrNumber \<Rightarrow> hril_data \<Rightarrow> ril \<Rightarrow> ril) \<Rightarrow>
    ReqDataInfo option \<Rightarrow> ril \<Rightarrow> nat option \<times> ril" where
  "require service rep request s =
     (case request of
        None \<Rightarrow> (None, s)
      | Some r \<Rightarrow>
          (case service (rq_slotId r) s of
             None \<Rightarrow> (None, rep request HRIL_ERR_GENERIC_FAILURE NoData s)
           | Some h \<Rightarrow> (Some h, s)))"

definition RequireModem :: "ReqDataInfo option \<Rightarrow> ril \<Rightarrow> nat option \<times> ril" where
  "RequireModem = require Modem ReportModem"
definition RequireSim :: "ReqDataInfo option \<Rightarrow> ril \<Rightarrow> nat option \<times> ril" where
  "RequireSim = require Sim ReportSim"
definition RequireNetwork :: "ReqDataInfo option \<Rightarrow> ril \<Rightarrow> nat option \<times> ril" where
  "RequireNetwork = require Network ReportNetwork"
definition RequireSms :: "ReqDataInfo option \<Rightarrow> ril \<Rightarrow> nat option \<times> ril" where
  "RequireSms = require Messaging ReportSms"
definition RequireData :: "ReqDataInfo option \<Rightarrow> ril \<Rightarrow> nat option \<times> ril" where
  "RequireData = require Data ReportData"
definition RequireVoice :: "ReqDataInfo option \<Rightarrow> ril \<Rightarrow> nat option \<times> ril" where
  "RequireVoice = require Voice ReportCall"

lemmas require_defs = RequireModem_def RequireSim_def RequireNetwork_def RequireSms_def RequireData_def RequireVoice_def

definition ToHrilError :: "RadioError \<Rightarrow> HRilErrNumber" where
  "ToHrilError radioError =
     (case radioError of
        RE_NONE \<Rightarrow> HRIL_ERR_SUCCESS
      | RE_RADIO_NOT_AVAILABLE \<Rightarrow> HRIL_ERR_MODEM_DEVICE_CLOSE
      | RE_PASSWORD_INCORRECT \<Rightarrow> HRIL_ERR_PINPUK_PASSWORD_NOCORRECT
      | RE_SIM_PIN2 \<Rightarrow> HRIL_ERR_NEED_PIN_CODE
      | RE_SIM_PUK2 \<Rightarrow> HRIL_ERR_NEED_PUK_CODE
      | RE_REQUEST_NOT_SUPPORTED \<Rightarrow> HRIL_ERR_VENDOR_NOT_IMPLEMENT
      | RE_SIM_ABSENT \<Rightarrow> HRIL_ERR_NO_SIMCARD_INSERTED
      | RE_INVALID_ARGUMENTS \<Rightarrow> HRIL_ERR_INVALID_PARAMETER
      | RE_OTHER _ \<Rightarrow> HRIL_ERR_GENERIC_FAILURE)"

text \<open>
  The shape of most responses: take the request back and report against it; a response nobody
  waits for is dropped. The part it is reported to and the payload are the caller's.
\<close>

definition respond ::
  "(ReqDataInfo option \<Rightarrow> HRilErrNumber \<Rightarrow> hril_data \<Rightarrow> ril \<Rightarrow> ril) \<Rightarrow> RadioResponseInfo \<Rightarrow>
    (ReqDataInfo \<Rightarrow> hril_data) \<Rightarrow> ril \<Rightarrow> ril" where
  "respond rep info payload s =
     (case TakePending (in_serial info) s of
        (None, s) \<Rightarrow> s
      | (Some req, s) \<Rightarrow> rep (Some req) (ToHrilError (in_error info)) (payload req) s)"

text \<open>The shape of most requests: \<open>voice->method(RilBridge::Get().Track(requestInfo), \<dots>)\<close>.\<close>

definition tracked_call :: "nat \<Rightarrow> aidl_method \<Rightarrow> ReqDataInfo option \<Rightarrow> ril \<Rightarrow> ril" where
  "tracked_call h m requestInfo s = (case Track requestInfo s of (serial, s) \<Rightarrow> aidl h (Some serial) m s)"

end
