(* ===== verification/Ril_Contract.thy ===== *)
theory Ril_Contract
  imports Ril_Bridge
begin

text \<open>
  The contract of the vendor ABI, as the comment on \<open>RilBridge\<close> states it: \<open>hril\<close> hands over a
  request that must be reported against exactly once. \<open>account r s\<close> counts where request \<open>r\<close> is:
  the reports made against it plus the entries of \<open>pending_\<close> that hold it. The locale
  \<open>radio_domain\<close> is what a domain promises: issuing a request adds one to its account, and
  delivering a response or an indication leaves every account alone.
\<close>

section \<open>Accounts\<close>

definition pending_count :: "ReqDataInfo \<Rightarrow> ril \<Rightarrow> nat" where
  "pending_count r s = length (filter (\<lambda>e. snd e = r) (rb_pending s))"

definition report_count :: "ReqDataInfo \<Rightarrow> ril \<Rightarrow> nat" where
  "report_count r s = length (filter (\<lambda>x. rp_requestInfo x = Some r) (rb_reports s))"

definition account :: "ReqDataInfo \<Rightarrow> ril \<Rightarrow> nat" where
  "account r s = report_count r s + pending_count r s"

definition ril_inv :: "ril \<Rightarrow> bool" where
  "ril_inv s \<longleftrightarrow> rb_reportOps s \<and> map_inv (rb_pending s) \<and> (\<forall>e \<in> set (rb_pending s). fst e < rb_nextSerial s) \<and>
     1 \<le> rb_nextSerial s"

text \<open>
  From \<open>s\<close> to \<open>s'\<close>, drawing at most \<open>k\<close> serials, the requests \<open>rs\<close> are taken on.
\<close>

definition settles :: "nat \<Rightarrow> ReqDataInfo list \<Rightarrow> ril \<Rightarrow> ril \<Rightarrow> bool" where
  "settles k rs s s' \<longleftrightarrow> (ril_inv s \<and> rb_nextSerial s + int k \<le> INT32_MAX \<longrightarrow>
     ril_inv s' \<and> rb_nextSerial s' \<le> rb_nextSerial s + int k \<and>
     (\<forall>q. account q s' = account q s + count_list rs q))"

lemma settlesI:
  assumes "ril_inv s \<Longrightarrow> rb_nextSerial s + int k \<le> INT32_MAX \<Longrightarrow>
     ril_inv s' \<and> rb_nextSerial s' \<le> rb_nextSerial s + int k \<and> (\<forall>q. account q s' = account q s + count_list rs q)"
  shows "settles k rs s s'"
  using assms unfolding settles_def by blast

lemma settles_refl [intro!, simp]: "settles k [] s s"
  by (rule settlesI) simp

lemma count_list_append [simp]: "count_list (xs @ ys) q = count_list xs q + count_list ys q"
  by (induction xs) auto

lemma settles_trans:
  assumes "settles k rs s s1" "settles l us s1 s2"
  shows "settles (k + l) (rs @ us) s s2"
  using assms unfolding settles_def by auto

lemma settles_mono: "settles k rs s s' \<Longrightarrow> k \<le> l \<Longrightarrow> settles l rs s s'"
  unfolding settles_def by auto

section \<open>The primitives of the bridge\<close>

lemma report_settles: "settles 0 [r] s (report part (Some r) err d s)"
  by (rule settlesI) (auto simp: report_def account_def report_count_def pending_count_def ril_inv_def)

lemma bump_serial_below: "1 \<le> n \<Longrightarrow> n < INT32_MAX \<Longrightarrow> bump_serial n = n + 1"
  by (simp add: bump_serial_def INT32_MAX_def)

lemma filter_map_put_fresh:
  "k \<notin> fst ` set m \<Longrightarrow> length (filter P (map_put k v m)) = length (filter P m) + (if P (k, v) then 1 else 0)"
  by (induction k v m rule: map_put.induct) auto

lemma track_settles: "settles 1 [r] s (snd (Track (Some r) s))"
proof (rule settlesI)
  assume inv: "ril_inv s" and room: "rb_nextSerial s + int 1 \<le> INT32_MAX"
  let ?n = "rb_nextSerial s"
  have fresh: "?n \<notin> fst ` set (rb_pending s)" using inv by (auto simp: ril_inv_def)
  have b: "bump_serial ?n = ?n + 1" using inv room by (intro bump_serial_below) (auto simp: ril_inv_def)
  have "\<forall>e \<in> set (map_put ?n r (rb_pending s)). fst e < ?n + 1"
    using inv by (auto simp: ril_inv_def set_map_put)
  then show "ril_inv (snd (Track (Some r) s)) \<and> rb_nextSerial (snd (Track (Some r) s)) \<le> ?n + int 1 \<and>
      (\<forall>q. account q (snd (Track (Some r) s)) = account q s + count_list [r] q)"
    using inv fresh
    by (auto simp: Track_def Let_def b ril_inv_def map_inv_put account_def report_count_def pending_count_def
        filter_map_put_fresh)
qed

lemma next_serial_settles: "settles 1 [] s (snd (NextSerial s))"
proof (rule settlesI)
  assume inv: "ril_inv s" and room: "rb_nextSerial s + int 1 \<le> INT32_MAX"
  then have "bump_serial (rb_nextSerial s) = rb_nextSerial s + 1"
    by (intro bump_serial_below) (auto simp: ril_inv_def)
  with inv show "ril_inv (snd (NextSerial s)) \<and> rb_nextSerial (snd (NextSerial s)) \<le> rb_nextSerial s + int 1 \<and>
      (\<forall>q. account q (snd (NextSerial s)) = account q s + count_list [] q)"
    by (auto simp: NextSerial_def ril_inv_def account_def report_count_def pending_count_def)
qed

lemma track_notify_settles: "settles 1 [] s (snd (TrackNotify slot n s))"
proof (rule settlesI)
  assume inv: "ril_inv s" and room: "rb_nextSerial s + int 1 \<le> INT32_MAX"
  then have "bump_serial (rb_nextSerial s) = rb_nextSerial s + 1"
    by (intro bump_serial_below) (auto simp: ril_inv_def)
  with inv show "ril_inv (snd (TrackNotify slot n s)) \<and>
      rb_nextSerial (snd (TrackNotify slot n s)) \<le> rb_nextSerial s + int 1 \<and>
      (\<forall>q. account q (snd (TrackNotify slot n s)) = account q s + count_list [] q)"
    by (auto simp: TrackNotify_def Let_def ril_inv_def account_def report_count_def pending_count_def)
qed

lemma take_notify_settles: "settles 0 [] s (snd (TakeNotify serial s))"
  by (rule settlesI)
    (auto simp: TakeNotify_def ril_inv_def account_def report_count_def pending_count_def split: option.split)

lemma filter_map_erase:
  "map_inv m \<Longrightarrow> map_find k m = Some v \<Longrightarrow>
    length (filter P m) = length (filter P (map_erase k m)) + (if P (k, v) then 1 else 0)"
proof (induction m)
  case (Cons e m)
  obtain k' v' where e: "e = (k', v')" by (cases e)
  from Cons.prems(1) have m: "map_inv m" by (simp add: map_inv_def)
  show ?case
  proof (cases "k' = k")
    case True
    have "map_erase k m = m"
      using Cons.prems(1) True by (auto simp: map_erase_def map_inv_def e filter_id_conv)
    with True Cons.prems(2) show ?thesis by (auto simp: e map_find_def map_erase_def)
  next
    case False
    then have "map_find k m = Some v" using Cons.prems(2) by (simp add: e map_find_def)
    with Cons.IH [OF m] False show ?thesis by (auto simp: e map_erase_def)
  qed
qed (simp add: map_find_def)

text \<open>Steps that only notify, call a service or change a variable of a domain.\<close>

definition quiet :: "ril \<Rightarrow> ril \<Rightarrow> bool" where
  "quiet s s' \<longleftrightarrow> rb_reportOps s' = rb_reportOps s \<and> rb_pending s' = rb_pending s \<and> rb_nextSerial s' = rb_nextSerial s \<and>
     (\<forall>q. report_count q s' = report_count q s)"

lemma quiet_refl [simp]: "quiet s s"
  by (simp add: quiet_def)

lemma quiet_trans: "quiet s s1 \<Longrightarrow> quiet s1 s2 \<Longrightarrow> quiet s s2"
  by (simp add: quiet_def)

lemma quiet_notify [simp]: "quiet s (notify part slot n d s)"
  by (simp add: quiet_def notify_def report_count_def)

lemma quiet_aidl [simp]: "quiet s (aidl h serial m s)"
  by (simp add: quiet_def aidl_def report_count_def)

lemma quiet_after: "quiet s s1 \<Longrightarrow> quiet s (notify part slot n d s1)" "quiet s s1 \<Longrightarrow> quiet s (aidl h serial m s1)"
  by (auto intro: quiet_trans)

lemma quiet_frame:
  "rb_reportOps s' = rb_reportOps s \<Longrightarrow> rb_reports s' = rb_reports s \<Longrightarrow> rb_pending s' = rb_pending s \<Longrightarrow>
    rb_nextSerial s' = rb_nextSerial s \<Longrightarrow> quiet s s'"
  by (simp add: quiet_def report_count_def)

lemma quiet_settles: "quiet s s' \<Longrightarrow> settles k [] s s'"
  by (rule settlesI) (auto simp: quiet_def ril_inv_def account_def pending_count_def)

lemmas notify_settles = quiet_settles [OF quiet_notify]

lemmas aidl_settles = quiet_settles [OF quiet_aidl]

text \<open>A request taken back and, after a few quiet steps, reported against.\<close>

lemma take_report_settles:
  assumes "TakePending serial s = (Some r, s1)" "quiet s1 s2"
  shows "settles 0 [] s (report part (Some r) err d s2)"
proof (rule settlesI)
  assume inv: "ril_inv s"
  from assms(1) have f: "map_find serial (rb_pending s) = Some r"
    and s1: "s1 = s\<lparr>rb_pending := map_erase serial (rb_pending s)\<rparr>"
    by (auto simp: TakePending_def split: option.splits)
  note q = assms(2) [unfolded quiet_def s1]
  have "map_inv (rb_pending s)" using inv by (simp add: ril_inv_def)
  from filter_map_erase [OF this f] have c: "pending_count p s = pending_count p s2 + (if r = p then 1 else 0)" for p
    using q by (simp add: pending_count_def)
  let ?t = "report part (Some r) err d s2"
  have "report_count p ?t = report_count p s + (if r = p then 1 else 0)" for p
    using inv q by (auto simp: report_def report_count_def ril_inv_def)
  with c have "account p ?t = account p s" for p
    by (simp add: account_def) (simp add: pending_count_def report_def split: option.split)
  moreover have "ril_inv ?t"
    using inv q by (auto simp: ril_inv_def report_def map_inv_erase set_map_erase)
  ultimately show "ril_inv ?t \<and> rb_nextSerial ?t \<le> rb_nextSerial s + int 0 \<and>
      (\<forall>p. account p ?t = account p s + count_list [] p)"
    using inv q by (simp add: report_def)
qed

lemma take_none: "TakePending serial s = (None, s') \<Longrightarrow> s' = s"
  by (auto simp: TakePending_def split: option.splits)

lemma respond_settles: "settles 0 [] s (respond (report part) info d s)"
proof (cases "TakePending (in_serial info) s")
  case (Pair x s')
  then show ?thesis
    by (cases x) (auto simp: respond_def intro: take_report_settles [OF _ quiet_refl] dest: take_none)
qed

lemma tracked_call_settles: "settles 1 [r] s (tracked_call h m (Some r) s)"
proof -
  obtain serial s1 where t: "Track (Some r) s = (serial, s1)" by (cases "Track (Some r) s")
  have "settles 1 [r] s s1" using track_settles [of r s] by (simp add: t)
  from settles_trans [OF this aidl_settles [of 0 s1 h "Some serial" m]] show ?thesis
    by (simp add: tracked_call_def t)
qed

text \<open>The prologue of a request: without a service it is over, reported once.\<close>

lemma require_cases:
  obtains (refused) s' where "require service (report part) (Some r) s = (None, s')" "settles 0 [r] s s'"
  | (granted) h where "require service (report part) (Some r) s = (Some h, s)"
  by (cases "service (rq_slotId r) s") (auto simp: require_def intro: report_settles)

lemma require_settles:
  assumes "\<And>h. settles k [r] s (f h s)"
  shows "settles k [r] s (case require service (report part) (Some r) s of (None, s) \<Rightarrow> s | (Some h, s) \<Rightarrow> f h s)"
proof (cases rule: require_cases [of service part r s])
  case (refused s')
  then show ?thesis by (auto intro: settles_mono)
next
  case (granted h)
  with assms show ?thesis by simp
qed

text \<open>The steps a handler is made of, with room for two serials, and how they are put together.\<close>

lemma settle_steps:
  "settles 2 [r] s (report part (Some r) err d s)" "settles 2 [] s (notify part slot n d s)"
  "settles 2 [] s (aidl h serial m s)" "settles 2 [] s (respond (report part) info pay s)"
  "settles 2 [r] s (tracked_call h m (Some r) s)"
  by (auto intro: settles_mono report_settles notify_settles aidl_settles respond_settles tracked_call_settles)

lemma settle_require:
  assumes "\<And>h. settles 2 [r] s (f h s)"
  shows "settles 2 [r] s (case require service (report part) (Some r) s of (None, s) \<Rightarrow> s | (Some h, s) \<Rightarrow> f h s)"
  using assms by (rule require_settles)

lemma settle_after: "settles k rs s s1 \<Longrightarrow> quiet s1 s2 \<Longrightarrow> settles k rs s s2"
  using settles_trans [of k rs s s1 0 "[]" s2] quiet_settles [of s1 s2 0] by simp

lemma settle_before: "quiet s s1 \<Longrightarrow> settles k rs s1 s2 \<Longrightarrow> settles k rs s s2"
  using settles_trans [of 0 "[]" s s1 k rs s2] quiet_settles [of s s1 0] by simp

lemma settle_respond: "quiet s s1 \<Longrightarrow> settles 2 [] s (respond (report part) info pay s1)"
  by (rule settle_before) (assumption, rule settle_steps)

section \<open>What a domain promises\<close>

lemma count_list_distinct: "distinct xs \<Longrightarrow> x \<in> set xs \<Longrightarrow> count_list xs x = 1"
  by (induction xs) (auto simp: count_list_0_iff)

datatype ('o, 'm) radio_event = Issue 'o ReqDataInfo | Deliver 'm

fun issued :: "('o, 'm) radio_event list \<Rightarrow> ReqDataInfo list" where
  "issued [] = []"
| "issued (Issue op r # es) = r # issued es"
| "issued (Deliver m # es) = issued es"

fun run_events :: "('o \<Rightarrow> ReqDataInfo option \<Rightarrow> ril \<Rightarrow> ril) \<Rightarrow> ('m \<Rightarrow> ril \<Rightarrow> ril) \<Rightarrow> ('o, 'm) radio_event list \<Rightarrow> ril \<Rightarrow> ril" where
  "run_events iss del [] s = s"
| "run_events iss del (Issue op r # es) s = run_events iss del es (iss op (Some r) s)"
| "run_events iss del (Deliver m # es) s = run_events iss del es (del m s)"

locale radio_domain =
  fixes issue_op :: "'o \<Rightarrow> ReqDataInfo option \<Rightarrow> ril \<Rightarrow> ril"
    and deliver :: "'m \<Rightarrow> ril \<Rightarrow> ril"
  assumes issue_settles: "settles 2 [r] s (issue_op op (Some r) s)"
    and deliver_settles: "settles 2 [] s (deliver m s)"
begin

text \<open>However requests, responses and indications interleave, every request is accounted for.\<close>

lemma run_settles: "settles (2 * length es) (issued es) s (run_events issue_op deliver es s)"
proof (induction es arbitrary: s)
  case (Cons e es)
  show ?case
  proof (cases e)
    case (Issue op r)
    with settles_trans [OF issue_settles [of r s op] Cons.IH [of "issue_op op (Some r) s"]] show ?thesis by simp
  next
    case (Deliver m)
    with settles_trans [OF deliver_settles [of s m] Cons.IH [of "deliver m s"]] show ?thesis by simp
  qed
qed simp

lemma exactly_once:
  assumes "ril_inv s" "rb_nextSerial s + 2 * int (length es) \<le> INT32_MAX"
    "distinct (issued es)" "r \<in> set (issued es)" "account r s = 0"
  shows "account r (run_events issue_op deliver es s) = 1"
  using run_settles [of es s] assms by (simp add: settles_def count_list_distinct)

end

end
