(* ===== verification/Ril_Modem.thy ===== *)
theory Ril_Modem
  imports Ril_Contract
begin

text \<open>
  The modem domain: \<open>hardware/ril/src/hybris_ril_modem.cpp\<close>. \<open>ModemOps\<close> is the operation table and
  \<open>ModemCallbacks\<close> the response and indication objects that \<open>AttachModemCallbacks\<close> registers.
\<close>

definition ToHrilRadioState :: "RadioState \<Rightarrow> HRilRadioPowerState" where
  "ToHrilRadioState state =
     (case state of
        RadioState_OFF \<Rightarrow> HRIL_RADIO_POWER_STATE_OFF
      | RadioState_ON \<Rightarrow> HRIL_RADIO_POWER_STATE_ON
      | RadioState_OTHER \<Rightarrow> HRIL_RADIO_POWER_STATE_UNAVAILABLE)"

section \<open>Responses\<close>

definition getBasebandVersionResponse :: "RadioResponseInfo \<Rightarrow> string \<Rightarrow> ril \<Rightarrow> ril" where
  "getBasebandVersionResponse info version s = respond ReportModem info (\<lambda>_. StringData version) s"

text \<open>\<open>imeiInfo\<close> is the IMEI and the software version, if the modem has them.\<close>

definition getImeiResponse :: "RadioResponseInfo \<Rightarrow> (string \<times> string) option \<Rightarrow> ril \<Rightarrow> ril" where
  "getImeiResponse info imeiInfo s =
     respond ReportModem info
       (\<lambda>req. StringData
          (case imeiInfo of
             None \<Rightarrow> []
           | Some (imei, svn) \<Rightarrow> if rq_request req = HREQ_MODEM_GET_IMEISV then svn else imei)) s"

text \<open>The state becomes the requested one; \<open>hril\<close> hears of a change.\<close>

definition power_done :: "RadioResponseInfo \<Rightarrow> bool option \<Rightarrow> int \<Rightarrow> ril \<Rightarrow> ril" where
  "power_done info requested slot s =
     (case requested of
        None \<Rightarrow> s
      | Some requestedOn \<Rightarrow>
          if in_error info = RE_NONE then
            let state = (if requestedOn then HRIL_RADIO_POWER_STATE_ON else HRIL_RADIO_POWER_STATE_OFF);
                t = s\<lparr>g_radioState := (g_radioState s)[nat slot := state]\<rparr>
            in if g_radioState s ! nat slot \<noteq> state
               then NotifyModem slot HNOTI_MODEM_RADIO_STATE_UPDATED (PowerData state) t else t
          else s)"

definition setRadioPowerResponse :: "RadioResponseInfo \<Rightarrow> ril \<Rightarrow> ril" where
  "setRadioPowerResponse info s =
     (let requested = map_find (in_serial info) (g_powerRequests s);
          s1 = s\<lparr>g_powerRequests := map_erase (in_serial info) (g_powerRequests s)\<rparr>
      in case TakePending (in_serial info) s1 of (req, s2) \<Rightarrow>
         let slot = (case req of
                       Some r \<Rightarrow> if rq_slotId r \<ge> 0 \<and> rq_slotId r < MAX_SLOTS then rq_slotId r else 0
                     | None \<Rightarrow> 0);
             s3 = power_done info requested slot s2
         in case req of
              None \<Rightarrow> s3
            | Some _ \<Rightarrow> ReportModem req (ToHrilError (in_error info)) NoData s3)"

definition requestShutdownResponse :: "RadioResponseInfo \<Rightarrow> ril \<Rightarrow> ril" where
  "requestShutdownResponse info s = respond ReportModem info (\<lambda>_. NoData) s"

section \<open>Indications\<close>

definition radioStateChanged :: "int \<Rightarrow> RadioState \<Rightarrow> ril \<Rightarrow> ril" where
  "radioStateChanged slotId radioState s =
     (let state = ToHrilRadioState radioState
      in NotifyModem slotId HNOTI_MODEM_RADIO_STATE_UPDATED (PowerData state)
           (s\<lparr>g_radioState := (g_radioState s)[nat slotId := state]\<rparr>))"

definition modemReset :: "int \<Rightarrow> ril \<Rightarrow> ril" where
  "modemReset slotId s =
     (let state = HRIL_RADIO_POWER_STATE_UNAVAILABLE
      in NotifyModem slotId HNOTI_MODEM_RADIO_STATE_UPDATED (PowerData state)
           (s\<lparr>g_radioState := (g_radioState s)[nat slotId := state]\<rparr>))"

section \<open>Requests\<close>

definition SetRadioState :: "HRilRadioPowerState \<Rightarrow> ReqDataInfo option \<Rightarrow> ril \<Rightarrow> ril" where
  "SetRadioState fn requestInfo s =
     (case RequireModem requestInfo s of
        (None, s) \<Rightarrow> s
      | (Some modem, s) \<Rightarrow>
          let on = (fn \<noteq> HRIL_RADIO_POWER_STATE_OFF)
          in case Track requestInfo s of (serial, s) \<Rightarrow>
               aidl modem (Some serial) (IRadioModem (A_setRadioPower on False False))
                 (s\<lparr>g_powerRequests := map_put serial on (g_powerRequests s)\<rparr>))"

definition GetRadioState :: "ReqDataInfo option \<Rightarrow> ril \<Rightarrow> ril" where
  "GetRadioState requestInfo s =
     (case requestInfo of
        None \<Rightarrow> s
      | Some r \<Rightarrow>
          let slot = (if rq_slotId r \<ge> 0 \<and> rq_slotId r < MAX_SLOTS then rq_slotId r else 0)
          in ReportModem requestInfo HRIL_ERR_SUCCESS (PowerData (g_radioState s ! nat slot)) s)"

definition GetImei :: "ReqDataInfo option \<Rightarrow> ril \<Rightarrow> ril" where
  "GetImei requestInfo s =
     (case RequireModem requestInfo s of
        (None, s) \<Rightarrow> s
      | (Some modem, s) \<Rightarrow> tracked_call modem (IRadioModem A_getImei) requestInfo s)"

definition GetImeiSv :: "ReqDataInfo option \<Rightarrow> ril \<Rightarrow> ril" where
  "GetImeiSv requestInfo s =
     (case RequireModem requestInfo s of
        (None, s) \<Rightarrow> s
      | (Some modem, s) \<Rightarrow> tracked_call modem (IRadioModem A_getImei) requestInfo s)"

definition GetMeid :: "ReqDataInfo option \<Rightarrow> ril \<Rightarrow> ril" where
  "GetMeid requestInfo s =
     (if requestInfo = None then s else ReportModem requestInfo HRIL_ERR_SUCCESS (StringData []) s)"

definition GetVoiceRadioTechnology :: "ReqDataInfo option \<Rightarrow> ril \<Rightarrow> ril" where
  "GetVoiceRadioTechnology requestInfo s =
     (if requestInfo = None then s
      else ReportModem requestInfo HRIL_ERR_SUCCESS (VoiceRadioInfo [] RADIO_TECHNOLOGY_UNKNOWN []) s)"

definition GetBasebandVersion :: "ReqDataInfo option \<Rightarrow> ril \<Rightarrow> ril" where
  "GetBasebandVersion requestInfo s =
     (case RequireModem requestInfo s of
        (None, s) \<Rightarrow> s
      | (Some modem, s) \<Rightarrow> tracked_call modem (IRadioModem A_getBasebandVersion) requestInfo s)"

definition ShutDown :: "ReqDataInfo option \<Rightarrow> ril \<Rightarrow> ril" where
  "ShutDown requestInfo s =
     (case RequireModem requestInfo s of
        (None, s) \<Rightarrow> s
      | (Some modem, s) \<Rightarrow> tracked_call modem (IRadioModem A_requestShutdown) requestInfo s)"

definition CachedRadioState :: "int \<Rightarrow> ril \<Rightarrow> HRilRadioPowerState" where
  "CachedRadioState slotId s =
     (if slotId < 0 \<or> slotId \<ge> MAX_SLOTS then HRIL_RADIO_POWER_STATE_UNAVAILABLE else g_radioState s ! nat slotId)"

section \<open>The tables\<close>

datatype modem_op = Op_SetRadioState HRilRadioPowerState | Op_GetRadioState | Op_GetImei | Op_GetImeiSv | Op_GetMeid
  | Op_GetVoiceRadioTechnology | Op_GetBasebandVersion | Op_ShutDown

definition ModemOps :: "modem_op \<Rightarrow> ReqDataInfo option \<Rightarrow> ril \<Rightarrow> ril" where
  "ModemOps op =
     (case op of
        Op_SetRadioState fn \<Rightarrow> SetRadioState fn
      | Op_GetRadioState \<Rightarrow> GetRadioState
      | Op_GetImei \<Rightarrow> GetImei
      | Op_GetImeiSv \<Rightarrow> GetImeiSv
      | Op_GetMeid \<Rightarrow> GetMeid
      | Op_GetVoiceRadioTechnology \<Rightarrow> GetVoiceRadioTechnology
      | Op_GetBasebandVersion \<Rightarrow> GetBasebandVersion
      | Op_ShutDown \<Rightarrow> ShutDown)"

text \<open>\<open>slotId_\<close> of the indication object is the slot it was attached for.\<close>

datatype modem_msg = Rsp_getBasebandVersion RadioResponseInfo string
  | Rsp_getImei RadioResponseInfo "(string \<times> string) option" | Rsp_setRadioPower RadioResponseInfo
  | Rsp_requestShutdown RadioResponseInfo | Rsp_modemAcknowledge int
  | Ind_radioStateChanged int RadioState | Ind_rilConnected int | Ind_modemReset int

definition ModemCallbacks :: "modem_msg \<Rightarrow> ril \<Rightarrow> ril" where
  "ModemCallbacks m =
     (case m of
        Rsp_getBasebandVersion info version \<Rightarrow> getBasebandVersionResponse info version
      | Rsp_getImei info imeiInfo \<Rightarrow> getImeiResponse info imeiInfo
      | Rsp_setRadioPower info \<Rightarrow> setRadioPowerResponse info
      | Rsp_requestShutdown info \<Rightarrow> requestShutdownResponse info
      | Rsp_modemAcknowledge serial \<Rightarrow> id
      | Ind_radioStateChanged slotId radioState \<Rightarrow> radioStateChanged slotId radioState
      | Ind_rilConnected slotId \<Rightarrow> id
      | Ind_modemReset slotId \<Rightarrow> modemReset slotId)"

section \<open>The contract\<close>

lemmas modem_request_defs = SetRadioState_def GetRadioState_def GetImei_def GetImeiSv_def GetMeid_def
  GetVoiceRadioTechnology_def GetBasebandVersion_def ShutDown_def

lemma set_radio_state_settles: "settles 2 [r] s (SetRadioState fn (Some r) s)"
  unfolding SetRadioState_def require_defs report_defs Let_def
proof (rule settle_require)
  fix h
  obtain serial s1 where t: "Track (Some r) s = (serial, s1)" by (cases "Track (Some r) s")
  let ?on = "fn \<noteq> HRIL_RADIO_POWER_STATE_OFF"
  let ?s2 = "s1\<lparr>g_powerRequests := map_put serial ?on (g_powerRequests s1)\<rparr>"
  have "settles 2 [r] s s1" using track_settles [of r s] by (auto simp: t intro: settles_mono)
  then have "settles 2 [r] s ?s2" by (rule settle_after) (rule quiet_frame, simp_all)
  then show "settles 2 [r] s (case Track (Some r) s of (serial, s) \<Rightarrow>
      aidl h (Some serial) (IRadioModem (A_setRadioPower ?on False False))
        (s\<lparr>g_powerRequests := map_put serial ?on (g_powerRequests s)\<rparr>))"
    by (simp add: t settle_after)
qed

lemma modem_ops_settle: "settles 2 [r] s (ModemOps op (Some r) s)"
proof (cases op)
  case (Op_SetRadioState fn)
  then show ?thesis by (simp add: ModemOps_def set_radio_state_settles)
qed (simp_all add: ModemOps_def modem_request_defs report_defs require_defs Let_def settle_steps settle_require)

lemma quiet_power: "quiet s (s\<lparr>g_radioState := v\<rparr>)"
  by (rule quiet_frame) simp_all

lemma power_done_quiet: "quiet s (power_done info requested slot s)"
  by (simp add: power_done_def Let_def notify_defs quiet_power quiet_after split: option.split)

lemma set_radio_power_settles: "settles 2 [] s (setRadioPowerResponse info s)"
proof -
  let ?s1 = "s\<lparr>g_powerRequests := map_erase (in_serial info) (g_powerRequests s)\<rparr>"
  obtain req s2 where t: "TakePending (in_serial info) ?s1 = (req, s2)" by (cases "TakePending (in_serial info) ?s1")
  have s1: "quiet s ?s1" by (rule quiet_frame) simp_all
  show ?thesis
  proof (cases req)
    case None
    with t have "s2 = ?s1" by (auto dest: take_none)
    with None t show ?thesis
      by (simp add: setRadioPowerResponse_def Let_def)
        (rule quiet_settles, rule quiet_trans [OF s1 power_done_quiet])
  next
    case (Some r)
    have "settles 2 [] s (report DModem (Some r) err d (power_done info requested slot s2))" for err d requested slot
      by (rule settle_before [OF s1], rule settles_mono [OF take_report_settles [OF t [unfolded Some] power_done_quiet]]) simp
    with t Some show ?thesis by (simp add: setRadioPowerResponse_def Let_def report_defs)
  qed
qed

lemma modem_callbacks_settle: "settles 2 [] s (ModemCallbacks m s)"
proof (cases m)
  case (Rsp_setRadioPower info)
  then show ?thesis by (simp add: ModemCallbacks_def set_radio_power_settles)
qed (auto simp: ModemCallbacks_def getBasebandVersionResponse_def getImeiResponse_def requestShutdownResponse_def
      radioStateChanged_def modemReset_def report_defs notify_defs Let_def settle_steps
      quiet_power quiet_after intro!: quiet_settles)

interpretation modem: radio_domain ModemOps ModemCallbacks
  by unfold_locales (rule modem_ops_settle, rule modem_callbacks_settle)

end
