(* ===== verification/Ril_Sim.thy ===== *)
theory Ril_Sim
  imports Ril_Contract
begin

text \<open>
  The SIM domain: \<open>hardware/ril/src/hybris_ril_sim.cpp\<close>. It also delivers the answers of the call
  domain's facility locks. A C string is \<open>None\<close> for the null pointer.
\<close>

definition c_str_or_empty :: "string option \<Rightarrow> string" where
  "c_str_or_empty p = (case p of None \<Rightarrow> [] | Some t \<Rightarrow> t)"

section \<open>The card\<close>

definition RememberAppAid :: "int \<Rightarrow> string \<Rightarrow> ril \<Rightarrow> ril" where
  "RememberAppAid slotId aid s =
     (if slotId < 0 \<or> slotId \<ge> MAX_SLOTS then s else s\<lparr>g_appAid := (g_appAid s)[nat slotId := aid]\<rparr>)"

definition AppAid :: "int \<Rightarrow> ril \<Rightarrow> string" where
  "AppAid slotId s = (if slotId < 0 \<or> slotId \<ge> MAX_SLOTS then [] else g_appAid s ! nat slotId)"

datatype AppType = APP_TYPE_SIM | APP_TYPE_USIM | APP_TYPE_OTHER

datatype AppState = APP_STATE_READY | APP_STATE_PIN | APP_STATE_PUK | APP_STATE_DETECTED
  | APP_STATE_SUBSCRIPTION_PERSO | APP_STATE_OTHER

record AppStatus =
  as_appType :: AppType
  as_appState :: AppState
  as_aidPtr :: string

record CardStatus =
  cd_cardState :: int
  cd_gsmUmtsSubscriptionAppIndex :: int
  cd_applications :: "AppStatus list"
  cd_iccid :: string

definition to_sim_type :: "AppType \<Rightarrow> HRilSimType" where
  "to_sim_type t =
     (case t of APP_TYPE_SIM \<Rightarrow> HRIL_SIM_TYPE_SIM | APP_TYPE_USIM \<Rightarrow> HRIL_SIM_TYPE_USIM
      | APP_TYPE_OTHER \<Rightarrow> HRIL_SIM_TYPE_UNKNOWN)"

definition to_sim_state :: "AppState \<Rightarrow> HRilSimState" where
  "to_sim_state t =
     (case t of
        APP_STATE_READY \<Rightarrow> HRIL_SIM_READY
      | APP_STATE_PIN \<Rightarrow> HRIL_SIM_PIN
      | APP_STATE_PUK \<Rightarrow> HRIL_SIM_PUK
      | APP_STATE_DETECTED \<Rightarrow> HRIL_SIM_NOT_READY
      | APP_STATE_SUBSCRIPTION_PERSO \<Rightarrow> HRIL_PH_NET_PIN
      | APP_STATE_OTHER \<Rightarrow> HRIL_SIM_NOT_READY)"

text \<open>The result is the card state and the application identifier.\<close>

definition ToHrilCardState :: "CardStatus \<Rightarrow> HRilCardState \<times> string" where
  "ToHrilCardState cardStatus =
     (let out = \<lparr>cs_index = 0, cs_simType = HRIL_SIM_TYPE_UNKNOWN, cs_simState = HRIL_SIM_NOT_INSERTED,
                 cs_iccid = cd_iccid cardStatus\<rparr>
      in if cd_cardState cardStatus \<noteq> 1
         then (out\<lparr>cs_simState := (if cd_cardState cardStatus = 0 then HRIL_SIM_NOT_INSERTED else HRIL_SIM_NOT_READY)\<rparr>, [])
         else let appIndex = cd_gsmUmtsSubscriptionAppIndex cardStatus
              in if appIndex < 0 \<or> appIndex \<ge> int (length (cd_applications cardStatus))
                 then (out\<lparr>cs_simState := HRIL_SIM_NOT_READY\<rparr>, [])
                 else let app = cd_applications cardStatus ! nat appIndex
                      in (out\<lparr>cs_simType := to_sim_type (as_appType app), cs_simState := to_sim_state (as_appState app)\<rparr>,
                          as_aidPtr app))"

section \<open>Responses\<close>

definition getIccCardStatusResponse :: "int \<Rightarrow> RadioResponseInfo \<Rightarrow> CardStatus \<Rightarrow> ril \<Rightarrow> ril" where
  "getIccCardStatusResponse slotId info cardStatus s =
     (case ToHrilCardState cardStatus of (state, aid) \<Rightarrow>
        respond ReportSim info (\<lambda>_. CardData state) (RememberAppAid slotId aid s))"

definition iccIoForAppResponse :: "RadioResponseInfo \<Rightarrow> int \<Rightarrow> int \<Rightarrow> string \<Rightarrow> ril \<Rightarrow> ril" where
  "iccIoForAppResponse info sw1 sw2 simResponse s =
     respond ReportSim info (\<lambda>_. SimIOData sw1 sw2 simResponse) s"

definition enableUiccApplicationsResponse :: "RadioResponseInfo \<Rightarrow> ril \<Rightarrow> ril" where
  "enableUiccApplicationsResponse info s = respond ReportSim info (\<lambda>_. NoData) s"

definition getImsiForAppResponse :: "RadioResponseInfo \<Rightarrow> string \<Rightarrow> ril \<Rightarrow> ril" where
  "getImsiForAppResponse info imsi s = respond ReportSim info (\<lambda>_. StringData imsi) s"

text \<open>\<open>HRIL_UNLOCK_SUCCESS\<close> is \<open>True\<close>.\<close>

definition ReportLockStatus :: "RadioResponseInfo \<Rightarrow> int \<Rightarrow> ril \<Rightarrow> ril" where
  "ReportLockStatus info remaining s = respond ReportSim info (\<lambda>_. LockData (in_error info = RE_NONE) remaining) s"

definition supplyIccPinForAppResponse :: "RadioResponseInfo \<Rightarrow> int \<Rightarrow> ril \<Rightarrow> ril" where
  "supplyIccPinForAppResponse info remainingRetries s = ReportLockStatus info remainingRetries s"
definition supplyIccPukForAppResponse :: "RadioResponseInfo \<Rightarrow> int \<Rightarrow> ril \<Rightarrow> ril" where
  "supplyIccPukForAppResponse info remainingRetries s = ReportLockStatus info remainingRetries s"
definition supplyIccPin2ForAppResponse :: "RadioResponseInfo \<Rightarrow> int \<Rightarrow> ril \<Rightarrow> ril" where
  "supplyIccPin2ForAppResponse info remainingRetries s = ReportLockStatus info remainingRetries s"
definition supplyIccPuk2ForAppResponse :: "RadioResponseInfo \<Rightarrow> int \<Rightarrow> ril \<Rightarrow> ril" where
  "supplyIccPuk2ForAppResponse info remainingRetries s = ReportLockStatus info remainingRetries s"

definition getFacilityLockForAppResponse :: "RadioResponseInfo \<Rightarrow> int \<Rightarrow> ril \<Rightarrow> ril" where
  "getFacilityLockForAppResponse info response s =
     respond ReportCall info (\<lambda>_. CallData (RestrictionData (if response \<noteq> 0 then 1 else 0) response)) s"

definition setFacilityLockForAppResponse :: "RadioResponseInfo \<Rightarrow> int \<Rightarrow> ril \<Rightarrow> ril" where
  "setFacilityLockForAppResponse info retry s = respond ReportCall info (\<lambda>_. NoData) s"

section \<open>Indications\<close>

definition simStatusChanged :: "int \<Rightarrow> ril \<Rightarrow> ril" where
  "simStatusChanged slotId s = NotifySim slotId HNOTI_SIM_STATUS_CHANGED NoData s"

definition simRefresh :: "int \<Rightarrow> ril \<Rightarrow> ril" where
  "simRefresh slotId s = NotifySim slotId HNOTI_SIM_STATUS_CHANGED NoData s"

section \<open>Requests\<close>

definition GetSimStatus :: "ReqDataInfo option \<Rightarrow> ril \<Rightarrow> ril" where
  "GetSimStatus requestInfo s =
     (case RequireSim requestInfo s of
        (None, s) \<Rightarrow> s
      | (Some sim, s) \<Rightarrow> tracked_call sim (IRadioSim A_getIccCardStatus) requestInfo s)"

text \<open>\<open>RequireSim\<close> has found a request, so its slot can be read.\<close>

definition request_slot :: "ReqDataInfo option \<Rightarrow> int" where
  "request_slot requestInfo = (case requestInfo of None \<Rightarrow> 0 | Some r \<Rightarrow> rq_slotId r)"

definition GetSimImsi :: "ReqDataInfo option \<Rightarrow> ril \<Rightarrow> ril" where
  "GetSimImsi requestInfo s =
     (case RequireSim requestInfo s of
        (None, s) \<Rightarrow> s
      | (Some sim, s) \<Rightarrow> tracked_call sim (IRadioSim (A_getImsiForApp (AppAid (request_slot requestInfo) s))) requestInfo s)"

record HRilSimIO =
  si_command :: int
  si_fileid :: int
  si_pathid :: "string option"
  si_p1 :: int
  si_p2 :: int
  si_p3 :: int
  si_data :: "string option"
  si_pin2 :: "string option"

text \<open>\<open>len_ok\<close> is \<open>dataLen >= sizeof(HRilSimIO)\<close>.\<close>

definition GetSimIO :: "HRilSimIO option \<Rightarrow> bool \<Rightarrow> ReqDataInfo option \<Rightarrow> ril \<Rightarrow> ril" where
  "GetSimIO data_p len_ok requestInfo s =
     (case RequireSim requestInfo s of
        (None, s) \<Rightarrow> s
      | (Some sim, s) \<Rightarrow>
          (case data_p of
             None \<Rightarrow> ReportSim requestInfo HRIL_ERR_INVALID_PARAMETER NoData s
           | Some d \<Rightarrow>
               if \<not> len_ok then ReportSim requestInfo HRIL_ERR_INVALID_PARAMETER NoData s
               else tracked_call sim (IRadioSim (A_iccIoForApp
                      \<lparr>io_command = si_command d, io_fileId = si_fileid d, io_path = c_str_or_empty (si_pathid d),
                       io_p1 = si_p1 d, io_p2 = si_p2 d, io_p3 = si_p3 d, io_data = c_str_or_empty (si_data d),
                       io_pin2 = c_str_or_empty (si_pin2 d), io_aid = AppAid (request_slot requestInfo) s\<rparr>))
                      requestInfo s))"

definition SetActiveSim :: "int \<Rightarrow> int \<Rightarrow> ReqDataInfo option \<Rightarrow> ril \<Rightarrow> ril" where
  "SetActiveSim idx enable requestInfo s =
     (case RequireSim requestInfo s of
        (None, s) \<Rightarrow> s
      | (Some sim, s) \<Rightarrow> tracked_call sim (IRadioSim (A_enableUiccApplications (enable \<noteq> 0))) requestInfo s)"

definition UnlockPin :: "string option \<Rightarrow> ReqDataInfo option \<Rightarrow> ril \<Rightarrow> ril" where
  "UnlockPin pin requestInfo s =
     (case RequireSim requestInfo s of
        (None, s) \<Rightarrow> s
      | (Some sim, s) \<Rightarrow> tracked_call sim (IRadioSim (A_supplyIccPinForApp (c_str_or_empty pin) [])) requestInfo s)"

definition UnlockPuk :: "string option \<Rightarrow> string option \<Rightarrow> ReqDataInfo option \<Rightarrow> ril \<Rightarrow> ril" where
  "UnlockPuk puk pin requestInfo s =
     (case RequireSim requestInfo s of
        (None, s) \<Rightarrow> s
      | (Some sim, s) \<Rightarrow>
          tracked_call sim (IRadioSim (A_supplyIccPukForApp (c_str_or_empty puk) (c_str_or_empty pin) [])) requestInfo s)"

definition UnlockPin2 :: "string option \<Rightarrow> ReqDataInfo option \<Rightarrow> ril \<Rightarrow> ril" where
  "UnlockPin2 pin2 requestInfo s =
     (case RequireSim requestInfo s of
        (None, s) \<Rightarrow> s
      | (Some sim, s) \<Rightarrow> tracked_call sim (IRadioSim (A_supplyIccPin2ForApp (c_str_or_empty pin2) [])) requestInfo s)"

definition UnlockPuk2 :: "string option \<Rightarrow> string option \<Rightarrow> ReqDataInfo option \<Rightarrow> ril \<Rightarrow> ril" where
  "UnlockPuk2 puk2 pin2 requestInfo s =
     (case RequireSim requestInfo s of
        (None, s) \<Rightarrow> s
      | (Some sim, s) \<Rightarrow>
          tracked_call sim (IRadioSim (A_supplyIccPuk2ForApp (c_str_or_empty puk2) (c_str_or_empty pin2) [])) requestInfo s)"

definition SlotHasSimApp :: "int \<Rightarrow> ril \<Rightarrow> bool" where
  "SlotHasSimApp slotId s \<longleftrightarrow> AppAid slotId s \<noteq> []"

section \<open>The tables\<close>

datatype sim_op = Op_GetSimStatus | Op_GetSimIO "HRilSimIO option" bool | Op_GetSimImsi | Op_UnlockPin "string option"
  | Op_UnlockPuk "string option" "string option" | Op_UnlockPin2 "string option"
  | Op_UnlockPuk2 "string option" "string option" | Op_SetActiveSim int int

definition SimOps :: "sim_op \<Rightarrow> ReqDataInfo option \<Rightarrow> ril \<Rightarrow> ril" where
  "SimOps op =
     (case op of
        Op_GetSimStatus \<Rightarrow> GetSimStatus
      | Op_GetSimIO d len_ok \<Rightarrow> GetSimIO d len_ok
      | Op_GetSimImsi \<Rightarrow> GetSimImsi
      | Op_UnlockPin pin \<Rightarrow> UnlockPin pin
      | Op_UnlockPuk puk pin \<Rightarrow> UnlockPuk puk pin
      | Op_UnlockPin2 pin2 \<Rightarrow> UnlockPin2 pin2
      | Op_UnlockPuk2 puk2 pin2 \<Rightarrow> UnlockPuk2 puk2 pin2
      | Op_SetActiveSim idx enable \<Rightarrow> SetActiveSim idx enable)"

datatype sim_msg = Rsp_getIccCardStatus int RadioResponseInfo CardStatus
  | Rsp_iccIoForApp RadioResponseInfo int int string | Rsp_enableUiccApplications RadioResponseInfo
  | Rsp_getImsiForApp RadioResponseInfo string | Rsp_supplyIccPin RadioResponseInfo int
  | Rsp_supplyIccPuk RadioResponseInfo int | Rsp_supplyIccPin2 RadioResponseInfo int
  | Rsp_supplyIccPuk2 RadioResponseInfo int | Rsp_getFacilityLock RadioResponseInfo int
  | Rsp_setFacilityLock RadioResponseInfo int | Ind_simStatusChanged int | Ind_simRefresh int

definition SimCallbacks :: "sim_msg \<Rightarrow> ril \<Rightarrow> ril" where
  "SimCallbacks m =
     (case m of
        Rsp_getIccCardStatus slotId info cardStatus \<Rightarrow> getIccCardStatusResponse slotId info cardStatus
      | Rsp_iccIoForApp info sw1 sw2 r \<Rightarrow> iccIoForAppResponse info sw1 sw2 r
      | Rsp_enableUiccApplications info \<Rightarrow> enableUiccApplicationsResponse info
      | Rsp_getImsiForApp info imsi \<Rightarrow> getImsiForAppResponse info imsi
      | Rsp_supplyIccPin info n \<Rightarrow> supplyIccPinForAppResponse info n
      | Rsp_supplyIccPuk info n \<Rightarrow> supplyIccPukForAppResponse info n
      | Rsp_supplyIccPin2 info n \<Rightarrow> supplyIccPin2ForAppResponse info n
      | Rsp_supplyIccPuk2 info n \<Rightarrow> supplyIccPuk2ForAppResponse info n
      | Rsp_getFacilityLock info n \<Rightarrow> getFacilityLockForAppResponse info n
      | Rsp_setFacilityLock info n \<Rightarrow> setFacilityLockForAppResponse info n
      | Ind_simStatusChanged slotId \<Rightarrow> simStatusChanged slotId
      | Ind_simRefresh slotId \<Rightarrow> simRefresh slotId)"

section \<open>The contract\<close>

lemmas sim_request_defs = GetSimStatus_def GetSimIO_def GetSimImsi_def UnlockPin_def UnlockPuk_def UnlockPin2_def
  UnlockPuk2_def SetActiveSim_def

lemmas sim_response_defs = getIccCardStatusResponse_def iccIoForAppResponse_def enableUiccApplicationsResponse_def
  getImsiForAppResponse_def supplyIccPinForAppResponse_def supplyIccPukForAppResponse_def
  supplyIccPin2ForAppResponse_def supplyIccPuk2ForAppResponse_def ReportLockStatus_def
  getFacilityLockForAppResponse_def setFacilityLockForAppResponse_def simStatusChanged_def simRefresh_def

lemma remember_quiet: "quiet s (RememberAppAid slotId aid s)"
  by (rule quiet_frame) (simp_all add: RememberAppAid_def)

interpretation sim: radio_domain SimOps SimCallbacks
proof
  show "settles 2 [r] s (SimOps op (Some r) s)" for r s op
    by (cases op) (simp_all add: SimOps_def sim_request_defs report_defs require_defs settle_steps settle_require
        split: option.split)
  show "settles 2 [] s (SimCallbacks m s)" for s m
    by (cases m) (simp_all add: SimCallbacks_def sim_response_defs report_defs notify_defs settle_steps
        settle_respond remember_quiet split: prod.split)
qed

end
