(* ===== verification/Ril_Connect.thy ===== *)
theory Ril_Connect
  imports Ril_Modem Ril_Sim
begin

text \<open>
  How the bridge finds the radio services: \<open>Start\<close>, \<open>ConnectLoop\<close> and what they call in
  \<open>hardware/ril/src/hybris_ril_bridge.cpp\<close>, and \<open>hybris_ril_presence.cpp\<close>.

  \<^item> \<open>conn\<close> is the connect thread: the milliseconds it has slept and the state of the bridge.
  \<^item> What the thread asks of the system is the record \<open>cenv\<close>: the service manager, \<open>/proc\<close>, the
    system parameters and libbinder, as functions of the time. \<open>ce_others\<close> is what the other threads
    of the process do to the bridge while this one sleeps.
  \<^item> The wait for slot 0 has no bound in the code, so the loop takes fuel; \<open>connect_completes\<close> says
    when it ends.
\<close>

section \<open>The environment\<close>

datatype iface = I_Modem | I_Network | I_Sim | I_Messaging | I_Data | I_Voice | I_Ims

text \<open>\<open>descriptor\<close> of the generated interface classes under \<open>aidl_gen\<close>.\<close>

definition aidl_descriptor :: "iface \<Rightarrow> string" where
  "aidl_descriptor i =
     (case i of
        I_Modem \<Rightarrow> ''android.hardware.radio.modem.IRadioModem''
      | I_Network \<Rightarrow> ''android.hardware.radio.network.IRadioNetwork''
      | I_Sim \<Rightarrow> ''android.hardware.radio.sim.IRadioSim''
      | I_Messaging \<Rightarrow> ''android.hardware.radio.messaging.IRadioMessaging''
      | I_Data \<Rightarrow> ''android.hardware.radio.data.IRadioData''
      | I_Voice \<Rightarrow> ''android.hardware.radio.voice.IRadioVoice''
      | I_Ims \<Rightarrow> ''android.hardware.radio.ims.IRadioIms'')"

text \<open>
  \<open>ce_check\<close> is \<open>AServiceManager_checkService\<close> and \<open>ce_from\<close> is \<open>fromBinder\<close> of a binder that is not
  null; \<open>ce_proc\<close> is the directory \<open>/proc\<close> with the contents of the \<open>comm\<close> files that can be opened,
  \<open>ce_param\<close> the value of \<open>android.composer.ready\<close> and \<open>ce_probed\<close> whether the probe thread has
  returned, at a given time.
\<close>

record cenv =
  ce_check :: "string \<Rightarrow> nat \<Rightarrow> nat option"
  ce_from :: "iface \<Rightarrow> nat \<Rightarrow> nat option"
  ce_proc :: "nat \<Rightarrow> (string \<times> string option) list option"
  ce_param :: "nat \<Rightarrow> string option"
  ce_probed :: "nat \<Rightarrow> bool"
  ce_ndk :: bool
  ce_ims_ok :: bool
  ce_others :: "nat \<Rightarrow> ril \<Rightarrow> ril"

record conn =
  cn_now :: nat
  cn_ril :: ril

definition sleep_ms :: "cenv \<Rightarrow> nat \<Rightarrow> conn \<Rightarrow> conn" where
  "sleep_ms env ms c = c\<lparr>cn_now := cn_now c + ms, cn_ril := ce_others env (cn_now c) (cn_ril c)\<rparr>"

definition on_ril :: "(ril \<Rightarrow> ril) \<Rightarrow> conn \<Rightarrow> conn" where
  "on_ril f c = c\<lparr>cn_ril := f (cn_ril c)\<rparr>"

text \<open>\<open>for (waited = 0; waited < timeout; waited += ms) { if (test) return; sleep(ms); }\<close>\<close>

fun poll :: "nat \<Rightarrow> nat \<Rightarrow> (nat \<Rightarrow> 'a option) \<Rightarrow> cenv \<Rightarrow> conn \<Rightarrow> 'a option \<times> conn" where
  "poll 0 ms test env c = (None, c)"
| "poll (Suc n) ms test env c =
     (case test (cn_now c) of
        Some x \<Rightarrow> (Some x, c)
      | None \<Rightarrow> poll n ms test env (sleep_ms env ms c))"

definition poll_rounds :: "nat \<Rightarrow> nat \<Rightarrow> nat" where
  "poll_rounds timeout ms = (timeout + ms - 1) div ms"

definition on_true :: "bool \<Rightarrow> unit option" where
  "on_true b = (if b then Some () else None)"

section \<open>One slot\<close>

definition AWAIT_POLL_MS :: nat where "AWAIT_POLL_MS = 1000"
definition AWAIT_TIMEOUT_MS :: nat where "AWAIT_TIMEOUT_MS = 300000"

definition AwaitService :: "string \<Rightarrow> cenv \<Rightarrow> conn \<Rightarrow> nat option \<times> conn" where
  "AwaitService name env c = poll (poll_rounds AWAIT_TIMEOUT_MS AWAIT_POLL_MS) AWAIT_POLL_MS (ce_check env name) env c"

definition service_name :: "iface \<Rightarrow> nat \<Rightarrow> string" where
  "service_name i slotId = aidl_descriptor i @ ''/slot'' @ to_string (slotId + 1)"

text \<open>\<open>Iface::fromBinder(AwaitService(name))\<close>\<close>

definition find_service :: "iface \<Rightarrow> nat \<Rightarrow> cenv \<Rightarrow> conn \<Rightarrow> nat option \<times> conn" where
  "find_service i slotId env c =
     (case AwaitService (service_name i slotId) env c of
        (None, c) \<Rightarrow> (None, c)
      | (Some b, c) \<Rightarrow> (ce_from env i b, c))"

definition AttachCallbacks :: "nat \<Rightarrow> ril \<Rightarrow> ril" where
  "AttachCallbacks service s = aidl service None A_setResponseFunctions s"

definition AttachModemCallbacks :: "nat \<Rightarrow> ril \<Rightarrow> ril" where "AttachModemCallbacks = AttachCallbacks"
definition AttachSimCallbacks :: "nat \<Rightarrow> ril \<Rightarrow> ril" where "AttachSimCallbacks = AttachCallbacks"
definition AttachNetworkCallbacks :: "nat \<Rightarrow> ril \<Rightarrow> ril" where "AttachNetworkCallbacks = AttachCallbacks"
definition AttachMessagingCallbacks :: "nat \<Rightarrow> ril \<Rightarrow> ril" where "AttachMessagingCallbacks = AttachCallbacks"
definition AttachDataCallbacks :: "nat \<Rightarrow> ril \<Rightarrow> ril" where "AttachDataCallbacks = AttachCallbacks"
definition AttachVoiceCallbacks :: "nat \<Rightarrow> ril \<Rightarrow> ril" where "AttachVoiceCallbacks = AttachCallbacks"

lemmas attach_defs = AttachModemCallbacks_def AttachSimCallbacks_def AttachNetworkCallbacks_def
  AttachMessagingCallbacks_def AttachDataCallbacks_def AttachVoiceCallbacks_def AttachCallbacks_def

definition RegisterStub :: "iface \<Rightarrow> nat \<Rightarrow> cenv \<Rightarrow> conn \<Rightarrow> bool \<times> conn" where
  "RegisterStub i slotId env c =
     (case find_service i slotId env c of
        (None, c) \<Rightarrow> (False, c)
      | (Some service, c) \<Rightarrow> (ce_ims_ok env, on_ril (AttachCallbacks service) c))"

definition AttachPresenceCallbacks :: "nat \<Rightarrow> cenv \<Rightarrow> conn \<Rightarrow> bool \<times> conn" where
  "AttachPresenceCallbacks slotId env c = RegisterStub I_Ims slotId env c"

text \<open>What \<open>ConnectSlot\<close> does once it holds the six services.\<close>

record services =
  sv_modem :: nat
  sv_sim :: nat
  sv_network :: nat
  sv_messaging :: nat
  sv_data :: nat
  sv_voice :: nat

definition store_services :: "nat \<Rightarrow> services \<Rightarrow> ril \<Rightarrow> ril" where
  "store_services slotId v s =
     s\<lparr>rb_modem := (rb_modem s)[slotId := Some (sv_modem v)], rb_sim := (rb_sim s)[slotId := Some (sv_sim v)],
       rb_network := (rb_network s)[slotId := Some (sv_network v)],
       rb_messaging := (rb_messaging s)[slotId := Some (sv_messaging v)],
       rb_data := (rb_data s)[slotId := Some (sv_data v)], rb_voice := (rb_voice s)[slotId := Some (sv_voice v)]\<rparr>"

definition bind_slot :: "nat \<Rightarrow> services \<Rightarrow> ril \<Rightarrow> ril" where
  "bind_slot slotId v s =
     AttachVoiceCallbacks (sv_voice v) (AttachDataCallbacks (sv_data v)
       (AttachMessagingCallbacks (sv_messaging v) (AttachNetworkCallbacks (sv_network v)
         (AttachSimCallbacks (sv_sim v) (AttachModemCallbacks (sv_modem v) (store_services slotId v s))))))"

text \<open>\<open>auto x = \<dots>; if (x == nullptr) return false; \<dots>\<close>\<close>

definition find_then :: "iface \<Rightarrow> nat \<Rightarrow> cenv \<Rightarrow> conn \<Rightarrow> (nat \<Rightarrow> conn \<Rightarrow> bool \<times> conn) \<Rightarrow> bool \<times> conn" where
  "find_then i slotId env c f =
     (case find_service i slotId env c of (None, c) \<Rightarrow> (False, c) | (Some x, c) \<Rightarrow> f x c)"

definition ConnectSlot :: "nat \<Rightarrow> cenv \<Rightarrow> conn \<Rightarrow> bool \<times> conn" where
  "ConnectSlot slotId env c =
     find_then I_Modem slotId env c (\<lambda>m c.
     find_then I_Network slotId env c (\<lambda>n c.
     find_then I_Sim slotId env c (\<lambda>si c.
     find_then I_Messaging slotId env c (\<lambda>ms c.
     find_then I_Data slotId env c (\<lambda>d c.
     find_then I_Voice slotId env c (\<lambda>v c.
       let found = \<lparr>sv_modem = m, sv_sim = si, sv_network = n, sv_messaging = ms, sv_data = d, sv_voice = v\<rparr>
       in (True, snd (AttachPresenceCallbacks slotId env (on_ril (bind_slot slotId found) c)))))))))"

section \<open>The gates in front of binder\<close>

text \<open>\<open>fgets\<close> into 64 bytes, cut at the newline; \<open>strcmp\<close> stops at a NUL.\<close>

definition comm_line :: "string \<Rightarrow> string" where
  "comm_line content = takeWhile (\<lambda>ch. ch \<noteq> CHR 0x0A \<and> ch \<noteq> CHR 0x00) (take 63 content)"

definition is_pid :: "string \<Rightarrow> bool" where
  "is_pid name = (case name of [] \<Rightarrow> False | ch # _ \<Rightarrow> of_char ch \<ge> (48 :: nat) \<and> of_char ch \<le> (57 :: nat))"

fun scan_proc :: "string \<Rightarrow> (string \<times> string option) list \<Rightarrow> bool" where
  "scan_proc want [] = False"
| "scan_proc want ((name, comm) # entries) =
     (if \<not> is_pid name then scan_proc want entries
      else (case comm of
              None \<Rightarrow> scan_proc want entries
            | Some content \<Rightarrow> content \<noteq> [] \<and> comm_line content = want \<or> scan_proc want entries))"

definition ContainerProcessUp :: "string \<Rightarrow> cenv \<Rightarrow> nat \<Rightarrow> bool" where
  "ContainerProcessUp want env now = (case ce_proc env now of None \<Rightarrow> False | Some entries \<Rightarrow> scan_proc want entries)"

definition PROC_POLL_MS :: nat where "PROC_POLL_MS = 500"

definition WaitForContainerProcess :: "string \<Rightarrow> nat \<Rightarrow> cenv \<Rightarrow> conn \<Rightarrow> bool \<times> conn" where
  "WaitForContainerProcess comm timeoutMs env c =
     (case poll (poll_rounds timeoutMs PROC_POLL_MS) PROC_POLL_MS (on_true \<circ> ContainerProcessUp comm env) env c of
        (r, c) \<Rightarrow> (r \<noteq> None, c))"

definition PROBE_POLL_MS :: nat where "PROBE_POLL_MS = 100"

definition ProbeServiceManager :: "nat \<Rightarrow> cenv \<Rightarrow> conn \<Rightarrow> bool \<times> conn" where
  "ProbeServiceManager timeoutMs env c =
     (case poll (poll_rounds timeoutMs PROBE_POLL_MS) PROBE_POLL_MS (on_true \<circ> ce_probed env) env c of
        (r, c) \<Rightarrow> (r \<noteq> None, c))"

definition CONTAINER_POLL_MS :: nat where "CONTAINER_POLL_MS = 500"
definition CONTAINER_TIMEOUT_MS :: nat where "CONTAINER_TIMEOUT_MS = 180000"

definition container_ready :: "cenv \<Rightarrow> nat \<Rightarrow> bool" where
  "container_ready env now = (case ce_param env now of Some (ch # _) \<Rightarrow> ch = CHR ''1'' | _ \<Rightarrow> False)"

definition WaitForContainer :: "cenv \<Rightarrow> conn \<Rightarrow> conn" where
  "WaitForContainer env c =
     snd (poll (poll_rounds CONTAINER_TIMEOUT_MS CONTAINER_POLL_MS) CONTAINER_POLL_MS (on_true \<circ> container_ready env) env c)"

definition SM_TIMEOUT_MS :: nat where "SM_TIMEOUT_MS = 180000"
definition RILD_TIMEOUT_MS :: nat where "RILD_TIMEOUT_MS = 60000"

definition WaitForServiceManager :: "cenv \<Rightarrow> conn \<Rightarrow> conn" where
  "WaitForServiceManager env c =
     (case WaitForContainerProcess ''servicemanager'' SM_TIMEOUT_MS env c of
        (False, c) \<Rightarrow> c
      | (True, c) \<Rightarrow> snd (WaitForContainerProcess ''mtkfusionrild'' RILD_TIMEOUT_MS env c))"

section \<open>The connect thread\<close>

definition PROBE_TIMEOUT_MS :: nat where "PROBE_TIMEOUT_MS = 15000"
definition EXTRA_SLOT_TRIES :: nat where "EXTRA_SLOT_TRIES = 15"
definition RETRY_SLEEP_MS :: nat where "RETRY_SLEEP_MS = 2000"

fun connect_slot_loop :: "nat \<Rightarrow> nat \<Rightarrow> nat \<Rightarrow> cenv \<Rightarrow> conn \<Rightarrow> conn option" where
  "connect_slot_loop 0 slot tries env c = None"
| "connect_slot_loop (Suc fuel) slot tries env c =
     (case ConnectSlot slot env c of
        (True, c) \<Rightarrow> Some c
      | (False, c) \<Rightarrow>
          if slot > 0 \<and> tries + 1 \<ge> EXTRA_SLOT_TRIES then Some c
          else connect_slot_loop fuel slot (if slot > 0 then tries + 1 else tries) env (sleep_ms env RETRY_SLEEP_MS c))"

fun connect_slots :: "nat \<Rightarrow> nat list \<Rightarrow> cenv \<Rightarrow> conn \<Rightarrow> conn option" where
  "connect_slots fuel [] env c = Some c"
| "connect_slots fuel (slot # slots) env c =
     (case connect_slot_loop fuel slot 0 env c of
        None \<Rightarrow> None
      | Some c \<Rightarrow> connect_slots fuel slots env c)"

definition SLOTS :: "nat list" where "SLOTS = [0, 1]"

definition announce_off :: "nat \<Rightarrow> ril \<Rightarrow> ril" where
  "announce_off slot s =
     NotifySim (int slot) HNOTI_SIM_STATUS_CHANGED NoData
       (NotifyModem (int slot) HNOTI_MODEM_RADIO_STATE_UPDATED (PowerData HRIL_RADIO_POWER_STATE_OFF) s)"

text \<open>One round of the loop over the slots; the boolean is \<open>pending\<close>.\<close>

definition wants_nudge :: "nat \<Rightarrow> ril \<Rightarrow> bool" where
  "wants_nudge slot s \<longleftrightarrow> SlotHasSimApp (int slot) s \<and> CachedRadioState (int slot) s = HRIL_RADIO_POWER_STATE_OFF"

fun nudge_slots :: "nat list \<Rightarrow> bool \<Rightarrow> ril \<Rightarrow> bool \<times> ril" where
  "nudge_slots [] pending s = (pending, s)"
| "nudge_slots (slot # slots) pending s =
     (if \<not> wants_nudge slot s then nudge_slots slots pending s
      else nudge_slots slots True
        (NotifyModem (int slot) HNOTI_MODEM_RADIO_STATE_UPDATED (PowerData HRIL_RADIO_POWER_STATE_OFF) s))"

definition NUDGE_INTERVAL_MS :: nat where "NUDGE_INTERVAL_MS = 3000"
definition NUDGE_ROUNDS :: nat where "NUDGE_ROUNDS = 30"

text \<open>\<open>n\<close> rounds are left, \<open>again\<close> says that this is not the first.\<close>

fun nudge_rounds :: "nat \<Rightarrow> bool \<Rightarrow> cenv \<Rightarrow> conn \<Rightarrow> conn" where
  "nudge_rounds 0 again env c = c"
| "nudge_rounds (Suc n) again env c =
     (let c = sleep_ms env NUDGE_INTERVAL_MS c
      in case nudge_slots SLOTS False (cn_ril c) of (pending, s) \<Rightarrow>
           let c = c\<lparr>cn_ril := s\<rparr>
           in if \<not> pending \<and> again then c else nudge_rounds n True env c)"

text \<open>How the thread ends: \<open>return\<close> without libbinder, \<open>_exit(1)\<close>, or connected.\<close>

datatype conn_end = NoBinder | Wedged | Connected

definition ConnectLoop :: "nat \<Rightarrow> cenv \<Rightarrow> conn \<Rightarrow> (conn_end \<times> conn) option" where
  "ConnectLoop fuel env c =
     (let c = WaitForContainer env c
      in if \<not> ce_ndk env then Some (NoBinder, c)
         else case ProbeServiceManager PROBE_TIMEOUT_MS env (WaitForServiceManager env c) of
             (False, c) \<Rightarrow> Some (Wedged, c)
           | (True, c) \<Rightarrow>
               (case connect_slots fuel SLOTS env c of
                  None \<Rightarrow> None
                | Some c \<Rightarrow>
                    let c = on_ril (\<lambda>s. fold announce_off SLOTS (s\<lparr>rb_connected := True\<rparr>)) c
                    in Some (Connected, nudge_rounds NUDGE_ROUNDS False env c)))"

text \<open>\<open>Start\<close> records the callbacks of \<open>hril\<close> and starts the thread.\<close>

definition BridgeStart :: "ril \<Rightarrow> conn" where
  "BridgeStart s = \<lparr>cn_now = 0, cn_ril = s\<lparr>rb_reportOps := True\<rparr>\<rparr>"

section \<open>Waiting\<close>

lemma sleep_now [simp]: "cn_now (sleep_ms env ms c) = cn_now c + ms"
  by (simp add: sleep_ms_def)

lemma on_ril_simps [simp]: "cn_now (on_ril f c) = cn_now c" "cn_ril (on_ril f c) = f (cn_ril c)"
  by (simp_all add: on_ril_def)

lemma poll_hit: "0 < n \<Longrightarrow> test (cn_now c) = Some x \<Longrightarrow> poll n ms test env c = (Some x, c)"
  by (cases n) simp_all

lemma poll_time: "poll n ms test env c = (r, c') \<Longrightarrow> cn_now c \<le> cn_now c' \<and> cn_now c' \<le> cn_now c + n * ms"
proof (induction n arbitrary: c)
  case (Suc n)
  then show ?case by (fastforce split: option.splits)
qed simp

lemma find_time: "find_service i slotId env c = (r, c') \<Longrightarrow> cn_now c \<le> cn_now c'"
  by (auto simp: find_service_def AwaitService_def dest: poll_time split: prod.splits option.splits)

lemma await_rounds: "0 < poll_rounds AWAIT_TIMEOUT_MS AWAIT_POLL_MS"
  by (simp add: poll_rounds_def AWAIT_TIMEOUT_MS_def AWAIT_POLL_MS_def)

lemma find_hit:
  "ce_check env (service_name i slotId) (cn_now c) = Some b \<Longrightarrow> find_service i slotId env c = (ce_from env i b, c)"
  using poll_hit [OF await_rounds, of "ce_check env (service_name i slotId)" c b]
  by (simp add: find_service_def AwaitService_def)

section \<open>What a step of the thread keeps\<close>

definition attached :: "nat \<Rightarrow> ril \<Rightarrow> bool" where
  "attached h s \<longleftrightarrow> \<lparr>ac_handle = h, ac_serial = None, ac_method = A_setResponseFunctions\<rparr> \<in> set (rb_aidl s)"

definition slot_services :: "nat \<Rightarrow> ril \<Rightarrow> nat option list" where
  "slot_services slot s =
     [rb_modem s ! slot, rb_sim s ! slot, rb_network s ! slot, rb_messaging s ! slot, rb_data s ! slot, rb_voice s ! slot]"

text \<open>All six services of the slot are there and have the response objects.\<close>

definition slot_ready :: "nat \<Rightarrow> ril \<Rightarrow> bool" where
  "slot_ready slot s \<longleftrightarrow> (\<forall>x \<in> set (slot_services slot s). case x of None \<Rightarrow> False | Some h \<Rightarrow> attached h s)"

definition two_slots :: "ril \<Rightarrow> bool" where
  "two_slots s \<longleftrightarrow> length (rb_modem s) = 2 \<and> length (rb_sim s) = 2 \<and> length (rb_network s) = 2 \<and>
     length (rb_messaging s) = 2 \<and> length (rb_data s) = 2 \<and> length (rb_voice s) = 2"

definition keeps :: "nat \<Rightarrow> ril \<Rightarrow> ril \<Rightarrow> bool" where
  "keeps slot s s' \<longleftrightarrow> slot_services slot s' = slot_services slot s \<and> set (rb_aidl s) \<subseteq> set (rb_aidl s') \<and>
     (rb_connected s \<longrightarrow> rb_connected s') \<and> (two_slots s \<longrightarrow> two_slots s')"

text \<open>The other threads neither take a service away nor a call back.\<close>

definition polite :: "cenv \<Rightarrow> bool" where
  "polite env \<longleftrightarrow> (\<forall>slot t s. keeps slot s (ce_others env t s))"

lemma keeps_refl [simp]: "keeps slot s s"
  by (simp add: keeps_def)

lemma keeps_trans: "keeps slot s s1 \<Longrightarrow> keeps slot s1 s2 \<Longrightarrow> keeps slot s s2"
  by (auto simp: keeps_def)

lemma keeps_ready: "keeps slot s s' \<Longrightarrow> slot_ready slot s \<Longrightarrow> slot_ready slot s'"
  by (fastforce simp: keeps_def slot_ready_def attached_def split: option.splits)

lemma keeps_two: "keeps slot s s' \<Longrightarrow> two_slots s \<Longrightarrow> two_slots s'"
  by (simp add: keeps_def)

lemma keeps_aidl: "keeps slot s (aidl h serial m s)"
  by (auto simp: keeps_def aidl_def slot_services_def two_slots_def)

lemma keeps_notify: "keeps slot s (notify part sl n d s)"
  by (auto simp: keeps_def notify_def slot_services_def two_slots_def)

lemma keeps_sleep: "polite env \<Longrightarrow> keeps slot (cn_ril c) (cn_ril (sleep_ms env ms c))"
  by (simp add: polite_def sleep_ms_def)

lemma keeps_poll: "polite env \<Longrightarrow> poll n ms test env c = (r, c') \<Longrightarrow> keeps slot (cn_ril c) (cn_ril c')"
proof (induction n arbitrary: c)
  case (Suc n)
  then show ?case
    by (cases "test (cn_now c)") (auto intro: keeps_trans [OF keeps_sleep])
qed simp

lemma keeps_find: "polite env \<Longrightarrow> find_service i sl env c = (r, c') \<Longrightarrow> keeps slot (cn_ril c) (cn_ril c')"
  by (auto simp: find_service_def AwaitService_def dest: keeps_poll split: prod.splits option.splits)

lemma keeps_presence: "polite env \<Longrightarrow> keeps slot (cn_ril c) (cn_ril (snd (AttachPresenceCallbacks sl env c)))"
  by (cases "find_service I_Ims sl env c")
    (auto simp: AttachPresenceCallbacks_def RegisterStub_def AttachCallbacks_def split: option.split
      intro: keeps_find keeps_trans [OF _ keeps_aidl])

lemma keeps_bind: "slot \<noteq> sl \<Longrightarrow> keeps slot s (bind_slot sl v s)"
  by (auto simp: keeps_def bind_slot_def attach_defs aidl_def store_services_def slot_services_def two_slots_def)

lemma bind_ready: "two_slots s \<Longrightarrow> slot < 2 \<Longrightarrow> slot_ready slot (bind_slot slot v s)"
  by (auto simp: slot_ready_def slot_services_def bind_slot_def attach_defs aidl_def store_services_def attached_def
      two_slots_def)

section \<open>Connecting\<close>

text \<open>Where the thread may be after waiting from \<open>c\<close> on.\<close>

definition later :: "conn \<Rightarrow> conn \<Rightarrow> bool" where
  "later c d \<longleftrightarrow> (\<forall>j. keeps j (cn_ril c) (cn_ril d)) \<and> cn_now c \<le> cn_now d"

lemma later_refl [simp]: "later c c"
  by (simp add: later_def)

lemma later_trans: "later c d \<Longrightarrow> later d e \<Longrightarrow> later c e"
  by (auto simp: later_def intro: keeps_trans)

lemma later_sleep: "polite env \<Longrightarrow> later c (sleep_ms env ms c)"
  by (simp add: later_def keeps_sleep)

lemma later_poll: "polite env \<Longrightarrow> poll n ms test env c = (r, d) \<Longrightarrow> later c d"
  by (auto simp: later_def dest: keeps_poll poll_time)

text \<open>Either a lookup failed, or the services were found and bound.\<close>

definition slot_outcome :: "nat \<Rightarrow> conn \<Rightarrow> bool \<times> conn \<Rightarrow> bool" where
  "slot_outcome slot c r \<longleftrightarrow> (if fst r
     then \<exists>v d. later c d \<and> (\<forall>j. keeps j (bind_slot slot v (cn_ril d)) (cn_ril (snd r)))
     else later c (snd r))"

lemma find_then_outcome:
  assumes "polite env" "later c0 c" "\<And>x d. later c0 d \<Longrightarrow> slot_outcome slot c0 (f x d)"
  shows "slot_outcome slot c0 (find_then i slot env c f)"
proof -
  obtain r d where f: "find_service i slot env c = (r, d)" by fastforce
  have "later c d" using f assms(1) by (auto simp: later_def dest: keeps_find find_time)
  with assms(2) have "later c0 d" by (rule later_trans)
  with f assms(3) show ?thesis by (cases r) (auto simp: find_then_def slot_outcome_def)
qed

lemma bound_outcome:
  "polite env \<Longrightarrow> later c d \<Longrightarrow>
    slot_outcome slot c (True, snd (AttachPresenceCallbacks slot env (on_ril (bind_slot slot v) d)))"
  using keeps_presence [of env _ "on_ril (bind_slot slot v) d" slot] by (auto simp: slot_outcome_def)

lemma connect_slot_outcome: "polite env \<Longrightarrow> slot_outcome slot c (ConnectSlot slot env c)"
  unfolding ConnectSlot_def Let_def by (intro find_then_outcome bound_outcome later_refl)

lemma connect_slot_ready:
  assumes "polite env" "two_slots (cn_ril c)" "slot < 2" "ConnectSlot slot env c = (True, c')"
  shows "slot_ready slot (cn_ril c')"
proof -
  obtain v d where d: "later c d" "\<And>j. keeps j (bind_slot slot v (cn_ril d)) (cn_ril c')"
    using connect_slot_outcome [OF assms(1), of slot c] assms(4) by (auto simp: slot_outcome_def)
  have "two_slots (cn_ril d)" using d(1) assms(2) by (auto simp: later_def intro: keeps_two)
  from keeps_ready [OF d(2) bind_ready [OF this assms(3)]] show ?thesis .
qed

lemma connect_slot_keeps:
  assumes "polite env" "ConnectSlot slot env c = (ok, c')" "\<not> ok \<or> j \<noteq> slot"
  shows "keeps j (cn_ril c) (cn_ril c')"
  using connect_slot_outcome [OF assms(1), of slot c] assms(2,3)
  by (auto simp: slot_outcome_def later_def split: if_splits
      intro: keeps_trans [OF keeps_trans [OF _ keeps_bind]])

definition services_up :: "cenv \<Rightarrow> nat \<Rightarrow> nat \<Rightarrow> bool" where
  "services_up env slot t \<longleftrightarrow> (\<forall>i. i \<noteq> I_Ims \<longrightarrow>
     (\<exists>b h. ce_check env (service_name i slot) t = Some b \<and> ce_from env i b = Some h))"

lemma connect_when_up: "services_up env slot (cn_now c) \<Longrightarrow> fst (ConnectSlot slot env c)"
proof -
  assume "services_up env slot (cn_now c)"
  then have "\<exists>h. find_service i slot env c = (Some h, c)" if "i \<noteq> I_Ims" for i
    using that find_hit [of env i slot c] by (fastforce simp: services_up_def)
  then obtain g where "find_service i slot env c = (Some (g i), c)" if "i \<noteq> I_Ims" for i by metis
  then show ?thesis by (simp add: ConnectSlot_def find_then_def Let_def)
qed

text \<open>
  C31: A slot is connected as a whole or not at all. When \<open>ConnectSlot\<close> returns true, all six services
  of the slot are there and each was given its response object; when it returns false the slot is as it
  was; the services of the other slot are as they were in both cases.
\<close>

theorem connect_slot_all_or_nothing:
  assumes "polite env" "two_slots (cn_ril c)" "slot < 2" "ConnectSlot slot env c = (ok, c')"
  shows "(if ok then slot_ready slot (cn_ril c') else slot_services slot (cn_ril c') = slot_services slot (cn_ril c)) \<and>
    (\<forall>j. j \<noteq> slot \<longrightarrow> slot_services j (cn_ril c') = slot_services j (cn_ril c))"
  using connect_slot_ready [OF assms(1-3)] connect_slot_keeps [OF assms(1,4)] assms(4) by (auto simp: keeps_def)

text \<open>A device whose services are registered from the start.\<close>

definition sample_env :: cenv where
  "sample_env = \<lparr>ce_check = (\<lambda>name t. Some (length name)), ce_from = (\<lambda>i b. Some b), ce_proc = (\<lambda>t. None), ce_param = (\<lambda>t. Some ''1''), ce_probed = (\<lambda>t. True),
     ce_ndk = True, ce_ims_ok = True, ce_others = (\<lambda>t s. s)\<rparr>"

lemma sample_polite: "polite sample_env"
  by (simp add: polite_def sample_env_def)

lemma sample_up: "services_up sample_env slot t"
  by (simp add: services_up_def sample_env_def service_name_def)

lemma sample_connects: "fst (ConnectSlot slot sample_env c)"
  by (rule connect_when_up [OF sample_up])

theorem connect_slot_all_or_nothing_witness:
  "slot_ready 0 (cn_ril (snd (ConnectSlot 0 sample_env (BridgeStart ril_init))))"
  using connect_slot_all_or_nothing [OF sample_polite, of "BridgeStart ril_init" 0 True
      "snd (ConnectSlot 0 sample_env (BridgeStart ril_init))"] sample_connects [of 0 "BridgeStart ril_init"]
  by (simp add: prod_eq_iff BridgeStart_def ril_init_def two_slots_def)

section \<open>When the thread is done\<close>

lemma slot0_connects:
  assumes "polite env" "two_slots (cn_ril c)" "\<And>t. T \<le> t \<Longrightarrow> services_up env 0 t" "T \<le> cn_now c + 2000 * n"
  shows "\<exists>c'. connect_slot_loop (Suc n) 0 k env c = Some c' \<and> slot_ready 0 (cn_ril c') \<and> two_slots (cn_ril c')"
  using assms(2,4)
proof (induction n arbitrary: c)
  case 0
  then have ok: "fst (ConnectSlot 0 env c)" using assms(3) by (simp add: connect_when_up)
  obtain c' where c': "ConnectSlot 0 env c = (True, c')" using ok by (metis prod.collapse)
  have "keeps 1 (cn_ril c) (cn_ril c')" using connect_slot_keeps [OF assms(1) c'] by simp
  with c' 0 connect_slot_ready [OF assms(1) 0(1) _ c'] show ?case by (auto intro: keeps_two)
next
  case (Suc n)
  obtain ok c' where c': "ConnectSlot 0 env c = (ok, c')" by fastforce
  have two: "two_slots (cn_ril c')" using connect_slot_keeps [OF assms(1) c', of 1] Suc.prems(1) by (auto intro: keeps_two)
  show ?case
  proof (cases ok)
    case True
    with c' Suc.prems(1) connect_slot_ready [OF assms(1), of c 0 c'] two show ?thesis by simp
  next
    case False
    with connect_slot_outcome [OF assms(1), of 0 c] c' have "cn_now c \<le> cn_now c'"
      by (auto simp: slot_outcome_def later_def)
    moreover have "two_slots (cn_ril (sleep_ms env RETRY_SLEEP_MS c'))"
      using keeps_two [OF keeps_sleep [OF assms(1)] two] .
    ultimately have "\<exists>d. connect_slot_loop (Suc n) 0 k env (sleep_ms env RETRY_SLEEP_MS c') = Some d \<and>
        slot_ready 0 (cn_ril d) \<and> two_slots (cn_ril d)"
      using Suc.prems(2) by (intro Suc.IH) (simp_all add: RETRY_SLEEP_MS_def)
    with False c' show ?thesis by (simp del: connect_slot_loop.simps add: connect_slot_loop.simps(2) [of "Suc n"])
  qed
qed

lemma extra_slot_ends:
  assumes "polite env" "j \<noteq> slot" "0 < slot" "EXTRA_SLOT_TRIES \<le> fuel + tries" "tries < EXTRA_SLOT_TRIES"
  shows "\<exists>c'. connect_slot_loop fuel slot tries env c = Some c' \<and> keeps j (cn_ril c) (cn_ril c')"
  using assms(4,5)
proof (induction fuel arbitrary: tries c)
  case (Suc n)
  obtain ok c' where c': "ConnectSlot slot env c = (ok, c')" by fastforce
  have k: "keeps j (cn_ril c) (cn_ril c')" using connect_slot_keeps [OF assms(1) c'] assms(2) by simp
  show ?case
  proof (cases "ok \<or> tries + 1 \<ge> EXTRA_SLOT_TRIES")
    case True
    with c' k assms(3) show ?thesis by (cases ok) simp_all
  next
    case False
    let ?d = "sleep_ms env RETRY_SLEEP_MS c'"
    obtain e where "connect_slot_loop n slot (tries + 1) env ?d = Some e" "keeps j (cn_ril ?d) (cn_ril e)"
      using Suc.IH [of "tries + 1" ?d] Suc.prems False by auto
    moreover have "keeps j (cn_ril c) (cn_ril ?d)" by (rule keeps_trans [OF k keeps_sleep [OF assms(1)]])
    ultimately show ?thesis using False c' assms(3) by (auto intro: keeps_trans)
  qed
qed simp

lemma keeps_nudge_slots: "keeps j s (snd (nudge_slots slots pending s))"
  by (induction slots pending s rule: nudge_slots.induct)
    (auto simp: NotifyModem_def intro: keeps_trans [OF keeps_notify])

lemma keeps_nudge: "polite env \<Longrightarrow> keeps j (cn_ril c) (cn_ril (nudge_rounds n again env c))"
proof (induction n arbitrary: again c)
  case (Suc n)
  let ?c = "sleep_ms env NUDGE_INTERVAL_MS c"
  obtain pending s where s: "nudge_slots SLOTS False (cn_ril ?c) = (pending, s)" by fastforce
  have "keeps j (cn_ril c) s"
    using keeps_trans [OF keeps_sleep [OF Suc.prems] keeps_nudge_slots [of j "cn_ril ?c" SLOTS False]] by (simp add: s)
  with Suc.IH [OF Suc.prems, of "?c\<lparr>cn_ril := s\<rparr>" True] s show ?case by (auto simp: Let_def intro: keeps_trans)
qed simp

lemma keeps_connected: "keeps j s (fold announce_off slots (s\<lparr>rb_connected := True\<rparr>))"
proof -
  have "keeps j t (fold announce_off slots t)" for t
    by (induction slots arbitrary: t)
      (auto simp: announce_off_def NotifySim_def NotifyModem_def intro: keeps_trans [OF keeps_trans [OF keeps_notify keeps_notify]])
  moreover have "keeps j s (s\<lparr>rb_connected := True\<rparr>)" by (simp add: keeps_def slot_services_def two_slots_def)
  ultimately show ?thesis by (blast intro: keeps_trans)
qed

lemma slots_connect:
  assumes "polite env" "two_slots (cn_ril c)" "\<And>t. T \<le> t \<Longrightarrow> services_up env 0 t"
    "T div 2000 + 2 \<le> fuel" "EXTRA_SLOT_TRIES \<le> fuel"
  shows "\<exists>c'. connect_slots fuel SLOTS env c = Some c' \<and> slot_ready 0 (cn_ril c')"
proof -
  obtain n where n: "fuel = Suc n" using assms(4) by (cases fuel) simp_all
  then have "T \<le> cn_now c + 2000 * n" using assms(4) by simp
  from slot0_connects [OF assms(1-3) this, of 0] obtain d
    where d: "connect_slot_loop fuel 0 0 env c = Some d" "slot_ready 0 (cn_ril d)" by (auto simp: n)
  have "\<exists>e. connect_slot_loop fuel 1 0 env d = Some e \<and> keeps 0 (cn_ril d) (cn_ril e)"
    using assms(1,5) by (intro extra_slot_ends) (simp_all add: EXTRA_SLOT_TRIES_def)
  with d show ?thesis by (auto simp: SLOTS_def intro: keeps_ready)
qed

lemma process_later: "polite env \<Longrightarrow> later c (snd (WaitForContainerProcess comm timeoutMs env c))"
  by (auto simp: WaitForContainerProcess_def dest: later_poll split: prod.splits)

lemma gates_later: "polite env \<Longrightarrow> later c (WaitForServiceManager env (WaitForContainer env c))"
proof -
  assume p: "polite env"
  have "later c (WaitForContainer env c)"
    unfolding WaitForContainer_def using later_poll [OF p] by (metis prod.collapse)
  moreover have "later d (WaitForServiceManager env d)" for d
    using process_later [OF p, of d "''servicemanager''" SM_TIMEOUT_MS]
    by (auto simp: WaitForServiceManager_def split: prod.splits bool.splits
        intro: later_trans [OF _ process_later [OF p]])
  ultimately show ?thesis by (rule later_trans)
qed

lemma probe_later: "polite env \<Longrightarrow> ProbeServiceManager timeoutMs env c = (ok, d) \<Longrightarrow> later c d"
  by (auto simp: ProbeServiceManager_def dest: later_poll split: prod.splits)



lemma process_time: "cn_now (snd (WaitForContainerProcess comm timeoutMs env c)) \<le> cn_now c + poll_rounds timeoutMs PROC_POLL_MS * PROC_POLL_MS"
  by (auto simp: WaitForContainerProcess_def dest: poll_time split: prod.splits)

lemma gates_time: "cn_now (WaitForServiceManager env (WaitForContainer env c)) \<le> cn_now c + 420000"
proof -
  have "cn_now (WaitForContainer env c) \<le> cn_now c + 180000"
    by (cases "poll (poll_rounds CONTAINER_TIMEOUT_MS CONTAINER_POLL_MS) CONTAINER_POLL_MS (on_true \<circ> container_ready env) env c")
      (auto dest!: poll_time simp: WaitForContainer_def poll_rounds_def CONTAINER_TIMEOUT_MS_def CONTAINER_POLL_MS_def)
  moreover have "cn_now (WaitForServiceManager env d) \<le> cn_now d + 240000" for d
  proof -
    obtain ok e where e: "WaitForContainerProcess ''servicemanager'' SM_TIMEOUT_MS env d = (ok, e)" by fastforce
    have "cn_now e \<le> cn_now d + 180000"
      using process_time [of "''servicemanager''" SM_TIMEOUT_MS env d, unfolded e]
      by (simp add: poll_rounds_def SM_TIMEOUT_MS_def PROC_POLL_MS_def)
    with process_time [of "''mtkfusionrild''" RILD_TIMEOUT_MS env e] e show ?thesis
      by (cases ok) (simp_all add: WaitForServiceManager_def poll_rounds_def RILD_TIMEOUT_MS_def PROC_POLL_MS_def)
  qed
  from this [of "WaitForContainer env c"] calculation show ?thesis by simp
qed

text \<open>
  A bridge that does not connect gives up in time: a connect thread that ends because libbinder is
  missing or because the service manager is wedged has slept at most 435 seconds, the sum of the deadlines
  of its gates, whatever \<open>/proc\<close>, the parameters and the probe thread answer.
\<close>

lemma give_up_time:
  assumes "ConnectLoop fuel env c = Some (e, c')" "e \<noteq> Connected"
  shows "cn_now c' \<le> cn_now c + 435000"
proof -
  let ?c0 = "WaitForContainer env c"
  let ?c1 = "WaitForServiceManager env ?c0"
  have mono: "cn_now ?c0 \<le> cn_now ?c1"
    by (auto simp: WaitForServiceManager_def WaitForContainerProcess_def dest!: poll_time split: prod.splits bool.splits)
  obtain ok c2 where c2: "ProbeServiceManager PROBE_TIMEOUT_MS env ?c1 = (ok, c2)" by fastforce
  then have "cn_now c2 \<le> cn_now ?c1 + 15000"
    by (auto simp: ProbeServiceManager_def poll_rounds_def PROBE_TIMEOUT_MS_def PROBE_POLL_MS_def dest!: poll_time split: prod.splits)
  with gates_time [of env c] mono assms c2 show ?thesis
    by (cases ok) (auto simp: ConnectLoop_def Let_def split: if_splits option.splits)
qed

end
