(* ===== verification/Ril_Network.thy ===== *)
theory Ril_Network
  imports Ril_Sim "HOL-Library.Signed_Division"
begin

text \<open>
  The network domain: \<open>hardware/ril/src/hybris_ril_network.cpp\<close>. It also delivers the answers of two
  requests of the call domain. Arithmetic on \<open>int32_t\<close> is \<open>wrap32\<close> of the integer result, division
  rounds towards zero (\<open>sdiv\<close>).
\<close>

section \<open>Registration\<close>

definition ToHrilRat :: "RadioTechnology \<Rightarrow> HRilRadioTech" where
  "ToHrilRat rat =
     (case rat of
        RT_GPRS \<Rightarrow> RADIO_TECHNOLOGY_GPRS
      | RT_EDGE \<Rightarrow> RADIO_TECHNOLOGY_EDGE
      | RT_UMTS \<Rightarrow> RADIO_TECHNOLOGY_UMTS
      | RT_IS95A \<Rightarrow> RADIO_TECHNOLOGY_IS95A
      | RT_IS95B \<Rightarrow> RADIO_TECHNOLOGY_IS95B
      | RT_ONE_X_RTT \<Rightarrow> RADIO_TECHNOLOGY_1XRTT
      | RT_EVDO_0 \<Rightarrow> RADIO_TECHNOLOGY_EVDO_0
      | RT_EVDO_A \<Rightarrow> RADIO_TECHNOLOGY_EVDO_A
      | RT_HSDPA \<Rightarrow> RADIO_TECHNOLOGY_HSDPA
      | RT_HSUPA \<Rightarrow> RADIO_TECHNOLOGY_HSUPA
      | RT_HSPA \<Rightarrow> RADIO_TECHNOLOGY_HSPA
      | RT_EVDO_B \<Rightarrow> RADIO_TECHNOLOGY_EVDO_B
      | RT_EHRPD \<Rightarrow> RADIO_TECHNOLOGY_EHRPD
      | RT_LTE \<Rightarrow> RADIO_TECHNOLOGY_LTE
      | RT_HSPAP \<Rightarrow> RADIO_TECHNOLOGY_HSPAP
      | RT_GSM \<Rightarrow> RADIO_TECHNOLOGY_GSM
      | RT_TD_SCDMA \<Rightarrow> RADIO_TECHNOLOGY_TD_SCDMA
      | RT_IWLAN \<Rightarrow> RADIO_TECHNOLOGY_IWLAN
      | RT_NR \<Rightarrow> RADIO_TECHNOLOGY_NR
      | RT_UNKNOWN \<Rightarrow> RADIO_TECHNOLOGY_UNKNOWN
      | RT_LTE_CA \<Rightarrow> RADIO_TECHNOLOGY_UNKNOWN)"

datatype RegState = RS_NOT_REG_MT_NOT_SEARCHING_OP | RS_REG_HOME | RS_NOT_REG_MT_SEARCHING_OP | RS_REG_DENIED
  | RS_UNKNOWN | RS_REG_ROAMING | RS_NOT_REG_MT_NOT_SEARCHING_OP_EM | RS_NOT_REG_MT_SEARCHING_OP_EM
  | RS_REG_DENIED_EM | RS_UNKNOWN_EM | RS_REG_EM

definition ToHrilRegStatus :: "RegState \<Rightarrow> HRilRegStatus" where
  "ToHrilRegStatus state =
     (case state of
        RS_NOT_REG_MT_NOT_SEARCHING_OP \<Rightarrow> NO_REG_MT_NO_SEARCH
      | RS_REG_HOME \<Rightarrow> REG_MT_HOME
      | RS_NOT_REG_MT_SEARCHING_OP \<Rightarrow> NO_REG_MT_SEARCHING
      | RS_REG_DENIED \<Rightarrow> REG_MT_REJECTED
      | RS_REG_ROAMING \<Rightarrow> REG_MT_ROAMING
      | RS_NOT_REG_MT_NOT_SEARCHING_OP_EM \<Rightarrow> REG_MT_EMERGENCY
      | RS_NOT_REG_MT_SEARCHING_OP_EM \<Rightarrow> REG_MT_EMERGENCY
      | RS_REG_DENIED_EM \<Rightarrow> REG_MT_EMERGENCY
      | RS_UNKNOWN_EM \<Rightarrow> REG_MT_EMERGENCY
      | RS_REG_EM \<Rightarrow> REG_MT_EMERGENCY
      | RS_UNKNOWN \<Rightarrow> REG_MT_UNKNOWN)"

datatype CellIdentity = Cell_gsm int int | Cell_wcdma int int | Cell_tdscdma int int | Cell_lte int int
  | Cell_nr int int | Cell_other

definition wrap32 :: "int \<Rightarrow> int" where
  "wrap32 v = signed_take_bit 31 v"

text \<open>The area code and the cell; the 36 bits of an NR cell are cut to 32.\<close>

definition ExtractCell :: "CellIdentity \<Rightarrow> int \<times> int" where
  "ExtractCell cell =
     (case cell of
        Cell_gsm lac cid \<Rightarrow> (lac, cid)
      | Cell_wcdma lac cid \<Rightarrow> (lac, cid)
      | Cell_tdscdma lac cid \<Rightarrow> (lac, cid)
      | Cell_lte tac cellid \<Rightarrow> (tac, cellid)
      | Cell_nr tac nci \<Rightarrow> (tac, wrap32 nci)
      | Cell_other \<Rightarrow> (0, 0))"

record RegStateResult =
  rg_regState :: RegState
  rg_rat :: RadioTechnology
  rg_cellIdentity :: CellIdentity

definition ToHrilRegStatusInfo :: "RegStateResult \<Rightarrow> HRilRegStatusInfo" where
  "ToHrilRegStatusInfo reg =
     \<lparr>rs_notifyMode = REG_NOTIFY_STAT_LAC_CELLID, rs_regStatus = ToHrilRegStatus (rg_regState reg),
      rs_lacCode = fst (ExtractCell (rg_cellIdentity reg)),
      rs_cellId = snd (ExtractCell (rg_cellIdentity reg)), rs_actType = ToHrilRat (rg_rat reg),
      rs_isDcNrRestricted = 0, rs_isNrAvailable = 0, rs_isEnDcAvailable = 0\<rparr>"

definition ToAccessNetwork :: "RadioTechnology \<Rightarrow> AccessNetwork" where
  "ToAccessNetwork rat =
     (if rat \<in> {RT_GPRS, RT_EDGE, RT_GSM} then AN_GERAN
      else if rat \<in> {RT_UMTS, RT_HSDPA, RT_HSUPA, RT_HSPA, RT_HSPAP, RT_TD_SCDMA} then AN_UTRAN
      else if rat = RT_LTE then AN_EUTRAN
      else if rat \<in> {RT_IS95A, RT_IS95B, RT_ONE_X_RTT, RT_EVDO_0, RT_EVDO_A, RT_EVDO_B, RT_EHRPD} then AN_CDMA2000
      else if rat = RT_IWLAN then AN_IWLAN
      else if rat = RT_NR then AN_NGRAN
      else AN_UNKNOWN)"

definition RememberDataAccessNetwork :: "int \<Rightarrow> RadioTechnology \<Rightarrow> ril \<Rightarrow> ril" where
  "RememberDataAccessNetwork slotId rat s =
     (if slotId < 0 \<or> slotId \<ge> MAX_SLOTS then s
      else let network = ToAccessNetwork rat
           in if network \<noteq> AN_UNKNOWN then s\<lparr>g_dataAccessNetwork := (g_dataAccessNetwork s)[nat slotId := network]\<rparr> else s)"

definition LastDataAccessNetwork :: "int \<Rightarrow> ril \<Rightarrow> AccessNetwork" where
  "LastDataAccessNetwork slotId s =
     (if slotId < 0 \<or> slotId \<ge> MAX_SLOTS then AN_UNKNOWN else g_dataAccessNetwork s ! nat slotId)"

section \<open>Signal strength\<close>

definition AIDL_INVALID :: int where "AIDL_INVALID = 2147483647"
definition INVALID_DBM :: int where "INVALID_DBM = 255"
definition INVALID_SIGNAL_INDEX :: int where "INVALID_SIGNAL_INDEX = 99"

definition NegDbm :: "int \<Rightarrow> int" where
  "NegDbm v = (if v = AIDL_INVALID then INVALID_DBM else wrap32 (- v))"

definition IndexDbm :: "int \<Rightarrow> int \<Rightarrow> int \<Rightarrow> int" where
  "IndexDbm v base maxIndex = (if v = AIDL_INVALID \<or> v < 0 \<or> v > maxIndex then INVALID_DBM else v + base)"

definition TenthsDb :: "int \<Rightarrow> int" where
  "TenthsDb v = (if v = AIDL_INVALID then INVALID_DBM else v sdiv 10)"

definition Raw :: "int \<Rightarrow> int" where
  "Raw v = (if v = AIDL_INVALID then INVALID_SIGNAL_INDEX else v)"

record SignalStrength =
  sg_gsm_signalStrength :: int
  sg_gsm_bitErrorRate :: int
  sg_wcdma_signalStrength :: int
  sg_wcdma_bitErrorRate :: int
  sg_wcdma_rscp :: int
  sg_wcdma_ecno :: int
  sg_cdma_dbm :: int
  sg_cdma_ecio :: int
  sg_lte_signalStrength :: int
  sg_lte_rsrp :: int
  sg_lte_rsrq :: int
  sg_lte_rssnr :: int
  sg_tdscdma_rscp :: int
  sg_nr_ssRsrp :: int
  sg_nr_ssRsrq :: int
  sg_nr_ssSinr :: int

definition ToHrilRssi :: "SignalStrength \<Rightarrow> HRilRssi" where
  "ToHrilRssi s =
     \<lparr>ri_gsm_rxlev = IndexDbm (sg_gsm_signalStrength s) (-111) 63,
      ri_gsm_ber = Raw (sg_gsm_bitErrorRate s),
      ri_wcdma_rxlev = Raw (sg_wcdma_signalStrength s),
      ri_wcdma_ber = Raw (sg_wcdma_bitErrorRate s),
      ri_wcdma_rscp = IndexDbm (sg_wcdma_rscp s) (-121) 96,
      ri_wcdma_ecio = (if sg_wcdma_ecno s = AIDL_INVALID \<or> sg_wcdma_ecno s > 49 then INVALID_DBM
                       else wrap32 (sg_wcdma_ecno s - 49) sdiv 2),
      ri_cdma_rssi = NegDbm (sg_cdma_dbm s),
      ri_cdma_ecno = (if sg_cdma_ecio s = AIDL_INVALID then INVALID_DBM else wrap32 (- sg_cdma_ecio s) sdiv 10),
      ri_lte_rxlev = Raw (sg_lte_signalStrength s),
      ri_lte_rsrp = NegDbm (sg_lte_rsrp s),
      ri_lte_rsrq = NegDbm (sg_lte_rsrq s),
      ri_lte_snr = TenthsDb (sg_lte_rssnr s),
      ri_tdscdma_rscp = IndexDbm (sg_tdscdma_rscp s) (-121) 96,
      ri_nr_rsrp = NegDbm (sg_nr_ssRsrp s),
      ri_nr_rsrq = NegDbm (sg_nr_ssRsrq s),
      ri_nr_sinr = Raw (sg_nr_ssSinr s)\<rparr>"

section \<open>Responses\<close>

definition NetworkReportEmpty :: "RadioResponseInfo \<Rightarrow> ril \<Rightarrow> ril" where
  "NetworkReportEmpty info s = respond ReportNetwork info (\<lambda>_. NoData) s"

definition ReportCallEmpty :: "RadioResponseInfo \<Rightarrow> ril \<Rightarrow> ril" where
  "ReportCallEmpty info s = respond ReportCall info (\<lambda>_. NoData) s"

definition RegChanged :: "int \<Rightarrow> HNoti \<Rightarrow> HRilRegStatusInfo \<Rightarrow> ril \<Rightarrow> bool \<times> ril" where
  "RegChanged slotId notifyId now s =
     (if map_of (g_lastReg s) (slotId, notifyId) = Some now then (False, s)
      else (True, s\<lparr>g_lastReg := ((slotId, notifyId), now) # g_lastReg s\<rparr>))"

definition ReportReg :: "RadioResponseInfo \<Rightarrow> RegStateResult \<Rightarrow> ril \<Rightarrow> ril" where
  "ReportReg info reg s =
     (let out = ToHrilRegStatusInfo reg
      in case TakeNotify (in_serial info) s of
           (Some (slotId, notifyId), s) \<Rightarrow>
             (case RegChanged slotId notifyId out s of
                (False, s) \<Rightarrow> s
              | (True, s) \<Rightarrow> NotifyNetwork slotId notifyId (RegData out) s)
         | (None, s) \<Rightarrow> respond ReportNetwork info (\<lambda>_. RegData out) s)"

definition getSignalStrengthResponse :: "RadioResponseInfo \<Rightarrow> SignalStrength \<Rightarrow> ril \<Rightarrow> ril" where
  "getSignalStrengthResponse info sig s = respond ReportNetwork info (\<lambda>_. RssiData (ToHrilRssi sig)) s"

definition getVoiceRegistrationStateResponse :: "RadioResponseInfo \<Rightarrow> RegStateResult \<Rightarrow> ril \<Rightarrow> ril" where
  "getVoiceRegistrationStateResponse info reg s = ReportReg info reg s"

definition getDataRegistrationStateResponse :: "int \<Rightarrow> RadioResponseInfo \<Rightarrow> RegStateResult \<Rightarrow> ril \<Rightarrow> ril" where
  "getDataRegistrationStateResponse slotId info reg s =
     ReportReg info reg (RememberDataAccessNetwork slotId (rg_rat reg) s)"

definition getOperatorResponse :: "RadioResponseInfo \<Rightarrow> string \<Rightarrow> string \<Rightarrow> string \<Rightarrow> ril \<Rightarrow> ril" where
  "getOperatorResponse info longName shortName numeric s =
     respond ReportNetwork info (\<lambda>_. StringsData [longName, shortName, numeric]) s"

definition getNetworkSelectionModeResponse :: "RadioResponseInfo \<Rightarrow> bool \<Rightarrow> ril \<Rightarrow> ril" where
  "getNetworkSelectionModeResponse info manual s =
     respond ReportNetwork info (\<lambda>_. IntData (if manual then 1 else 0)) s"

text \<open>\<open>HRIL_NETWORK_AUTO\<close> is a constant of \<open>hril\<close>, so it is a parameter here.\<close>

definition getAllowedNetworkTypesBitmapResponse :: "int \<Rightarrow> RadioResponseInfo \<Rightarrow> int \<Rightarrow> ril \<Rightarrow> ril" where
  "getAllowedNetworkTypesBitmapResponse HRIL_NETWORK_AUTO info networkTypeBitmap s =
     respond ReportNetwork info (\<lambda>_. IntData HRIL_NETWORK_AUTO) s"

section \<open>Indications\<close>

definition networkStateChanged :: "int \<Rightarrow> ril \<Rightarrow> ril" where
  "networkStateChanged slotId s =
     (case Network slotId s of
        None \<Rightarrow> s
      | Some network \<Rightarrow>
          (case TrackNotify slotId HNOTI_NETWORK_CS_REG_STATUS_UPDATED s of (serial, s) \<Rightarrow>
             let s = aidl network (Some serial) (IRadioNetwork A_getVoiceRegistrationState) s
             in case TrackNotify slotId HNOTI_NETWORK_PS_REG_STATUS_UPDATED s of (serial, s) \<Rightarrow>
                  aidl network (Some serial) (IRadioNetwork A_getDataRegistrationState) s))"

definition currentSignalStrength :: "int \<Rightarrow> SignalStrength \<Rightarrow> ril \<Rightarrow> ril" where
  "currentSignalStrength slotId sig s =
     NotifyNetwork slotId HNOTI_NETWORK_SIGNAL_STRENGTH_UPDATED (RssiData (ToHrilRssi sig)) s"

definition nitzTimeReceived :: "int \<Rightarrow> string \<Rightarrow> ril \<Rightarrow> ril" where
  "nitzTimeReceived slotId nitzTime s = NotifyNetwork slotId HNOTI_NETWORK_TIME_UPDATED (StringData nitzTime) s"

section \<open>Requests\<close>

definition GetSignalStrength :: "ReqDataInfo option \<Rightarrow> ril \<Rightarrow> ril" where
  "GetSignalStrength requestInfo s =
     (case RequireNetwork requestInfo s of
        (None, s) \<Rightarrow> s
      | (Some network, s) \<Rightarrow> tracked_call network (IRadioNetwork A_getSignalStrength) requestInfo s)"

definition GetCsRegStatus :: "ReqDataInfo option \<Rightarrow> ril \<Rightarrow> ril" where
  "GetCsRegStatus requestInfo s =
     (case RequireNetwork requestInfo s of
        (None, s) \<Rightarrow> s
      | (Some network, s) \<Rightarrow> tracked_call network (IRadioNetwork A_getVoiceRegistrationState) requestInfo s)"

definition GetPsRegStatus :: "ReqDataInfo option \<Rightarrow> ril \<Rightarrow> ril" where
  "GetPsRegStatus requestInfo s =
     (case RequireNetwork requestInfo s of
        (None, s) \<Rightarrow> s
      | (Some network, s) \<Rightarrow> tracked_call network (IRadioNetwork A_getDataRegistrationState) requestInfo s)"

definition GetOperatorInfo :: "ReqDataInfo option \<Rightarrow> ril \<Rightarrow> ril" where
  "GetOperatorInfo requestInfo s =
     (case RequireNetwork requestInfo s of
        (None, s) \<Rightarrow> s
      | (Some network, s) \<Rightarrow> tracked_call network (IRadioNetwork A_getOperator) requestInfo s)"

definition GetNetworkSelectionMode :: "ReqDataInfo option \<Rightarrow> ril \<Rightarrow> ril" where
  "GetNetworkSelectionMode requestInfo s =
     (case RequireNetwork requestInfo s of
        (None, s) \<Rightarrow> s
      | (Some network, s) \<Rightarrow> tracked_call network (IRadioNetwork A_getNetworkSelectionMode) requestInfo s)"

text \<open>\<open>data\<close> is the selection mode and the operator.\<close>

definition SetNetworkSelectionMode :: "(int \<times> string option) option \<Rightarrow> ReqDataInfo option \<Rightarrow> ril \<Rightarrow> ril" where
  "SetNetworkSelectionMode data_p requestInfo s =
     (case RequireNetwork requestInfo s of
        (None, s) \<Rightarrow> s
      | (Some network, s) \<Rightarrow>
          tracked_call network
            (IRadioNetwork
               (case data_p of
                  None \<Rightarrow> A_setNetworkSelectionModeAutomatic
                | Some (selectMode, oper) \<Rightarrow>
                    (case oper of
                       None \<Rightarrow> A_setNetworkSelectionModeAutomatic
                     | Some p \<Rightarrow> if selectMode = 0 then A_setNetworkSelectionModeAutomatic
                                else A_setNetworkSelectionModeManual p AN_UNKNOWN)))
            requestInfo s)"

definition GetPreferredNetwork :: "ReqDataInfo option \<Rightarrow> ril \<Rightarrow> ril" where
  "GetPreferredNetwork requestInfo s =
     (case RequireNetwork requestInfo s of
        (None, s) \<Rightarrow> s
      | (Some network, s) \<Rightarrow> tracked_call network (IRadioNetwork A_getAllowedNetworkTypesBitmap) requestInfo s)"

definition RAF_ALL :: int where "RAF_ALL = 0x7FFFFFFF"

definition SetPreferredNetwork :: "ReqDataInfo option \<Rightarrow> ril \<Rightarrow> ril" where
  "SetPreferredNetwork requestInfo s =
     (case RequireNetwork requestInfo s of
        (None, s) \<Rightarrow> s
      | (Some network, s) \<Rightarrow> tracked_call network (IRadioNetwork (A_setAllowedNetworkTypesBitmap RAF_ALL)) requestInfo s)"

definition SetLocateUpdates :: "HRilRegNotifyMode \<Rightarrow> ReqDataInfo option \<Rightarrow> ril \<Rightarrow> ril" where
  "SetLocateUpdates mode requestInfo s =
     (case RequireNetwork requestInfo s of
        (None, s) \<Rightarrow> s
      | (Some network, s) \<Rightarrow> tracked_call network (IRadioNetwork (A_setLocationUpdates (mode \<noteq> REG_NOT_NOTIFY))) requestInfo s)"

definition SetNotificationFilter :: "int option \<Rightarrow> ReqDataInfo option \<Rightarrow> ril \<Rightarrow> ril" where
  "SetNotificationFilter newFilter requestInfo s =
     (case RequireNetwork requestInfo s of
        (None, s) \<Rightarrow> s
      | (Some network, s) \<Rightarrow>
          tracked_call network
            (IRadioNetwork (A_setIndicationFilter (case newFilter of None \<Rightarrow> -1 | Some f \<Rightarrow> f))) requestInfo s)"

section \<open>The tables\<close>

datatype network_op = Op_GetSignalStrength | Op_GetCsRegStatus | Op_GetPsRegStatus | Op_GetOperatorInfo
  | Op_GetNetworkSelectionMode | Op_SetNetworkSelectionMode "(int \<times> string option) option"
  | Op_GetPreferredNetwork | Op_SetPreferredNetwork | Op_SetLocateUpdates HRilRegNotifyMode | Op_SetNotificationFilter "int option"

definition NetworkOps :: "network_op \<Rightarrow> ReqDataInfo option \<Rightarrow> ril \<Rightarrow> ril" where
  "NetworkOps op =
     (case op of
        Op_GetSignalStrength \<Rightarrow> GetSignalStrength
      | Op_GetCsRegStatus \<Rightarrow> GetCsRegStatus
      | Op_GetPsRegStatus \<Rightarrow> GetPsRegStatus
      | Op_GetOperatorInfo \<Rightarrow> GetOperatorInfo
      | Op_GetNetworkSelectionMode \<Rightarrow> GetNetworkSelectionMode
      | Op_SetNetworkSelectionMode d \<Rightarrow> SetNetworkSelectionMode d
      | Op_GetPreferredNetwork \<Rightarrow> GetPreferredNetwork
      | Op_SetPreferredNetwork \<Rightarrow> SetPreferredNetwork
      | Op_SetLocateUpdates mode \<Rightarrow> SetLocateUpdates mode
      | Op_SetNotificationFilter f \<Rightarrow> SetNotificationFilter f)"

datatype network_msg = Rsp_getSignalStrength RadioResponseInfo SignalStrength
  | Rsp_getVoiceRegistrationState RadioResponseInfo RegStateResult
  | Rsp_getDataRegistrationState int RadioResponseInfo RegStateResult
  | Rsp_getOperator RadioResponseInfo string string string | Rsp_getNetworkSelectionMode RadioResponseInfo bool
  | Rsp_setNetworkSelectionModeAutomatic RadioResponseInfo | Rsp_setNetworkSelectionModeManual RadioResponseInfo
  | Rsp_setAllowedNetworkTypesBitmap RadioResponseInfo | Rsp_setLocationUpdates RadioResponseInfo
  | Rsp_setIndicationFilter RadioResponseInfo | Rsp_setBarringPassword RadioResponseInfo
  | Rsp_setSuppServiceNotifications RadioResponseInfo | Rsp_getAllowedNetworkTypesBitmap int RadioResponseInfo int
  | Ind_networkStateChanged int | Ind_currentSignalStrength int SignalStrength | Ind_nitzTimeReceived int string

definition NetworkCallbacks :: "network_msg \<Rightarrow> ril \<Rightarrow> ril" where
  "NetworkCallbacks m =
     (case m of
        Rsp_getSignalStrength info sig \<Rightarrow> getSignalStrengthResponse info sig
      | Rsp_getVoiceRegistrationState info reg \<Rightarrow> getVoiceRegistrationStateResponse info reg
      | Rsp_getDataRegistrationState slotId info reg \<Rightarrow> getDataRegistrationStateResponse slotId info reg
      | Rsp_getOperator info l sh n \<Rightarrow> getOperatorResponse info l sh n
      | Rsp_getNetworkSelectionMode info manual \<Rightarrow> getNetworkSelectionModeResponse info manual
      | Rsp_setNetworkSelectionModeAutomatic info \<Rightarrow> NetworkReportEmpty info
      | Rsp_setNetworkSelectionModeManual info \<Rightarrow> NetworkReportEmpty info
      | Rsp_setAllowedNetworkTypesBitmap info \<Rightarrow> NetworkReportEmpty info
      | Rsp_setLocationUpdates info \<Rightarrow> NetworkReportEmpty info
      | Rsp_setIndicationFilter info \<Rightarrow> NetworkReportEmpty info
      | Rsp_setBarringPassword info \<Rightarrow> ReportCallEmpty info
      | Rsp_setSuppServiceNotifications info \<Rightarrow> ReportCallEmpty info
      | Rsp_getAllowedNetworkTypesBitmap auto info bitmap \<Rightarrow> getAllowedNetworkTypesBitmapResponse auto info bitmap
      | Ind_networkStateChanged slotId \<Rightarrow> networkStateChanged slotId
      | Ind_currentSignalStrength slotId sig \<Rightarrow> currentSignalStrength slotId sig
      | Ind_nitzTimeReceived slotId t \<Rightarrow> nitzTimeReceived slotId t)"

section \<open>The contract\<close>

lemmas network_request_defs = GetSignalStrength_def GetCsRegStatus_def GetPsRegStatus_def GetOperatorInfo_def
  GetNetworkSelectionMode_def SetNetworkSelectionMode_def GetPreferredNetwork_def SetPreferredNetwork_def
  SetLocateUpdates_def SetNotificationFilter_def

lemmas network_response_defs = getSignalStrengthResponse_def getVoiceRegistrationStateResponse_def
  getDataRegistrationStateResponse_def getOperatorResponse_def getNetworkSelectionModeResponse_def
  NetworkReportEmpty_def ReportCallEmpty_def getAllowedNetworkTypesBitmapResponse_def
  currentSignalStrength_def nitzTimeReceived_def

lemma remember_network_quiet: "quiet s (RememberDataAccessNetwork slotId rat s)"
  by (rule quiet_frame) (simp_all add: RememberDataAccessNetwork_def Let_def)

lemma take_notify_quiet: "TakeNotify serial s = (x, s1) \<Longrightarrow> quiet s s1"
  by (rule quiet_frame) (auto simp: TakeNotify_def split: option.splits)

lemma report_reg_settles: "settles 2 [] s (ReportReg info reg s)"
proof -
  obtain x s1 where t: "TakeNotify (in_serial info) s = (x, s1)" by (cases "TakeNotify (in_serial info) s")
  note q = take_notify_quiet [OF t]
  show ?thesis
  proof (cases x)
    case None
    with t q show ?thesis by (simp add: ReportReg_def Let_def report_defs settle_respond)
  next
    case (Some y)
    obtain slotId notifyId where y: "y = (slotId, notifyId)" by (cases y)
    obtain c s2 where r: "RegChanged slotId notifyId (ToHrilRegStatusInfo reg) s1 = (c, s2)"
      by (cases "RegChanged slotId notifyId (ToHrilRegStatusInfo reg) s1")
    then have "quiet s1 s2" by (intro quiet_frame) (auto simp: RegChanged_def split: if_splits)
    with q have "quiet s s2" by (rule quiet_trans)
    with t Some y r show ?thesis
      by (cases c) (simp_all add: ReportReg_def Let_def notify_defs quiet_settles quiet_after)
  qed
qed

lemma network_state_settles: "settles 2 [] s (networkStateChanged slotId s)"
proof (cases "Network slotId s")
  case (Some h)
  obtain a s1 where t1: "TrackNotify slotId HNOTI_NETWORK_CS_REG_STATUS_UPDATED s = (a, s1)"
    by (cases "TrackNotify slotId HNOTI_NETWORK_CS_REG_STATUS_UPDATED s")
  let ?s2 = "aidl h (Some a) (IRadioNetwork A_getVoiceRegistrationState) s1"
  obtain b s3 where t2: "TrackNotify slotId HNOTI_NETWORK_PS_REG_STATUS_UPDATED ?s2 = (b, s3)"
    by (cases "TrackNotify slotId HNOTI_NETWORK_PS_REG_STATUS_UPDATED ?s2")
  have "settles 1 [] s s1" using track_notify_settles [of s slotId HNOTI_NETWORK_CS_REG_STATUS_UPDATED] by (simp add: t1)
  then have "settles 1 [] s ?s2" by (rule settle_after) simp
  moreover have "settles 1 [] ?s2 s3"
    using track_notify_settles [of ?s2 slotId HNOTI_NETWORK_PS_REG_STATUS_UPDATED] by (simp add: t2)
  ultimately have "settles (1 + 1) ([] @ []) s s3" by (rule settles_trans)
  then have "settles 2 [] s s3" by (simp only: one_add_one append_Nil)
  then have "settles 2 [] s (aidl h (Some b) (IRadioNetwork A_getDataRegistrationState) s3)" by (rule settle_after) simp
  with Some t1 t2 show ?thesis by (simp add: networkStateChanged_def Let_def)
qed (simp add: networkStateChanged_def)

interpretation network: radio_domain NetworkOps NetworkCallbacks
proof
  show "settles 2 [r] s (NetworkOps op (Some r) s)" for r s op
    by (cases op) (simp_all add: NetworkOps_def network_request_defs report_defs require_defs settle_steps settle_require)
  show "settles 2 [] s (NetworkCallbacks m s)" for s m
    by (cases m) (simp_all add: NetworkCallbacks_def network_response_defs report_defs notify_defs settle_steps
        quiet_settles quiet_after network_state_settles report_reg_settles
        settle_before [OF remember_network_quiet report_reg_settles])
qed

section \<open>What \<open>hril\<close> is told\<close>

text \<open>
  A level counts as a signal for \<open>hril\<close> only below -1 dBm.
\<close>

definition is_signal :: "int \<Rightarrow> bool" where
  "is_signal v \<longleftrightarrow> v < -1"

lemma wrap32_id: "INT32_MIN \<le> v \<Longrightarrow> v \<le> INT32_MAX \<Longrightarrow> wrap32 v = v"
  unfolding wrap32_def INT32_MIN_def INT32_MAX_def by (rule signed_take_bit_int_eq_self) simp_all

lemma neg_dbm_signal: "INT32_MIN < v \<Longrightarrow> v \<le> INT32_MAX \<Longrightarrow> is_signal (NegDbm v) \<longleftrightarrow> 1 < v \<and> v \<noteq> AIDL_INVALID"
  using wrap32_id [of "- v"]
  by (auto simp: is_signal_def NegDbm_def INVALID_DBM_def AIDL_INVALID_def INT32_MIN_def INT32_MAX_def)

lemma index_dbm_signal: "maxIndex + base < -1 \<Longrightarrow> maxIndex < AIDL_INVALID \<Longrightarrow>
    is_signal (IndexDbm v base maxIndex) \<longleftrightarrow> 0 \<le> v \<and> v \<le> maxIndex"
  by (auto simp: is_signal_def IndexDbm_def INVALID_DBM_def)

text \<open>
  A dead cell never shows bars. For every field that decides the signal level, the value handed to
  \<open>hril\<close> counts as a signal exactly if the modem reported a reading in the range of its encoding:
  both spellings of unreported (the maximal integer everywhere, 99 and 255 for the indices) are
  rejected, and no valid reading is.
\<close>

lemma signal_only_if_reported:
  assumes "INT32_MIN < sg_lte_rsrp s" "sg_lte_rsrp s \<le> INT32_MAX" "INT32_MIN < sg_nr_ssRsrp s" "sg_nr_ssRsrp s \<le> INT32_MAX"
    "INT32_MIN < sg_cdma_dbm s" "sg_cdma_dbm s \<le> INT32_MAX"
  shows "(is_signal (ri_gsm_rxlev (ToHrilRssi s)) \<longleftrightarrow> 0 \<le> sg_gsm_signalStrength s \<and> sg_gsm_signalStrength s \<le> 63) \<and>
    (is_signal (ri_wcdma_rscp (ToHrilRssi s)) \<longleftrightarrow> 0 \<le> sg_wcdma_rscp s \<and> sg_wcdma_rscp s \<le> 96) \<and>
    (is_signal (ri_tdscdma_rscp (ToHrilRssi s)) \<longleftrightarrow> 0 \<le> sg_tdscdma_rscp s \<and> sg_tdscdma_rscp s \<le> 96) \<and>
    (is_signal (ri_lte_rsrp (ToHrilRssi s)) \<longleftrightarrow> 1 < sg_lte_rsrp s \<and> sg_lte_rsrp s \<noteq> AIDL_INVALID) \<and>
    (is_signal (ri_nr_rsrp (ToHrilRssi s)) \<longleftrightarrow> 1 < sg_nr_ssRsrp s \<and> sg_nr_ssRsrp s \<noteq> AIDL_INVALID) \<and>
    (is_signal (ri_cdma_rssi (ToHrilRssi s)) \<longleftrightarrow> 1 < sg_cdma_dbm s \<and> sg_cdma_dbm s \<noteq> AIDL_INVALID)"
  using assms by (simp add: ToHrilRssi_def neg_dbm_signal index_dbm_signal AIDL_INVALID_def)

definition lte_only :: SignalStrength where
  "lte_only = \<lparr>sg_gsm_signalStrength = 99, sg_gsm_bitErrorRate = 99, sg_wcdma_signalStrength = 99, sg_wcdma_bitErrorRate = 99,
     sg_wcdma_rscp = 255, sg_wcdma_ecno = 255, sg_cdma_dbm = AIDL_INVALID, sg_cdma_ecio = AIDL_INVALID, sg_lte_signalStrength = 20,
     sg_lte_rsrp = 97, sg_lte_rsrq = 11, sg_lte_rssnr = 105, sg_tdscdma_rscp = 255, sg_nr_ssRsrp = AIDL_INVALID,
     sg_nr_ssRsrq = AIDL_INVALID, sg_nr_ssSinr = AIDL_INVALID\<rparr>"

text \<open>The registration notifications of one slot and kind, in order.\<close>

definition reg_log :: "int \<Rightarrow> HNoti \<Rightarrow> ril \<Rightarrow> hril_data list" where
  "reg_log slotId notifyId s = map rp_payload
     (filter (\<lambda>x. rp_slot x = slotId \<and> rp_notifyId x = Some notifyId) (rb_reports s))"

definition reg_kinds :: "HNoti set" where
  "reg_kinds = {HNOTI_NETWORK_CS_REG_STATUS_UPDATED, HNOTI_NETWORK_PS_REG_STATUS_UPDATED}"

definition last_agrees :: "HRilRegStatusInfo option \<Rightarrow> hril_data list \<Rightarrow> bool" where
  "last_agrees known log \<longleftrightarrow> (case known of None \<Rightarrow> log = [] | Some r \<Rightarrow> log \<noteq> [] \<and> last log = RegData r)"

definition reg_inv :: "ril \<Rightarrow> bool" where
  "reg_inv s \<longleftrightarrow> rb_reportOps s \<and> (\<forall>e \<in> set (rb_notifying s). snd (snd e) \<in> reg_kinds) \<and>
     (\<forall>slotId. \<forall>n \<in> reg_kinds. distinct_adj (reg_log slotId n s) \<and>
        last_agrees (map_of (g_lastReg s) (slotId, n)) (reg_log slotId n s))"

definition reg_same :: "ril \<Rightarrow> ril \<Rightarrow> bool" where
  "reg_same s s' \<longleftrightarrow> rb_reportOps s' = rb_reportOps s \<and> rb_notifying s' = rb_notifying s \<and> g_lastReg s' = g_lastReg s \<and>
     (\<forall>slotId. \<forall>n \<in> reg_kinds. reg_log slotId n s' = reg_log slotId n s)"

lemma reg_same_inv: "reg_same s s' \<Longrightarrow> reg_inv s \<Longrightarrow> reg_inv s'"
  by (simp add: reg_same_def reg_inv_def)

lemma reg_same_trans: "reg_same s s1 \<Longrightarrow> reg_same s1 s2 \<Longrightarrow> reg_same s s2"
  by (simp add: reg_same_def)

lemma reg_same_steps:
  "reg_same s s" "reg_same s (report part r err d s)" "n \<notin> reg_kinds \<Longrightarrow> reg_same s (notify part slot n d s)"
  "reg_same s (aidl h x m s)" "reg_same s (snd (Track r s))" "reg_same s (snd (TakePending serial s))"
  "reg_same s (RememberDataAccessNetwork slot rat s)"
  by (auto simp: reg_same_def reg_log_def report_def notify_def aidl_def Track_def TakePending_def
      RememberDataAccessNetwork_def Let_def split: option.split)

lemma reg_same_tracked: "reg_same s (tracked_call h m r s)"
  using reg_same_steps(5) [of s r] by (auto simp: tracked_call_def split: prod.split intro: reg_same_trans reg_same_steps)

lemma reg_same_respond: "reg_same s (respond (report part) info d s)"
  using reg_same_steps(6) [of s "in_serial info"]
  by (auto simp: respond_def split: prod.split option.split intro: reg_same_trans reg_same_steps)

lemma reg_same_require:
  "(\<And>h. reg_same s (f h s)) \<Longrightarrow>
    reg_same s (case require service (report part) r s of (None, s) \<Rightarrow> s | (Some h, s) \<Rightarrow> f h s)"
  by (auto simp: require_def reg_same_steps split: option.split)

lemma network_ops_reg: "reg_same s (NetworkOps op r s)"
  by (cases op) (simp_all add: NetworkOps_def network_request_defs report_defs require_defs reg_same_require reg_same_tracked)

lemma take_notify_reg:
  assumes "reg_inv s" "TakeNotify serial s = (x, s1)"
  shows "reg_inv s1" "x = Some (slot, n) \<Longrightarrow> n \<in> reg_kinds"
  using assms by (auto simp: TakeNotify_def reg_inv_def reg_log_def set_map_erase
      dest!: map_find_in_set split: option.splits)

lemma reg_changed_notify:
  assumes "reg_inv s" "n \<in> reg_kinds" "map_of (g_lastReg s) (slot, n) \<noteq> Some r"
  shows "reg_inv (notify DNetwork slot n (RegData r) (s\<lparr>g_lastReg := ((slot, n), r) # g_lastReg s\<rparr>))"
    (is "reg_inv ?t")
proof -
  have ops: "rb_reportOps s" using assms(1) by (simp add: reg_inv_def)
  then have log: "reg_log sl m ?t = reg_log sl m s @ (if (sl, m) = (slot, n) then [RegData r] else [])" for sl m
    by (auto simp: reg_log_def notify_def)
  have g: "g_lastReg ?t = ((slot, n), r) # g_lastReg s" by (simp add: notify_def)
  have old: "distinct_adj (reg_log sl m s)" "last_agrees (map_of (g_lastReg s) (sl, m)) (reg_log sl m s)" if "m \<in> reg_kinds" for sl m
    using assms(1) that by (auto simp: reg_inv_def)
  have new: "distinct_adj (reg_log slot n s @ [RegData r])"
    using old [OF assms(2), of slot] assms(3)
    by (auto simp: distinct_adj_append_iff last_agrees_def split: option.splits)
  have "distinct_adj (reg_log sl m ?t) \<and> last_agrees (map_of (g_lastReg ?t) (sl, m)) (reg_log sl m ?t)" if "m \<in> reg_kinds" for sl m
  proof (cases "(sl, m) = (slot, n)")
    case True
    with new show ?thesis by (simp add: log g last_agrees_def)
  next
    case False
    then have "map_of (g_lastReg ?t) (sl, m) = map_of (g_lastReg s) (sl, m)" unfolding g by auto
    with False old [OF that, of sl] show ?thesis by (simp only: log if_False append_Nil2)
  qed
  moreover have "\<forall>e \<in> set (rb_notifying ?t). snd (snd e) \<in> reg_kinds"
    using assms(1) ops by (simp add: reg_inv_def notify_def)
  moreover have "rb_reportOps ?t" using ops by (simp add: notify_def)
  ultimately show ?thesis unfolding reg_inv_def by blast
qed

lemma report_reg_inv: "reg_inv s \<Longrightarrow> reg_inv (ReportReg info reg s)"
proof -
  assume inv: "reg_inv s"
  obtain x s1 where t: "TakeNotify (in_serial info) s = (x, s1)" by (cases "TakeNotify (in_serial info) s")
  note s1 = take_notify_reg [OF inv t]
  show ?thesis
  proof (cases x)
    case None
    with t s1(1) show ?thesis
      by (simp add: ReportReg_def Let_def report_defs reg_same_inv [OF reg_same_respond])
  next
    case (Some y)
    obtain slot n where y: "y = (slot, n)" by (cases y)
    with Some s1(2) have "n \<in> reg_kinds" by simp
    with t Some y s1(1) reg_changed_notify [OF s1(1), of n slot "ToHrilRegStatusInfo reg"] show ?thesis
      by (simp add: ReportReg_def Let_def RegChanged_def notify_defs)
  qed
qed

lemma track_notify_reg: "reg_inv s \<Longrightarrow> n \<in> reg_kinds \<Longrightarrow> reg_inv (snd (TrackNotify slot n s))"
proof -
  have "set (map_put k v m) \<subseteq> insert (k, v) (set m)" for k v and m :: "(int, int \<times> HNoti) smap"
    by (induction k v m rule: map_put.induct) auto
  then show "reg_inv s \<Longrightarrow> n \<in> reg_kinds \<Longrightarrow> ?thesis"
    by (fastforce simp: TrackNotify_def Let_def reg_inv_def reg_log_def)
qed

lemma network_callbacks_reg: "reg_inv s \<Longrightarrow> reg_inv (NetworkCallbacks m s)"
proof (cases m)
  case (Ind_networkStateChanged slotId)
  assume inv: "reg_inv s"
  have k: "HNOTI_NETWORK_CS_REG_STATUS_UPDATED \<in> reg_kinds" "HNOTI_NETWORK_PS_REG_STATUS_UPDATED \<in> reg_kinds"
    by (simp_all add: reg_kinds_def)
  have "reg_inv (aidl h a m (snd (TrackNotify slotId n t)))" if "reg_inv t" "n \<in> reg_kinds" for h a m n t
    using that by (intro reg_same_inv [OF reg_same_steps(4)] track_notify_reg)
  from this [OF this [OF inv k(1)] k(2)] inv show ?thesis
    by (simp add: Ind_networkStateChanged NetworkCallbacks_def networkStateChanged_def Let_def case_prod_beta split: option.split)
next
  case (Rsp_getDataRegistrationState slotId info reg)
  then show "reg_inv s \<Longrightarrow> ?thesis"
    by (simp add: NetworkCallbacks_def network_response_defs report_reg_inv reg_same_inv [OF reg_same_steps(7)])
next
  case (Rsp_getVoiceRegistrationState info reg)
  then show "reg_inv s \<Longrightarrow> ?thesis" by (simp add: NetworkCallbacks_def network_response_defs report_reg_inv)
qed (simp_all add: NetworkCallbacks_def network_response_defs report_defs notify_defs reg_same_inv [OF reg_same_respond]
      reg_same_inv [OF reg_same_steps(3)] reg_kinds_def)

lemma network_run_reg: "reg_inv s \<Longrightarrow> reg_inv (run_events NetworkOps NetworkCallbacks es s)"
proof (induction es arbitrary: s)
  case (Cons e es)
  then show ?case
    by (cases e) (simp_all add: reg_same_inv [OF network_ops_reg] network_callbacks_reg)
qed simp

text \<open>
  The framework is told of a registration only when it changed. However the framework's queries,
  the modem's answers and its payload-less change indications interleave, the registration
  notifications of one slot and kind never repeat: no two consecutive ones carry the same record.
\<close>

lemma registration_notified_on_change:
  assumes "n \<in> {HNOTI_NETWORK_CS_REG_STATUS_UPDATED, HNOTI_NETWORK_PS_REG_STATUS_UPDATED}"
  shows "distinct_adj (reg_log slotId n (run_events NetworkOps NetworkCallbacks es (ril_init\<lparr>rb_reportOps := True\<rparr>)))"
proof -
  have "reg_inv (ril_init\<lparr>rb_reportOps := True\<rparr>)" by (simp add: reg_inv_def ril_init_def reg_log_def last_agrees_def)
  from network_run_reg [OF this] assms show ?thesis unfolding reg_inv_def reg_kinds_def by blast
qed

end
