(* ===== verification/Ril_Sms.thy ===== *)
theory Ril_Sms
  imports Ril_Sim
begin

text \<open>
  The SMS domain: \<open>hardware/ril/src/hybris_ril_sms.cpp\<close>. The flags \<open>len_ok\<close> stand for the
  comparison of \<open>dataLen\<close> with the size of the structure.
\<close>

section \<open>Conversions\<close>

definition hex_digit :: "u8 \<Rightarrow> char" where
  "hex_digit n = ''0123456789ABCDEF'' ! unat n"

definition BytesToHex :: "bytes \<Rightarrow> string" where
  "BytesToHex bs = concat (map (\<lambda>b. [hex_digit (drop_bit 4 b AND 0x0F), hex_digit (b AND 0x0F)]) bs)"

definition TOSCA_INTERNATIONAL :: int where "TOSCA_INTERNATIONAL = 145"
definition TOSCA_UNKNOWN :: int where "TOSCA_UNKNOWN = 129"

definition ToscaOf :: "string \<Rightarrow> int" where
  "ToscaOf address = (if address \<noteq> [] \<and> hd address = CHR ''+'' then TOSCA_INTERNATIONAL else TOSCA_UNKNOWN)"

definition ApplyTosca :: "int \<Rightarrow> string option \<Rightarrow> string" where
  "ApplyTosca tosca address =
     (let val = c_str_or_empty address
      in if tosca = TOSCA_INTERNATIONAL \<and> val \<noteq> [] \<and> hd val \<noteq> CHR ''+'' then CHR ''+'' # val else val)"

definition SMS_ACK_OUT_OF_MEMORY :: int where "SMS_ACK_OUT_OF_MEMORY = 3"

definition ToAckFailCause :: "int \<Rightarrow> SmsAcknowledgeFailCause" where
  "ToAckFailCause ackIncomeCause =
     (if ackIncomeCause = SMS_ACK_OUT_OF_MEMORY then MEMORY_CAPACITY_EXCEEDED else UNSPECIFIED_ERROR)"

definition ack_indication :: "(int \<Rightarrow> ril \<Rightarrow> nat option) \<Rightarrow> int \<Rightarrow> RadioIndicationType \<Rightarrow> ril \<Rightarrow> ril" where
  "ack_indication service slotId type s =
     (if type \<noteq> UNSOLICITED_ACK_EXP then s
      else (case service slotId s of
              None \<Rightarrow> s
            | Some h \<Rightarrow> aidl h None A_responseAcknowledgement s))"

definition SmsAckIndication :: "int \<Rightarrow> RadioIndicationType \<Rightarrow> ril \<Rightarrow> ril" where
  "SmsAckIndication = ack_indication Messaging"

section \<open>Responses\<close>

definition SmsReportEmpty :: "RadioResponseInfo \<Rightarrow> ril \<Rightarrow> ril" where
  "SmsReportEmpty info s = respond ReportSms info (\<lambda>_. NoData) s"

definition ReportSendResult :: "RadioResponseInfo \<Rightarrow> int \<Rightarrow> string \<Rightarrow> int \<Rightarrow> ril \<Rightarrow> ril" where
  "ReportSendResult info messageRef ackPDU errorCode s =
     respond ReportSms info (\<lambda>_. SmsData \<lparr>sr_msgRef = messageRef, sr_pdu = ackPDU, sr_errCode = errorCode\<rparr>) s"

definition getSmscAddressResponse :: "RadioResponseInfo \<Rightarrow> string \<Rightarrow> ril \<Rightarrow> ril" where
  "getSmscAddressResponse info smsc s = respond ReportSms info (\<lambda>_. SmscData (ToscaOf smsc) smsc) s"

section \<open>Indications\<close>

definition newSms :: "int \<Rightarrow> RadioIndicationType \<Rightarrow> bytes \<Rightarrow> ril \<Rightarrow> ril" where
  "newSms slotId type pdu s =
     SmsAckIndication slotId type
       (NotifySms slotId HNOTI_SMS_NEW_SMS (SmsData \<lparr>sr_msgRef = 0, sr_pdu = BytesToHex pdu, sr_errCode = 0\<rparr>) s)"

definition newSmsStatusReport :: "int \<Rightarrow> RadioIndicationType \<Rightarrow> bytes \<Rightarrow> ril \<Rightarrow> ril" where
  "newSmsStatusReport slotId type pdu s =
     SmsAckIndication slotId type (NotifySms slotId HNOTI_SMS_STATUS_REPORT (StringData (BytesToHex pdu)) s)"

definition newSmsOnSim :: "int \<Rightarrow> RadioIndicationType \<Rightarrow> int \<Rightarrow> ril \<Rightarrow> ril" where
  "newSmsOnSim slotId type recordNumber s =
     SmsAckIndication slotId type (NotifySms slotId HNOTI_SMS_NEW_SMS_STORED_ON_SIM (IntData recordNumber) s)"

definition simSmsStorageFull :: "int \<Rightarrow> RadioIndicationType \<Rightarrow> ril \<Rightarrow> ril" where
  "simSmsStorageFull slotId type s = SmsAckIndication slotId type s"

section \<open>Requests\<close>

definition SMS_STRING_COUNT :: nat where "SMS_STRING_COUNT = 2"

text \<open>\<open>data\<close> is an array of \<open>dataLen\<close> strings.\<close>

definition SendGsmSms :: "string option list option \<Rightarrow> ReqDataInfo option \<Rightarrow> ril \<Rightarrow> ril" where
  "SendGsmSms data_p requestInfo s =
     (case RequireSms requestInfo s of
        (None, s) \<Rightarrow> s
      | (Some messaging, s) \<Rightarrow>
          (case data_p of
             None \<Rightarrow> ReportSms requestInfo HRIL_ERR_INVALID_PARAMETER NoData s
           | Some d \<Rightarrow>
               if length d < SMS_STRING_COUNT then ReportSms requestInfo HRIL_ERR_INVALID_PARAMETER NoData s
               else let smscPdu = c_str_or_empty (d ! 0); pdu = c_str_or_empty (d ! 1);
                        expectMore = (map_option rq_request requestInfo = Some HREQ_SMS_SEND_SMS_MORE_MODE)
                    in tracked_call messaging
                         (IRadioMessaging (if expectMore then A_sendSmsExpectMore smscPdu pdu else A_sendSms smscPdu pdu))
                         requestInfo s))"

text \<open>\<open>data\<close> points to two integers whatever \<open>dataLen\<close> says.\<close>

definition SendSmsAck :: "(int \<times> int) option \<Rightarrow> nat \<Rightarrow> ReqDataInfo option \<Rightarrow> ril \<Rightarrow> ril" where
  "SendSmsAck data_p dataLen requestInfo s =
     (case RequireSms requestInfo s of
        (None, s) \<Rightarrow> s
      | (Some messaging, s) \<Rightarrow>
          (case data_p of
             None \<Rightarrow> ReportSms requestInfo HRIL_ERR_INVALID_PARAMETER NoData s
           | Some (d0, d1) \<Rightarrow>
               if dataLen = 0 then ReportSms requestInfo HRIL_ERR_INVALID_PARAMETER NoData s
               else tracked_call messaging
                      (IRadioMessaging (A_acknowledgeLastIncomingGsmSms (d0 \<noteq> 0) (ToAckFailCause d1))) requestInfo s))"

definition GetSmscAddr :: "ReqDataInfo option \<Rightarrow> ril \<Rightarrow> ril" where
  "GetSmscAddr requestInfo s =
     (case RequireSms requestInfo s of
        (None, s) \<Rightarrow> s
      | (Some messaging, s) \<Rightarrow> tracked_call messaging (IRadioMessaging A_getSmscAddress) requestInfo s)"

definition SetSmscAddr :: "(int \<times> string option) option \<Rightarrow> bool \<Rightarrow> ReqDataInfo option \<Rightarrow> ril \<Rightarrow> ril" where
  "SetSmscAddr data_p len_ok requestInfo s =
     (case RequireSms requestInfo s of
        (None, s) \<Rightarrow> s
      | (Some messaging, s) \<Rightarrow>
          (case data_p of
             None \<Rightarrow> ReportSms requestInfo HRIL_ERR_INVALID_PARAMETER NoData s
           | Some (tosca, address) \<Rightarrow>
               if \<not> len_ok then ReportSms requestInfo HRIL_ERR_INVALID_PARAMETER NoData s
               else tracked_call messaging (IRadioMessaging (A_setSmscAddress (ApplyTosca tosca address))) requestInfo s))"

definition SetSmsMemoryStatus :: "int \<Rightarrow> ReqDataInfo option \<Rightarrow> ril \<Rightarrow> ril" where
  "SetSmsMemoryStatus available requestInfo s =
     (case RequireSms requestInfo s of
        (None, s) \<Rightarrow> s
      | (Some messaging, s) \<Rightarrow>
          tracked_call messaging (IRadioMessaging (A_reportSmsMemoryStatus (available \<noteq> 0))) requestInfo s)"

definition AddSimMessage ::
  "(int \<times> string option \<times> string option) option \<Rightarrow> bool \<Rightarrow> ReqDataInfo option \<Rightarrow> ril \<Rightarrow> ril" where
  "AddSimMessage data_p len_ok requestInfo s =
     (case RequireSms requestInfo s of
        (None, s) \<Rightarrow> s
      | (Some messaging, s) \<Rightarrow>
          (case data_p of
             None \<Rightarrow> ReportSms requestInfo HRIL_ERR_INVALID_PARAMETER NoData s
           | Some (state, pdu, smsc) \<Rightarrow>
               if \<not> len_ok then ReportSms requestInfo HRIL_ERR_INVALID_PARAMETER NoData s
               else tracked_call messaging
                      (IRadioMessaging (A_writeSmsToSim state (c_str_or_empty pdu) (c_str_or_empty smsc))) requestInfo s))"

definition DelSimMessage :: "int option \<Rightarrow> nat \<Rightarrow> ReqDataInfo option \<Rightarrow> ril \<Rightarrow> ril" where
  "DelSimMessage data_p dataLen requestInfo s =
     (case RequireSms requestInfo s of
        (None, s) \<Rightarrow> s
      | (Some messaging, s) \<Rightarrow>
          (case data_p of
             None \<Rightarrow> ReportSms requestInfo HRIL_ERR_INVALID_PARAMETER NoData s
           | Some d0 \<Rightarrow>
               if dataLen = 0 then ReportSms requestInfo HRIL_ERR_INVALID_PARAMETER NoData s
               else tracked_call messaging (IRadioMessaging (A_deleteSmsOnSim d0)) requestInfo s))"

section \<open>The tables\<close>

datatype sms_op = Op_SendGsmSms "string option list option" | Op_SendSmsAck "(int \<times> int) option" nat
  | Op_AddSimMessage "(int \<times> string option \<times> string option) option" bool | Op_DelSimMessage "int option" nat
  | Op_SetSmscAddr "(int \<times> string option) option" bool | Op_GetSmscAddr | Op_SetSmsMemoryStatus int

definition SmsOps :: "sms_op \<Rightarrow> ReqDataInfo option \<Rightarrow> ril \<Rightarrow> ril" where
  "SmsOps op =
     (case op of
        Op_SendGsmSms d \<Rightarrow> SendGsmSms d
      | Op_SendSmsAck d n \<Rightarrow> SendSmsAck d n
      | Op_AddSimMessage d len_ok \<Rightarrow> AddSimMessage d len_ok
      | Op_DelSimMessage d n \<Rightarrow> DelSimMessage d n
      | Op_SetSmscAddr d len_ok \<Rightarrow> SetSmscAddr d len_ok
      | Op_GetSmscAddr \<Rightarrow> GetSmscAddr
      | Op_SetSmsMemoryStatus available \<Rightarrow> SetSmsMemoryStatus available)"

datatype sms_msg = Rsp_sendSms RadioResponseInfo int string int | Rsp_sendSmsExpectMore RadioResponseInfo int string int
  | Rsp_acknowledgeLastIncomingGsmSms RadioResponseInfo | Rsp_getSmscAddress RadioResponseInfo string
  | Rsp_setSmscAddress RadioResponseInfo | Rsp_reportSmsMemoryStatus RadioResponseInfo
  | Rsp_writeSmsToSim RadioResponseInfo int | Rsp_deleteSmsOnSim RadioResponseInfo
  | Ind_newSms int RadioIndicationType bytes | Ind_newSmsStatusReport int RadioIndicationType bytes
  | Ind_newSmsOnSim int RadioIndicationType int | Ind_simSmsStorageFull int RadioIndicationType

definition MessagingCallbacks :: "sms_msg \<Rightarrow> ril \<Rightarrow> ril" where
  "MessagingCallbacks m =
     (case m of
        Rsp_sendSms info messageRef ackPDU errorCode \<Rightarrow> ReportSendResult info messageRef ackPDU errorCode
      | Rsp_sendSmsExpectMore info messageRef ackPDU errorCode \<Rightarrow> ReportSendResult info messageRef ackPDU errorCode
      | Rsp_acknowledgeLastIncomingGsmSms info \<Rightarrow> SmsReportEmpty info
      | Rsp_getSmscAddress info smsc \<Rightarrow> getSmscAddressResponse info smsc
      | Rsp_setSmscAddress info \<Rightarrow> SmsReportEmpty info
      | Rsp_reportSmsMemoryStatus info \<Rightarrow> SmsReportEmpty info
      | Rsp_writeSmsToSim info idx \<Rightarrow> SmsReportEmpty info
      | Rsp_deleteSmsOnSim info \<Rightarrow> SmsReportEmpty info
      | Ind_newSms slotId type pdu \<Rightarrow> newSms slotId type pdu
      | Ind_newSmsStatusReport slotId type pdu \<Rightarrow> newSmsStatusReport slotId type pdu
      | Ind_newSmsOnSim slotId type n \<Rightarrow> newSmsOnSim slotId type n
      | Ind_simSmsStorageFull slotId type \<Rightarrow> simSmsStorageFull slotId type)"

section \<open>The contract\<close>

lemmas sms_request_defs = SendGsmSms_def SendSmsAck_def AddSimMessage_def DelSimMessage_def SetSmscAddr_def
  GetSmscAddr_def SetSmsMemoryStatus_def

lemmas sms_response_defs = ReportSendResult_def SmsReportEmpty_def getSmscAddressResponse_def newSms_def
  newSmsStatusReport_def newSmsOnSim_def simSmsStorageFull_def

lemma ack_quiet: "quiet s s1 \<Longrightarrow> quiet s (ack_indication service slotId type s1)"
  by (auto simp: ack_indication_def quiet_after split: option.split)

interpretation sms: radio_domain SmsOps MessagingCallbacks
proof
  show "settles 2 [r] s (SmsOps op (Some r) s)" for r s op
    by (cases op) (simp_all add: SmsOps_def sms_request_defs report_defs require_defs settle_steps settle_require Let_def
        split: option.split)
  show "settles 2 [] s (MessagingCallbacks m s)" for s m
    by (cases m) (simp_all add: MessagingCallbacks_def sms_response_defs SmsAckIndication_def report_defs notify_defs
        settle_steps quiet_settles ack_quiet quiet_after)
qed

section \<open>What the conversions keep\<close>

text \<open>The inverse that \<open>hril\<close> applies: two hexadecimal digits per byte.\<close>

definition digit_value :: "char \<Rightarrow> u8" where
  "digit_value c = (let v = of_char c :: u8 in if v \<le> 0x39 then v - 0x30 else v - 0x37)"

fun hex_decode :: "string \<Rightarrow> bytes" where
  "hex_decode (a # b # cs) = (push_bit 4 (digit_value a) OR digit_value b) # hex_decode cs"
| "hex_decode cs = []"

lemma digit_value_hex: "n < 16 \<Longrightarrow> digit_value (''0123456789ABCDEF'' ! n) = of_nat n"
proof -
  have "\<forall>n \<in> {..<16}. digit_value (''0123456789ABCDEF'' ! n) = of_nat n"
    by (simp add: lessThan_nat_numeral lessThan_Suc digit_value_def)
  then show "n < 16 \<Longrightarrow> ?thesis" by simp
qed

lemma digit_value_digit: "(n :: u8) < 16 \<Longrightarrow> digit_value (hex_digit n) = n"
  using digit_value_hex [of "unat n"] by (simp add: hex_digit_def word_less_nat_alt)

lemma nibble_below: "(b :: u8) AND 0x0F < 16"
proof -
  have m: "(0x0F :: u8) = mask 4" by (simp add: mask_eq_exp_minus_1)
  have "b AND 0x0F < 2 ^ 4" unfolding m by (subst less_exp_iff_bits) (auto simp: bit_simps)
  then show ?thesis by simp
qed

lemma nibbles_join: "push_bit 4 (drop_bit 4 b AND 0x0F) OR (b AND 0x0F) = (b :: u8)"
proof -
  have m: "x AND 0x0F = take_bit 4 x" for x :: u8 by (simp add: take_bit_eq_mask mask_eq_exp_minus_1)
  show ?thesis
    by (rule bit_word_eqI) (auto simp: m bit_simps)
qed

text \<open>
  An inbound message arrives whole: the hexadecimal text handed to \<open>hril\<close> for a PDU has two
  digits per byte and decodes to exactly the bytes of the indication.
\<close>

lemma sms_hex_roundtrip: "length (BytesToHex pdu) = 2 * length pdu \<and> hex_decode (BytesToHex pdu) = pdu"
  by (induction pdu) (simp_all add: BytesToHex_def digit_value_digit nibble_below nibbles_join [simplified])

text \<open>
  The type of a service centre address survives in both directions: an address read from the
  modem and written back with the type derived from it is unchanged, and a number stored without
  its plus sign gets it back from the type.
\<close>

lemma smsc_roundtrip:
  "ApplyTosca (ToscaOf a) (Some a) = a \<and>
   (a \<noteq> [] \<and> hd a = CHR ''+'' \<and> tl a \<noteq> [] \<and> hd (tl a) \<noteq> CHR ''+'' \<longrightarrow> ApplyTosca (ToscaOf a) (Some (tl a)) = a)"
  by (cases a) (auto simp: ApplyTosca_def ToscaOf_def c_str_or_empty_def TOSCA_INTERNATIONAL_def TOSCA_UNKNOWN_def)

end
