(* ===== verification/Ril_Call.thy ===== *)
theory Ril_Call
  imports Ril_Sms
begin

text \<open>
  The call domain: \<open>hardware/ril/src/hybris_ril_call.cpp\<close>. Call barring and the notifications of
  supplementary services go through the SIM and the network service; their answers come back in the
  callbacks of \<open>Ril_Sim\<close> and \<open>Ril_Network\<close>.
\<close>

section \<open>Supplementary services\<close>

definition SlotOf :: "ReqDataInfo option \<Rightarrow> int" where
  "SlotOf req =
     (case req of
        None \<Rightarrow> 0
      | Some r \<Rightarrow> if rq_slotId r < 0 \<or> rq_slotId r \<ge> MAX_SLOTS then 0 else rq_slotId r)"

definition TOA_INTERNATIONAL :: int where "TOA_INTERNATIONAL = 145"
definition TOA_UNKNOWN :: int where "TOA_UNKNOWN = 129"
definition SERVICE_CLASS_DEFAULT :: int where "SERVICE_CLASS_DEFAULT = 0"
definition SERVICE_CLASS_VOICE :: int where "SERVICE_CLASS_VOICE = 1"

section \<open>The call list\<close>

record VoiceCall =
  vc_state :: int
  vc_index :: int
  vc_toa :: int
  vc_isMpty :: bool
  vc_isMT :: bool
  vc_isVoice :: bool
  vc_number :: string
  vc_name :: string
  vc_namePresentation :: int

record CallRecord =
  cr_number :: string
  cr_name :: string
  cr_index :: int
  cr_dir :: int
  cr_state :: int
  cr_voice :: bool
  cr_mpty :: int
  cr_type :: int
  cr_namePresentation :: int

text \<open>The mode is \<open>HRIL_CALL_VOICE\<close> or \<open>HRIL_CALL_DATA\<close>.\<close>

definition ToRecord :: "VoiceCall \<Rightarrow> CallRecord" where
  "ToRecord call =
     \<lparr>cr_number = vc_number call, cr_name = vc_name call, cr_index = vc_index call,
      cr_dir = (if vc_isMT call then 1 else 0), cr_state = vc_state call, cr_voice = vc_isVoice call,
      cr_mpty = (if vc_isMpty call then 1 else 0), cr_type = vc_toa call,
      cr_namePresentation = vc_namePresentation call\<rparr>"

definition ToCallInfo :: "CallRecord \<Rightarrow> HRilCallInfo" where
  "ToCallInfo r =
     \<lparr>ci_index = cr_index r, ci_dir = cr_dir r, ci_state = cr_state r, ci_voice = cr_voice r, ci_mpty = cr_mpty r,
      ci_voiceDomain = 0, ci_callType = 0, ci_number = cr_number r, ci_type = cr_type r, ci_alpha = cr_name r,
      ci_name = cr_name r, ci_namePresentation = cr_namePresentation r\<rparr>"

text \<open>An empty list is handed over as a null pointer of length 0.\<close>

definition list_or_none :: "('a list \<Rightarrow> call_data) \<Rightarrow> 'a list \<Rightarrow> hril_data" where
  "list_or_none con xs = (if xs = [] then NoData else CallData (con xs))"

section \<open>Responses\<close>

definition CallReportEmpty :: "RadioResponseInfo \<Rightarrow> ril \<Rightarrow> ril" where
  "CallReportEmpty info s = respond ReportCall info (\<lambda>_. NoData) s"

definition getCurrentCallsResponse :: "RadioResponseInfo \<Rightarrow> VoiceCall list \<Rightarrow> ril \<Rightarrow> ril" where
  "getCurrentCallsResponse info calls s =
     respond ReportCall info (\<lambda>_. list_or_none CallList (map ToCallInfo (map ToRecord calls))) s"

definition getLastCallFailCauseResponse :: "RadioResponseInfo \<Rightarrow> int \<Rightarrow> ril \<Rightarrow> ril" where
  "getLastCallFailCauseResponse info causeCode s = respond ReportCall info (\<lambda>_. IntData causeCode) s"

definition getMuteResponse :: "RadioResponseInfo \<Rightarrow> bool \<Rightarrow> ril \<Rightarrow> ril" where
  "getMuteResponse info enable s = respond ReportCall info (\<lambda>_. IntData (if enable then 1 else 0)) s"

datatype ClipStatus = CLIP_PROVISIONED | CLIP_UNPROVISIONED | CLIP_UNKNOWN

definition getClipResponse :: "RadioResponseInfo \<Rightarrow> ClipStatus \<Rightarrow> ril \<Rightarrow> ril" where
  "getClipResponse info status s =
     respond ReportCall info
       (\<lambda>req. CallData (ClipData (g_clipPresentation s ! nat (SlotOf (Some req)))
          (case status of CLIP_PROVISIONED \<Rightarrow> 1 | CLIP_UNPROVISIONED \<Rightarrow> 0 | CLIP_UNKNOWN \<Rightarrow> 2))) s"

definition getClirResponse :: "RadioResponseInfo \<Rightarrow> int \<Rightarrow> int \<Rightarrow> ril \<Rightarrow> ril" where
  "getClirResponse info n m s = respond ReportCall info (\<lambda>_. CallData (ClirData n m)) s"

definition getCallWaitingResponse :: "RadioResponseInfo \<Rightarrow> bool \<Rightarrow> int \<Rightarrow> ril \<Rightarrow> ril" where
  "getCallWaitingResponse info enable serviceClass s =
     respond ReportCall info (\<lambda>_. CallData (WaitData (if enable then 1 else 0) serviceClass)) s"

definition to_cf_query :: "CallForwardInfo \<Rightarrow> HRilCFQueryInfo" where
  "to_cf_query cf =
     \<lparr>cf_reason = fw_reason cf, cf_status = fw_status cf, cf_classx = fw_serviceClass cf, cf_type = fw_toa cf,
      cf_time = fw_timeSeconds cf, cf_number = fw_number cf\<rparr>"

definition getCallForwardStatusResponse :: "RadioResponseInfo \<Rightarrow> CallForwardInfo list \<Rightarrow> ril \<Rightarrow> ril" where
  "getCallForwardStatusResponse info callForwardInfos s =
     respond ReportCall info (\<lambda>_. list_or_none CFList (map to_cf_query callForwardInfos)) s"

section \<open>Indications\<close>

definition CallAckIndication :: "int \<Rightarrow> RadioIndicationType \<Rightarrow> ril \<Rightarrow> ril" where
  "CallAckIndication = ack_indication Voice"

definition callStateChanged :: "int \<Rightarrow> RadioIndicationType \<Rightarrow> ril \<Rightarrow> ril" where
  "callStateChanged slotId type s =
     CallAckIndication slotId type (NotifyCall slotId HNOTI_CALL_STATE_UPDATED NoData s)"

definition indicateRingbackTone :: "int \<Rightarrow> RadioIndicationType \<Rightarrow> bool \<Rightarrow> ril \<Rightarrow> ril" where
  "indicateRingbackTone slotId type start s =
     CallAckIndication slotId type
       (NotifyCall slotId HNOTI_CALL_RINGBACK_VOICE_REPORT (IntData (if start then 1 else 0)) s)"

record EmergencyNumber =
  en_number :: string
  en_mcc :: string
  en_categories :: int
  en_sources :: u32

definition SOURCE_NETWORK_SIGNALING :: u32 where "SOURCE_NETWORK_SIGNALING = push_bit 0 1"
definition SOURCE_SIM :: u32 where "SOURCE_SIM = push_bit 1 1"

definition to_emergency :: "EmergencyNumber list \<Rightarrow> nat \<Rightarrow> HRilEmergencyInfo" where
  "to_emergency numbers i =
     \<lparr>em_index = int i, em_total = int (length numbers), em_eccNum = en_number (numbers ! i),
      em_category = en_categories (numbers ! i),
      em_simpresent = (if en_sources (numbers ! i) AND (SOURCE_NETWORK_SIGNALING OR SOURCE_SIM) \<noteq> 0 then 1 else 0),
      em_mcc = en_mcc (numbers ! i), em_abnormalService = 0\<rparr>"

definition currentEmergencyNumberList :: "int \<Rightarrow> RadioIndicationType \<Rightarrow> EmergencyNumber list \<Rightarrow> ril \<Rightarrow> ril" where
  "currentEmergencyNumberList slotId type numbers s =
     (let l = map (to_emergency numbers) [0..<length numbers]
      in CallAckIndication slotId type
           (if l \<noteq> [] then NotifyCall slotId HNOTI_CALL_EMERGENCY_NUMBER_REPORT (CallData (EmergencyList l)) s else s))"

definition callRing :: "int \<Rightarrow> RadioIndicationType \<Rightarrow> ril \<Rightarrow> ril" where
  "callRing slotId type s = CallAckIndication slotId type s"

definition resendIncallMute :: "int \<Rightarrow> RadioIndicationType \<Rightarrow> ril \<Rightarrow> ril" where
  "resendIncallMute slotId type s = CallAckIndication slotId type s"

definition onUssd :: "int \<Rightarrow> RadioIndicationType \<Rightarrow> int \<Rightarrow> string \<Rightarrow> ril \<Rightarrow> ril" where
  "onUssd slotId type modeType msg s =
     CallAckIndication slotId type (NotifyCall slotId HNOTI_CALL_USSD_REPORT (CallData (UssdData modeType msg)) s)"

text \<open>\<open>ss\<close> is service type, request type, service class and result.\<close>

definition onSupplementaryServiceIndication :: "int \<Rightarrow> RadioIndicationType \<Rightarrow> int \<times> int \<times> int \<times> int \<Rightarrow> ril \<Rightarrow> ril" where
  "onSupplementaryServiceIndication slotId type ss s =
     (case ss of (serviceType, requestType, serviceClass, res) \<Rightarrow>
        CallAckIndication slotId type
          (NotifyCall slotId HNOTI_CALL_SS_REPORT (CallData (SsData serviceType requestType serviceClass res)) s))"

section \<open>Requests: calls\<close>

definition GetCallList :: "ReqDataInfo option \<Rightarrow> ril \<Rightarrow> ril" where
  "GetCallList requestInfo s =
     (case RequireVoice requestInfo s of
        (None, s) \<Rightarrow> s
      | (Some voice, s) \<Rightarrow> tracked_call voice (IRadioVoice A_getCurrentCalls) requestInfo s)"

text \<open>\<open>data\<close> is the address and the CLIR mode.\<close>

definition Dial :: "(string option \<times> int) option \<Rightarrow> ReqDataInfo option \<Rightarrow> ril \<Rightarrow> ril" where
  "Dial data_p requestInfo s =
     (case RequireVoice requestInfo s of
        (None, s) \<Rightarrow> s
      | (Some voice, s) \<Rightarrow>
          (case data_p of
             Some (Some address, clir) \<Rightarrow> tracked_call voice (IRadioVoice (A_dial address clir)) requestInfo s
           | _ \<Rightarrow> ReportCall requestInfo HRIL_ERR_INVALID_PARAMETER NoData s))"

definition Answer :: "ReqDataInfo option \<Rightarrow> ril \<Rightarrow> ril" where
  "Answer requestInfo s =
     (case RequireVoice requestInfo s of
        (None, s) \<Rightarrow> s
      | (Some voice, s) \<Rightarrow> tracked_call voice (IRadioVoice A_acceptCall) requestInfo s)"

definition Reject :: "ReqDataInfo option \<Rightarrow> ril \<Rightarrow> ril" where
  "Reject requestInfo s =
     (case RequireVoice requestInfo s of
        (None, s) \<Rightarrow> s
      | (Some voice, s) \<Rightarrow> tracked_call voice (IRadioVoice A_rejectCall) requestInfo s)"

text \<open>The index is cast from \<open>uint32_t\<close> to \<open>int32_t\<close>.\<close>

definition Hangup :: "u32 option \<Rightarrow> ReqDataInfo option \<Rightarrow> ril \<Rightarrow> ril" where
  "Hangup data_p requestInfo s =
     (case RequireVoice requestInfo s of
        (None, s) \<Rightarrow> s
      | (Some voice, s) \<Rightarrow>
          (case data_p of
             None \<Rightarrow> ReportCall requestInfo HRIL_ERR_INVALID_PARAMETER NoData s
           | Some d \<Rightarrow> tracked_call voice (IRadioVoice (A_hangup (sint d))) requestInfo s))"

definition SwapCalls :: "ReqDataInfo option \<Rightarrow> ril \<Rightarrow> ril" where
  "SwapCalls requestInfo s =
     (case RequireVoice requestInfo s of
        (None, s) \<Rightarrow> s
      | (Some voice, s) \<Rightarrow> tracked_call voice (IRadioVoice A_switchWaitingOrHoldingAndActive) requestInfo s)"

definition CombineConference :: "int \<Rightarrow> ReqDataInfo option \<Rightarrow> ril \<Rightarrow> ril" where
  "CombineConference callType requestInfo s =
     (case RequireVoice requestInfo s of
        (None, s) \<Rightarrow> s
      | (Some voice, s) \<Rightarrow> tracked_call voice (IRadioVoice A_conference) requestInfo s)"

definition SeparateConference :: "int \<Rightarrow> int \<Rightarrow> ReqDataInfo option \<Rightarrow> ril \<Rightarrow> ril" where
  "SeparateConference callIndex callType requestInfo s =
     (case RequireVoice requestInfo s of
        (None, s) \<Rightarrow> s
      | (Some voice, s) \<Rightarrow>
          if callIndex \<le> 0 then ReportCall requestInfo HRIL_ERR_INVALID_PARAMETER NoData s
          else tracked_call voice (IRadioVoice (A_separateConnection callIndex)) requestInfo s)"

definition TYPE_HANG_UP_HOLD_WAIT :: int where "TYPE_HANG_UP_HOLD_WAIT = 0"
definition TYPE_HANG_UP_ACTIVE :: int where "TYPE_HANG_UP_ACTIVE = 1"

definition CallSupplement :: "int \<Rightarrow> ReqDataInfo option \<Rightarrow> ril \<Rightarrow> ril" where
  "CallSupplement type requestInfo s =
     (case RequireVoice requestInfo s of
        (None, s) \<Rightarrow> s
      | (Some voice, s) \<Rightarrow>
          if type = TYPE_HANG_UP_HOLD_WAIT
          then tracked_call voice (IRadioVoice A_hangupWaitingOrBackground) requestInfo s
          else if type = TYPE_HANG_UP_ACTIVE
          then tracked_call voice (IRadioVoice A_hangupForegroundResumeBackground) requestInfo s
          else ReportCall requestInfo HRIL_ERR_INVALID_PARAMETER NoData s)"

definition ExplicitCallTransferConnection :: "ReqDataInfo option \<Rightarrow> ril \<Rightarrow> ril" where
  "ExplicitCallTransferConnection requestInfo s =
     (case RequireVoice requestInfo s of
        (None, s) \<Rightarrow> s
      | (Some voice, s) \<Rightarrow> tracked_call voice (IRadioVoice A_explicitCallTransfer) requestInfo s)"

definition StartDtmf :: "string option \<Rightarrow> ReqDataInfo option \<Rightarrow> ril \<Rightarrow> ril" where
  "StartDtmf dtmfKey requestInfo s =
     (case RequireVoice requestInfo s of
        (None, s) \<Rightarrow> s
      | (Some voice, s) \<Rightarrow>
          (case dtmfKey of
             None \<Rightarrow> ReportCall requestInfo HRIL_ERR_INVALID_PARAMETER NoData s
           | Some k \<Rightarrow> tracked_call voice (IRadioVoice (A_startDtmf k)) requestInfo s))"

definition SendDtmf :: "string option \<Rightarrow> ReqDataInfo option \<Rightarrow> ril \<Rightarrow> ril" where
  "SendDtmf dtmfKey requestInfo s =
     (case RequireVoice requestInfo s of
        (None, s) \<Rightarrow> s
      | (Some voice, s) \<Rightarrow>
          (case dtmfKey of
             None \<Rightarrow> ReportCall requestInfo HRIL_ERR_INVALID_PARAMETER NoData s
           | Some k \<Rightarrow> tracked_call voice (IRadioVoice (A_sendDtmf k)) requestInfo s))"

definition StopDtmf :: "string option \<Rightarrow> ReqDataInfo option \<Rightarrow> ril \<Rightarrow> ril" where
  "StopDtmf dtmfKey requestInfo s =
     (case RequireVoice requestInfo s of
        (None, s) \<Rightarrow> s
      | (Some voice, s) \<Rightarrow> tracked_call voice (IRadioVoice A_stopDtmf) requestInfo s)"

definition SetMute :: "int \<Rightarrow> ReqDataInfo option \<Rightarrow> ril \<Rightarrow> ril" where
  "SetMute mute requestInfo s =
     (case RequireVoice requestInfo s of
        (None, s) \<Rightarrow> s
      | (Some voice, s) \<Rightarrow> tracked_call voice (IRadioVoice (A_setMute (mute \<noteq> 0))) requestInfo s)"

definition GetMute :: "ReqDataInfo option \<Rightarrow> ril \<Rightarrow> ril" where
  "GetMute requestInfo s =
     (case RequireVoice requestInfo s of
        (None, s) \<Rightarrow> s
      | (Some voice, s) \<Rightarrow> tracked_call voice (IRadioVoice A_getMute) requestInfo s)"

definition GetCallFailReason :: "ReqDataInfo option \<Rightarrow> ril \<Rightarrow> ril" where
  "GetCallFailReason requestInfo s =
     (case RequireVoice requestInfo s of
        (None, s) \<Rightarrow> s
      | (Some voice, s) \<Rightarrow> tracked_call voice (IRadioVoice A_getLastCallFailCause) requestInfo s)"

section \<open>Requests: supplementary services\<close>

definition ReportCallFailure :: "ReqDataInfo option \<Rightarrow> HRilErrNumber \<Rightarrow> ril \<Rightarrow> ril" where
  "ReportCallFailure requestInfo err s = ReportCall requestInfo err NoData s"

definition GetClip :: "ReqDataInfo option \<Rightarrow> ril \<Rightarrow> ril" where
  "GetClip requestInfo s =
     (case RequireVoice requestInfo s of
        (None, s) \<Rightarrow> s
      | (Some voice, s) \<Rightarrow> tracked_call voice (IRadioVoice A_getClip) requestInfo s)"

definition SetClip :: "int \<Rightarrow> ReqDataInfo option \<Rightarrow> ril \<Rightarrow> ril" where
  "SetClip action requestInfo s =
     ReportCall requestInfo HRIL_ERR_SUCCESS NoData
       (s\<lparr>g_clipPresentation := (g_clipPresentation s)[nat (SlotOf requestInfo) := action]\<rparr>)"

definition GetClir :: "ReqDataInfo option \<Rightarrow> ril \<Rightarrow> ril" where
  "GetClir requestInfo s =
     (case RequireVoice requestInfo s of
        (None, s) \<Rightarrow> s
      | (Some voice, s) \<Rightarrow> tracked_call voice (IRadioVoice A_getClir) requestInfo s)"

definition SetClir :: "int \<Rightarrow> ReqDataInfo option \<Rightarrow> ril \<Rightarrow> ril" where
  "SetClir action requestInfo s =
     (case RequireVoice requestInfo s of
        (None, s) \<Rightarrow> s
      | (Some voice, s) \<Rightarrow> tracked_call voice (IRadioVoice (A_setClir action)) requestInfo s)"

definition GetCallWaiting :: "ReqDataInfo option \<Rightarrow> ril \<Rightarrow> ril" where
  "GetCallWaiting requestInfo s =
     (case RequireVoice requestInfo s of
        (None, s) \<Rightarrow> s
      | (Some voice, s) \<Rightarrow> tracked_call voice (IRadioVoice (A_getCallWaiting SERVICE_CLASS_VOICE)) requestInfo s)"

definition SetCallWaiting :: "int \<Rightarrow> ReqDataInfo option \<Rightarrow> ril \<Rightarrow> ril" where
  "SetCallWaiting active requestInfo s =
     (case RequireVoice requestInfo s of
        (None, s) \<Rightarrow> s
      | (Some voice, s) \<Rightarrow> tracked_call voice (IRadioVoice (A_setCallWaiting (active \<noteq> 0) SERVICE_CLASS_VOICE)) requestInfo s)"

text \<open>\<open>STATUS_INTERROGATE\<close> is a constant of the AIDL interface.\<close>

definition GetCallTransferInfo :: "int \<Rightarrow> int \<Rightarrow> ReqDataInfo option \<Rightarrow> ril \<Rightarrow> ril" where
  "GetCallTransferInfo STATUS_INTERROGATE reason requestInfo s =
     (case RequireVoice requestInfo s of
        (None, s) \<Rightarrow> s
      | (Some voice, s) \<Rightarrow> tracked_call voice (IRadioVoice (A_getCallForwardStatus
          \<lparr>fw_status = STATUS_INTERROGATE, fw_reason = reason, fw_serviceClass = SERVICE_CLASS_DEFAULT,
           fw_toa = TOA_UNKNOWN, fw_number = [], fw_timeSeconds = 0\<rparr>)) requestInfo s)"

record HRilCFInfo =
  cfi_number :: "string option"
  cfi_reason :: int
  cfi_mode :: int
  cfi_classx :: int
  cfi_time :: int

definition to_call_forward :: "HRilCFInfo \<Rightarrow> CallForwardInfo" where
  "to_call_forward info =
     (let number = c_str_or_empty (cfi_number info)
      in \<lparr>fw_status = cfi_mode info, fw_reason = cfi_reason info, fw_serviceClass = cfi_classx info,
          fw_toa = (if number \<noteq> [] \<and> hd number = CHR ''+'' then TOA_INTERNATIONAL else TOA_UNKNOWN),
          fw_number = number, fw_timeSeconds = cfi_time info\<rparr>)"

definition SetCallTransferInfo :: "HRilCFInfo \<Rightarrow> ReqDataInfo option \<Rightarrow> ril \<Rightarrow> ril" where
  "SetCallTransferInfo info requestInfo s =
     (case RequireVoice requestInfo s of
        (None, s) \<Rightarrow> s
      | (Some voice, s) \<Rightarrow> tracked_call voice (IRadioVoice (A_setCallForward (to_call_forward info))) requestInfo s)"

definition GetCallRestriction :: "string option \<Rightarrow> ReqDataInfo option \<Rightarrow> ril \<Rightarrow> ril" where
  "GetCallRestriction fac requestInfo s =
     (case Sim (SlotOf requestInfo) s of
        None \<Rightarrow> ReportCallFailure requestInfo HRIL_ERR_GENERIC_FAILURE s
      | Some sim \<Rightarrow>
          (case fac of
             None \<Rightarrow> ReportCallFailure requestInfo HRIL_ERR_INVALID_PARAMETER s
           | Some f \<Rightarrow> tracked_call sim (IRadioSim (A_getFacilityLockForApp f [] SERVICE_CLASS_DEFAULT [])) requestInfo s))"

definition SetCallRestriction :: "string option \<Rightarrow> int \<Rightarrow> string option \<Rightarrow> ReqDataInfo option \<Rightarrow> ril \<Rightarrow> ril" where
  "SetCallRestriction fac mode password requestInfo s =
     (case Sim (SlotOf requestInfo) s of
        None \<Rightarrow> ReportCallFailure requestInfo HRIL_ERR_GENERIC_FAILURE s
      | Some sim \<Rightarrow>
          (case fac of
             None \<Rightarrow> ReportCallFailure requestInfo HRIL_ERR_INVALID_PARAMETER s
           | Some f \<Rightarrow>
               tracked_call sim
                 (IRadioSim (A_setFacilityLockForApp f (mode = 1) (c_str_or_empty password) SERVICE_CLASS_DEFAULT []))
                 requestInfo s))"

definition SetBarringPassword ::
  "string option \<Rightarrow> string option \<Rightarrow> string option \<Rightarrow> ReqDataInfo option \<Rightarrow> ril \<Rightarrow> ril" where
  "SetBarringPassword fac oldPassword newPassword requestInfo s =
     (case Network (SlotOf requestInfo) s of
        None \<Rightarrow> ReportCallFailure requestInfo HRIL_ERR_GENERIC_FAILURE s
      | Some network \<Rightarrow>
          (case fac of
             None \<Rightarrow> ReportCallFailure requestInfo HRIL_ERR_INVALID_PARAMETER s
           | Some f \<Rightarrow>
               tracked_call network
                 (IRadioNetwork (A_setBarringPassword f (c_str_or_empty oldPassword) (c_str_or_empty newPassword)))
                 requestInfo s))"

definition SetUssd :: "string option \<Rightarrow> ReqDataInfo option \<Rightarrow> ril \<Rightarrow> ril" where
  "SetUssd str requestInfo s =
     (case RequireVoice requestInfo s of
        (None, s) \<Rightarrow> s
      | (Some voice, s) \<Rightarrow>
          (case str of
             None \<Rightarrow> ReportCallFailure requestInfo HRIL_ERR_INVALID_PARAMETER s
           | Some t \<Rightarrow> tracked_call voice (IRadioVoice (A_sendUssd t)) requestInfo s))"

definition GetUssd :: "ReqDataInfo option \<Rightarrow> ril \<Rightarrow> ril" where
  "GetUssd requestInfo s = ReportCall requestInfo HRIL_ERR_SUCCESS (IntData 1) s"

definition CloseUnFinishedUssd :: "ReqDataInfo option \<Rightarrow> ril \<Rightarrow> ril" where
  "CloseUnFinishedUssd requestInfo s =
     (case RequireVoice requestInfo s of
        (None, s) \<Rightarrow> s
      | (Some voice, s) \<Rightarrow> tracked_call voice (IRadioVoice A_cancelPendingUssd) requestInfo s)"

definition SetSuppSrvNotification :: "int \<Rightarrow> ReqDataInfo option \<Rightarrow> ril \<Rightarrow> ril" where
  "SetSuppSrvNotification enable requestInfo s =
     (case Network (SlotOf requestInfo) s of
        None \<Rightarrow> ReportCallFailure requestInfo HRIL_ERR_GENERIC_FAILURE s
      | Some network \<Rightarrow>
          tracked_call network (IRadioNetwork (A_setSuppServiceNotifications (enable \<noteq> 0))) requestInfo s)"

section \<open>The tables\<close>

datatype supp_op = Op_GetClip | Op_SetClip int | Op_GetCallWaiting | Op_SetCallWaiting int | Op_SetCallTransferInfo HRilCFInfo
  | Op_GetCallTransferInfo int int | Op_GetCallRestriction "string option"
  | Op_SetCallRestriction "string option" int "string option" | Op_GetClir | Op_SetClir int | Op_SetUssd "string option"
  | Op_GetUssd | Op_SetBarringPassword "string option" "string option" "string option" | Op_CloseUnFinishedUssd
  | Op_SetSuppSrvNotification int

datatype call_op = Op_GetCallList | Op_Dial "(string option \<times> int) option" | Op_Hangup "u32 option" | Op_Reject | Op_Answer
  | Op_HoldCall | Op_UnHoldCall | Op_SwitchCall | Op_CombineConference int | Op_SeparateConference int int
  | Op_CallSupplement int | Op_StartDtmf "string option" | Op_SendDtmf "string option" | Op_StopDtmf "string option"
  | Op_SetMute int | Op_GetMute | Op_GetCallFailReason | Op_ExplicitCallTransferConnection | Op_Supp supp_op

definition SuppOps :: "supp_op \<Rightarrow> ReqDataInfo option \<Rightarrow> ril \<Rightarrow> ril" where
  "SuppOps op =
     (case op of
        Op_GetClip \<Rightarrow> GetClip
      | Op_SetClip action \<Rightarrow> SetClip action
      | Op_GetCallWaiting \<Rightarrow> GetCallWaiting
      | Op_SetCallWaiting active \<Rightarrow> SetCallWaiting active
      | Op_SetCallTransferInfo info \<Rightarrow> SetCallTransferInfo info
      | Op_GetCallTransferInfo interrogate reason \<Rightarrow> GetCallTransferInfo interrogate reason
      | Op_GetCallRestriction fac \<Rightarrow> GetCallRestriction fac
      | Op_SetCallRestriction fac mode password \<Rightarrow> SetCallRestriction fac mode password
      | Op_GetClir \<Rightarrow> GetClir
      | Op_SetClir action \<Rightarrow> SetClir action
      | Op_SetUssd str \<Rightarrow> SetUssd str
      | Op_GetUssd \<Rightarrow> GetUssd
      | Op_SetBarringPassword fac old new \<Rightarrow> SetBarringPassword fac old new
      | Op_CloseUnFinishedUssd \<Rightarrow> CloseUnFinishedUssd
      | Op_SetSuppSrvNotification enable \<Rightarrow> SetSuppSrvNotification enable)"

definition CallOps :: "call_op \<Rightarrow> ReqDataInfo option \<Rightarrow> ril \<Rightarrow> ril" where
  "CallOps op =
     (case op of
        Op_GetCallList \<Rightarrow> GetCallList
      | Op_Dial d \<Rightarrow> Dial d
      | Op_Hangup d \<Rightarrow> Hangup d
      | Op_Reject \<Rightarrow> Reject
      | Op_Answer \<Rightarrow> Answer
      | Op_HoldCall \<Rightarrow> SwapCalls
      | Op_UnHoldCall \<Rightarrow> SwapCalls
      | Op_SwitchCall \<Rightarrow> SwapCalls
      | Op_CombineConference callType \<Rightarrow> CombineConference callType
      | Op_SeparateConference callIndex callType \<Rightarrow> SeparateConference callIndex callType
      | Op_CallSupplement type \<Rightarrow> CallSupplement type
      | Op_StartDtmf k \<Rightarrow> StartDtmf k
      | Op_SendDtmf k \<Rightarrow> SendDtmf k
      | Op_StopDtmf k \<Rightarrow> StopDtmf k
      | Op_SetMute mute \<Rightarrow> SetMute mute
      | Op_GetMute \<Rightarrow> GetMute
      | Op_GetCallFailReason \<Rightarrow> GetCallFailReason
      | Op_ExplicitCallTransferConnection \<Rightarrow> ExplicitCallTransferConnection
      | Op_Supp sop \<Rightarrow> SuppOps sop)"

text \<open>\<open>Rsp_voiceEmpty\<close> is any of the responses that only report the error code.\<close>

datatype call_msg = Rsp_getCurrentCalls RadioResponseInfo "VoiceCall list" | Rsp_getLastCallFailCause RadioResponseInfo int
  | Rsp_getMute RadioResponseInfo bool | Rsp_voiceEmpty RadioResponseInfo | Rsp_getClip RadioResponseInfo ClipStatus
  | Rsp_getClir RadioResponseInfo int int | Rsp_getCallWaiting RadioResponseInfo bool int
  | Rsp_getCallForwardStatus RadioResponseInfo "CallForwardInfo list"
  | Ind_callStateChanged int RadioIndicationType | Ind_ringback int RadioIndicationType bool
  | Ind_emergencyNumbers int RadioIndicationType "EmergencyNumber list" | Ind_callRing int RadioIndicationType
  | Ind_resendIncallMute int RadioIndicationType | Ind_onUssd int RadioIndicationType int string
  | Ind_supplementaryService int RadioIndicationType "int \<times> int \<times> int \<times> int"

definition VoiceCallbacks :: "call_msg \<Rightarrow> ril \<Rightarrow> ril" where
  "VoiceCallbacks m =
     (case m of
        Rsp_getCurrentCalls info calls \<Rightarrow> getCurrentCallsResponse info calls
      | Rsp_getLastCallFailCause info cause \<Rightarrow> getLastCallFailCauseResponse info cause
      | Rsp_getMute info enable \<Rightarrow> getMuteResponse info enable
      | Rsp_voiceEmpty info \<Rightarrow> CallReportEmpty info
      | Rsp_getClip info status \<Rightarrow> getClipResponse info status
      | Rsp_getClir info n k \<Rightarrow> getClirResponse info n k
      | Rsp_getCallWaiting info enable serviceClass \<Rightarrow> getCallWaitingResponse info enable serviceClass
      | Rsp_getCallForwardStatus info l \<Rightarrow> getCallForwardStatusResponse info l
      | Ind_callStateChanged slotId type \<Rightarrow> callStateChanged slotId type
      | Ind_ringback slotId type start \<Rightarrow> indicateRingbackTone slotId type start
      | Ind_emergencyNumbers slotId type numbers \<Rightarrow> currentEmergencyNumberList slotId type numbers
      | Ind_callRing slotId type \<Rightarrow> callRing slotId type
      | Ind_resendIncallMute slotId type \<Rightarrow> resendIncallMute slotId type
      | Ind_onUssd slotId type modeType msg \<Rightarrow> onUssd slotId type modeType msg
      | Ind_supplementaryService slotId type ss \<Rightarrow> onSupplementaryServiceIndication slotId type ss)"

section \<open>The contract\<close>

lemmas call_request_defs = GetCallList_def Dial_def Hangup_def Reject_def Answer_def SwapCalls_def CombineConference_def
  SeparateConference_def CallSupplement_def StartDtmf_def SendDtmf_def StopDtmf_def SetMute_def GetMute_def
  GetCallFailReason_def ExplicitCallTransferConnection_def

lemmas supp_request_defs = GetClip_def GetCallWaiting_def SetCallWaiting_def SetCallTransferInfo_def
  GetCallTransferInfo_def GetCallRestriction_def SetCallRestriction_def GetClir_def SetClir_def SetUssd_def GetUssd_def
  SetBarringPassword_def CloseUnFinishedUssd_def SetSuppSrvNotification_def ReportCallFailure_def

lemmas call_response_defs = getCurrentCallsResponse_def getLastCallFailCauseResponse_def getMuteResponse_def CallReportEmpty_def
  getClipResponse_def getClirResponse_def getCallWaitingResponse_def getCallForwardStatusResponse_def
  callStateChanged_def indicateRingbackTone_def currentEmergencyNumberList_def callRing_def resendIncallMute_def
  onUssd_def onSupplementaryServiceIndication_def

lemma set_clip_settles: "settles 2 [r] s (SetClip action (Some r) s)"
proof -
  let ?s1 = "s\<lparr>g_clipPresentation := (g_clipPresentation s)[nat (SlotOf (Some r)) := action]\<rparr>"
  have "quiet s ?s1" by (rule quiet_frame) simp_all
  then have "settles 2 [r] s (report DCall (Some r) HRIL_ERR_SUCCESS NoData ?s1)"
    by (rule settle_before) (rule settle_steps)
  then show ?thesis by (simp add: SetClip_def report_defs)
qed

lemma supp_ops_settle: "settles 2 [r] s (SuppOps op (Some r) s)"
  by (cases op) (simp_all add: SuppOps_def supp_request_defs report_defs require_defs settle_steps settle_require
      set_clip_settles split: option.split)

interpretation call: radio_domain CallOps VoiceCallbacks
proof
  show "settles 2 [r] s (CallOps op (Some r) s)" for r s op
    by (cases op) (simp_all add: CallOps_def supp_ops_settle call_request_defs report_defs require_defs settle_steps
        settle_require split: option.split)
  show "settles 2 [] s (VoiceCallbacks m s)" for s m
    by (cases m) (simp_all add: VoiceCallbacks_def call_response_defs CallAckIndication_def report_defs notify_defs
        settle_steps quiet_settles ack_quiet quiet_after Let_def split: prod.split)
qed

section \<open>The call list and the emergency numbers\<close>

text \<open>
  The emergency numbers are forwarded completely: a non-empty list of the modem becomes one
  notification with every number in its place, numbered from 0 with the right total, marked as
  needing a card exactly if the network or the SIM is its source; an empty list is not forwarded.
\<close>

lemma emergency_numbers_forwarded:
  assumes "rb_reportOps s" "s' = currentEmergencyNumberList slotId UNSOLICITED numbers s"
  shows "(numbers = [] \<longrightarrow> s' = s) \<and>
    (numbers \<noteq> [] \<longrightarrow> (\<exists>l. map rp_payload (rb_reports s') = map rp_payload (rb_reports s) @ [CallData (EmergencyList l)] \<and>
       map em_eccNum l = map en_number numbers \<and> map em_mcc l = map en_mcc numbers \<and>
       map em_index l = map int [0..<length numbers] \<and> list_all (\<lambda>x. em_total x = int (length l)) l \<and>
       map em_simpresent l = map (\<lambda>x. if bit (en_sources x) 0 \<or> bit (en_sources x) 1 then 1 else 0) numbers))"
proof -
  let ?l = "map (to_emergency numbers) [0..<length numbers]"
  have m: "SOURCE_NETWORK_SIGNALING OR SOURCE_SIM = mask 2"
    by (simp add: SOURCE_NETWORK_SIGNALING_def SOURCE_SIM_def mask_eq_exp_minus_1)
  have "w AND (SOURCE_NETWORK_SIGNALING OR SOURCE_SIM) \<noteq> 0 \<longleftrightarrow> bit w 0 \<or> bit w 1" for w :: u32
    unfolding m using bit_eq_iff [of "w AND mask 2" 0] by (force simp: bit_simps less_2_cases_iff)
  then have "map em_simpresent ?l = map (\<lambda>x. if bit (en_sources x) 0 \<or> bit (en_sources x) 1 then 1 else 0) numbers"
    by (intro nth_equalityI) (simp_all add: to_emergency_def)
  moreover have "map em_eccNum ?l = map en_number numbers" "map em_mcc ?l = map en_mcc numbers"
      "map em_index ?l = map int [0..<length numbers]"
    by (auto intro: nth_equalityI simp: to_emergency_def)
  moreover have "list_all (\<lambda>x. em_total x = int (length ?l)) ?l" by (simp add: list_all_iff to_emergency_def)
  moreover have "numbers \<noteq> [] \<Longrightarrow> map rp_payload (rb_reports s') = map rp_payload (rb_reports s) @ [CallData (EmergencyList ?l)]"
    using assms(1)
    by (simp add: assms(2) currentEmergencyNumberList_def CallAckIndication_def ack_indication_def notify_defs notify_def)
  moreover have "numbers = [] \<Longrightarrow> s' = s"
    by (simp add: assms(2) currentEmergencyNumberList_def CallAckIndication_def ack_indication_def)
  ultimately show ?thesis by blast
qed

end
