(* ===== verification/Ril_Data.thy ===== *)
theory Ril_Data
  imports Ril_Network Ril_Sms
begin

text \<open>
  The data domain: \<open>hardware/ril/src/hybris_ril_data.cpp\<close>. The bits of \<open>ApnTypes\<close> are constants of the
  AIDL interface, so they are a parameter.
\<close>

section \<open>Conversions\<close>

text \<open>\<open>if (!out.empty()) out.push_back(' '); out.append(part);\<close> over a list.\<close>

fun join_from :: "string \<Rightarrow> string list \<Rightarrow> string" where
  "join_from out [] = out"
| "join_from out (p # ps) = join_from ((if out \<noteq> [] then out @ '' '' else out) @ p) ps"

definition Join :: "string list \<Rightarrow> nat \<Rightarrow> string" where
  "Join parts from_idx = join_from [] (drop from_idx parts)"

definition JoinAddresses :: "string list \<Rightarrow> string" where
  "JoinAddresses addresses = join_from [] addresses"

definition ToProtocol :: "string option \<Rightarrow> PdpProtocolType" where
  "ToProtocol type =
     (case type of
        None \<Rightarrow> Pdp_IPV4V6
      | Some val \<Rightarrow>
          if val = [] then Pdp_IPV4V6
          else if val = ''IP'' \<or> val = ''IPV4'' then Pdp_IP
          else if val = ''IPV6'' then Pdp_IPV6
          else if val = ''PPP'' then Pdp_PPP
          else if val = ''NON-IP'' \<or> val = ''NONIP'' then Pdp_NON_IP
          else if val = ''UNSTRUCTURED'' then Pdp_UNSTRUCTURED
          else Pdp_IPV4V6)"

definition FromProtocol :: "PdpProtocolType \<Rightarrow> string" where
  "FromProtocol protocol =
     (case protocol of
        Pdp_IP \<Rightarrow> ''IP''
      | Pdp_IPV6 \<Rightarrow> ''IPV6''
      | Pdp_IPV4V6 \<Rightarrow> ''IPV4V6''
      | Pdp_PPP \<Rightarrow> ''PPP''
      | Pdp_NON_IP \<Rightarrow> ''NON-IP''
      | Pdp_UNSTRUCTURED \<Rightarrow> ''UNSTRUCTURED''
      | Pdp_UNKNOWN \<Rightarrow> '''')"

definition RatToAccessNetwork :: "HRilRadioTech \<Rightarrow> AccessNetwork" where
  "RatToAccessNetwork rat =
     (if rat \<in> {RADIO_TECHNOLOGY_GSM, RADIO_TECHNOLOGY_GPRS, RADIO_TECHNOLOGY_EDGE} then AN_GERAN
      else if rat \<in> {RADIO_TECHNOLOGY_WCDMA, RADIO_TECHNOLOGY_HSPA, RADIO_TECHNOLOGY_HSPAP, RADIO_TECHNOLOGY_HSDPA,
          RADIO_TECHNOLOGY_HSUPA, RADIO_TECHNOLOGY_UMTS, RADIO_TECHNOLOGY_TD_SCDMA, RADIO_TECHNOLOGY_DCHSPAP} then AN_UTRAN
      else if rat \<in> {RADIO_TECHNOLOGY_LTE, RADIO_TECHNOLOGY_LTE_CA} then AN_EUTRAN
      else if rat \<in> {RADIO_TECHNOLOGY_1XRTT, RADIO_TECHNOLOGY_EVDO, RADIO_TECHNOLOGY_EHRPD, RADIO_TECHNOLOGY_IS95A,
          RADIO_TECHNOLOGY_IS95B, RADIO_TECHNOLOGY_EVDO_0, RADIO_TECHNOLOGY_EVDO_A, RADIO_TECHNOLOGY_EVDO_B} then AN_CDMA2000
      else if rat = RADIO_TECHNOLOGY_IWLAN then AN_IWLAN
      else if rat = RADIO_TECHNOLOGY_NR then AN_NGRAN
      else AN_UNKNOWN)"

definition AccessNetworkFor :: "int \<Rightarrow> HRilRadioTech \<Rightarrow> ril \<Rightarrow> AccessNetwork" where
  "AccessNetworkFor slotId rat s =
     (let network = RatToAccessNetwork rat
      in if network \<noteq> AN_UNKNOWN then network else LastDataAccessNetwork slotId s)"

record ApnTypes =
  apn_DEFAULT :: u32
  apn_DUN :: u32
  apn_FOTA :: u32
  apn_IMS :: u32
  apn_CBS :: u32
  apn_IA :: u32

definition OHOS_APN_TYPES_SHARED_MASK :: u32 where "OHOS_APN_TYPES_SHARED_MASK = 0x0FFF"
definition OHOS_APN_TYPE_INTERNAL_DEFAULT :: u32 where "OHOS_APN_TYPE_INTERNAL_DEFAULT = push_bit 12 1"

definition ToApnTypesBitmap :: "ApnTypes \<Rightarrow> u32 \<Rightarrow> u32" where
  "ToApnTypesBitmap apn ohosBitmap =
     (let bitmap = ohosBitmap AND OHOS_APN_TYPES_SHARED_MASK;
          bitmap = (if ohosBitmap AND OHOS_APN_TYPE_INTERNAL_DEFAULT \<noteq> 0 then bitmap OR apn_DEFAULT apn else bitmap)
      in if bitmap = 0 then apn_DEFAULT apn else bitmap)"

definition ProfileIdFor :: "ApnTypes \<Rightarrow> u32 \<Rightarrow> ProfileId" where
  "ProfileIdFor apn bitmap =
     (if bitmap AND apn_IMS apn \<noteq> 0 then ID_IMS
      else if bitmap AND apn_DUN apn \<noteq> 0 then ID_TETHERED
      else if bitmap AND apn_FOTA apn \<noteq> 0 then ID_FOTA
      else if bitmap AND apn_CBS apn \<noteq> 0 then ID_CBS
      else ID_DEFAULT)"

definition OHOS_DISCONNECT_HANDOVER :: int where "OHOS_DISCONNECT_HANDOVER = 6"

definition ToRequestReason :: "int \<Rightarrow> DataRequestReason" where
  "ToRequestReason reason = (if reason = OHOS_DISCONNECT_HANDOVER then Reason_HANDOVER else Reason_NORMAL)"

record HRilDataInfo =
  di_cid :: int
  di_reason :: int
  di_rat :: HRilRadioTech
  di_roamingEnable :: int
  di_verType :: int
  di_userName :: "string option"
  di_password :: "string option"
  di_apn :: "string option"
  di_type :: "string option"
  di_roamingType :: "string option"

definition BuildProfile :: "ApnTypes \<Rightarrow> HRilDataInfo \<Rightarrow> u32 \<Rightarrow> DataProfileInfo" where
  "BuildProfile apn d apnTypesBitmap =
     \<lparr>pf_apn = c_str_or_empty (di_apn d), pf_protocol = ToProtocol (di_type d),
      pf_roamingProtocol = ToProtocol (di_roamingType d), pf_authType = di_verType d,
      pf_user = c_str_or_empty (di_userName d), pf_password = c_str_or_empty (di_password d),
      pf_supportedApnTypesBitmap = apnTypesBitmap, pf_profileId = ProfileIdFor apn apnTypesBitmap,
      pf_type = TYPE_3GPP, pf_bearerBitmap = 0, pf_enabled = True, pf_persistent = True, pf_preferred = False,
      pf_alwaysOn = False\<rparr>"

definition NO_RETRY_SUGGESTION :: int where "NO_RETRY_SUGGESTION = -1"

definition ToRetryTime :: "int \<Rightarrow> int" where
  "ToRetryTime suggested = (if suggested < 0 \<or> suggested > INT32_MAX then NO_RETRY_SUGGESTION else suggested)"

text \<open>\<open>ToRecord\<close> and \<open>ToResponse\<close>: the record only keeps the strings alive.\<close>

definition ToDataResponse :: "SetupDataCallResult \<Rightarrow> HRilDataCallResponse" where
  "ToDataResponse r =
     \<lparr>dc_reason = sd_cause r, dc_retryTime = ToRetryTime (sd_suggestedRetryTime r), dc_cid = sd_cid r,
      dc_active = sd_active r, dc_type = FromProtocol (sd_type r), dc_netPortName = sd_ifname r,
      dc_address = JoinAddresses (sd_addresses r),
      dc_dns = (case sd_dnses r of [] \<Rightarrow> [] | d # _ \<Rightarrow> d), dc_dnsSec = Join (sd_dnses r) 1,
      dc_gateway = Join (sd_gateways r) 0,
      dc_maxTransferUnit = (if sd_mtuV4 r \<noteq> 0 then sd_mtuV4 r else sd_mtuV6 r),
      dc_pCscfPrimAddr = (case sd_pcscf r of [] \<Rightarrow> [] | p # _ \<Rightarrow> p), dc_pCscfSecAddr = Join (sd_pcscf r) 1,
      dc_pduSessionId = sd_pduSessionId r\<rparr>"

section \<open>Responses\<close>

definition DataReportEmpty :: "RadioResponseInfo \<Rightarrow> ril \<Rightarrow> ril" where
  "DataReportEmpty info s = respond ReportData info (\<lambda>_. NoData) s"

definition setupDataCallResponse :: "RadioResponseInfo \<Rightarrow> SetupDataCallResult \<Rightarrow> ril \<Rightarrow> ril" where
  "setupDataCallResponse info r s = respond ReportData info (\<lambda>_. PdpData (ToDataResponse r)) s"

definition getDataCallListResponse :: "RadioResponseInfo \<Rightarrow> SetupDataCallResult list \<Rightarrow> ril \<Rightarrow> ril" where
  "getDataCallListResponse info l s =
     respond ReportData info (\<lambda>_. if l = [] then NoData else PdpList (map ToDataResponse l)) s"

section \<open>Indications\<close>

definition DataAckIndication :: "int \<Rightarrow> RadioIndicationType \<Rightarrow> ril \<Rightarrow> ril" where
  "DataAckIndication = ack_indication Data"

text \<open>An empty list is a valid pointer of length 0, not a null pointer.\<close>

definition dataCallListChanged :: "int \<Rightarrow> RadioIndicationType \<Rightarrow> SetupDataCallResult list \<Rightarrow> ril \<Rightarrow> ril" where
  "dataCallListChanged slotId type l s =
     DataAckIndication slotId type
       (NotifyData slotId HNOTI_DATA_PDP_CONTEXT_LIST_UPDATED (PdpList (map ToDataResponse l)) s)"

definition unthrottleApn :: "int \<Rightarrow> RadioIndicationType \<Rightarrow> ril \<Rightarrow> ril" where
  "unthrottleApn slotId type s = DataAckIndication slotId type s"

section \<open>The profile table\<close>

definition SameProfile :: "DataProfileInfo \<Rightarrow> DataProfileInfo \<Rightarrow> bool" where
  "SameProfile a b \<longleftrightarrow> pf_apn a = pf_apn b \<and> pf_protocol a = pf_protocol b \<and>
     pf_supportedApnTypesBitmap a = pf_supportedApnTypesBitmap b \<and> pf_authType a = pf_authType b \<and>
     pf_user a = pf_user b \<and> pf_password a = pf_password b"

definition RegisterProfile :: "int \<Rightarrow> DataProfileInfo \<Rightarrow> nat \<Rightarrow> ril \<Rightarrow> ril" where
  "RegisterProfile slotId profile service s =
     (if slotId < 0 \<or> slotId \<ge> MAX_SLOTS then s
      else let known = g_profiles s ! nat slotId
           in if list_ex (\<lambda>existing. SameProfile existing profile) known then s
              else let profiles = known @ [profile]
                   in case NextSerial (s\<lparr>g_profiles := (g_profiles s)[nat slotId := profiles]\<rparr>) of (serial, s) \<Rightarrow>
                        aidl service (Some serial) (IRadioData (A_setDataProfile profiles)) s)"

definition AdoptProfiles :: "int \<Rightarrow> DataProfileInfo list \<Rightarrow> ril \<Rightarrow> ril" where
  "AdoptProfiles slotId profiles s =
     (if slotId < 0 \<or> slotId \<ge> MAX_SLOTS then s else s\<lparr>g_profiles := (g_profiles s)[nat slotId := profiles]\<rparr>)"

section \<open>Requests\<close>

definition ActivateInternal :: "ApnTypes \<Rightarrow> HRilDataInfo option \<Rightarrow> u32 \<Rightarrow> ReqDataInfo option \<Rightarrow> ril \<Rightarrow> ril" where
  "ActivateInternal apn data_p ohosApnTypesBitmap requestInfo s =
     (case RequireData requestInfo s of
        (None, s) \<Rightarrow> s
      | (Some service, s) \<Rightarrow>
          (case data_p of
             None \<Rightarrow> ReportData requestInfo HRIL_ERR_INVALID_PARAMETER NoData s
           | Some d \<Rightarrow>
               let apnTypesBitmap = ToApnTypesBitmap apn ohosApnTypesBitmap;
                   profile = BuildProfile apn d apnTypesBitmap;
                   network = AccessNetworkFor (request_slot requestInfo) (di_rat d) s
               in tracked_call service
                    (IRadioData (A_setupDataCall network profile (di_roamingEnable d \<noteq> 0) Reason_NORMAL)) requestInfo
                    (RegisterProfile (request_slot requestInfo) profile service s)))"

definition ActivatePdpContext :: "ApnTypes \<Rightarrow> HRilDataInfo option \<Rightarrow> ReqDataInfo option \<Rightarrow> ril \<Rightarrow> ril" where
  "ActivatePdpContext apn data_p requestInfo s = ActivateInternal apn data_p 0 requestInfo s"

text \<open>\<open>HRilDataInfoWithApnTypes\<close> is the same fields and the bitmap.\<close>

definition ActivatePdpContextWithApnTypes ::
  "ApnTypes \<Rightarrow> (HRilDataInfo \<times> u32) option \<Rightarrow> ReqDataInfo option \<Rightarrow> ril \<Rightarrow> ril" where
  "ActivatePdpContextWithApnTypes apn data_p requestInfo s =
     (case data_p of
        None \<Rightarrow> ReportData requestInfo HRIL_ERR_INVALID_PARAMETER NoData s
      | Some (base, supportedApnTypesBitmap) \<Rightarrow> ActivateInternal apn (Some base) supportedApnTypesBitmap requestInfo s)"

definition DeactivatePdpContext :: "HRilDataInfo option \<Rightarrow> ReqDataInfo option \<Rightarrow> ril \<Rightarrow> ril" where
  "DeactivatePdpContext data_p requestInfo s =
     (case RequireData requestInfo s of
        (None, s) \<Rightarrow> s
      | (Some service, s) \<Rightarrow>
          (case data_p of
             None \<Rightarrow> ReportData requestInfo HRIL_ERR_INVALID_PARAMETER NoData s
           | Some d \<Rightarrow>
               tracked_call service (IRadioData (A_deactivateDataCall (di_cid d) (ToRequestReason (di_reason d)))) requestInfo s))"

definition GetPdpContextList :: "ReqDataInfo option \<Rightarrow> ril \<Rightarrow> ril" where
  "GetPdpContextList requestInfo s =
     (case RequireData requestInfo s of
        (None, s) \<Rightarrow> s
      | (Some service, s) \<Rightarrow> tracked_call service (IRadioData A_getDataCallList) requestInfo s)"

definition SetInitApnInfo :: "ApnTypes \<Rightarrow> HRilDataInfo option \<Rightarrow> ReqDataInfo option \<Rightarrow> ril \<Rightarrow> ril" where
  "SetInitApnInfo apn data_p requestInfo s =
     (case RequireData requestInfo s of
        (None, s) \<Rightarrow> s
      | (Some service, s) \<Rightarrow>
          (case data_p of
             None \<Rightarrow> ReportData requestInfo HRIL_ERR_INVALID_PARAMETER NoData s
           | Some d \<Rightarrow>
               let profile = (BuildProfile apn d (apn_IA apn OR apn_DEFAULT apn))\<lparr>pf_profileId := ID_DEFAULT\<rparr>
               in tracked_call service (IRadioData (A_setInitialAttachApn profile)) requestInfo
                    (RegisterProfile (request_slot requestInfo) profile service s)))"

text \<open>\<open>data\<close> is an array of \<open>len\<close> profiles.\<close>

definition SetDataProfileInfo :: "ApnTypes \<Rightarrow> HRilDataInfo list option \<Rightarrow> ReqDataInfo option \<Rightarrow> ril \<Rightarrow> ril" where
  "SetDataProfileInfo apn data_p requestInfo s =
     (case RequireData requestInfo s of
        (None, s) \<Rightarrow> s
      | (Some service, s) \<Rightarrow>
          (case data_p of
             None \<Rightarrow> ReportData requestInfo HRIL_ERR_INVALID_PARAMETER NoData s
           | Some ds \<Rightarrow>
               if ds = [] then ReportData requestInfo HRIL_ERR_INVALID_PARAMETER NoData s
               else let profiles = map (\<lambda>d. BuildProfile apn d (apn_DEFAULT apn)) ds
                    in tracked_call service (IRadioData (A_setDataProfile profiles)) requestInfo
                         (AdoptProfiles (request_slot requestInfo) profiles s)))"

definition SetDataPermitted :: "int \<Rightarrow> ReqDataInfo option \<Rightarrow> ril \<Rightarrow> ril" where
  "SetDataPermitted enabled requestInfo s =
     (case RequireData requestInfo s of
        (None, s) \<Rightarrow> s
      | (Some service, s) \<Rightarrow> tracked_call service (IRadioData (A_setDataAllowed (enabled \<noteq> 0))) requestInfo s)"

section \<open>The tables\<close>

datatype data_op = Op_SetInitApnInfo "HRilDataInfo option" | Op_ActivatePdpContext "HRilDataInfo option"
  | Op_DeactivatePdpContext "HRilDataInfo option" | Op_GetPdpContextList | Op_SetDataProfileInfo "HRilDataInfo list option"
  | Op_SetDataPermitted int | Op_ActivatePdpContextWithApnTypes "(HRilDataInfo \<times> u32) option"

definition DataOps :: "ApnTypes \<Rightarrow> data_op \<Rightarrow> ReqDataInfo option \<Rightarrow> ril \<Rightarrow> ril" where
  "DataOps apn op =
     (case op of
        Op_SetInitApnInfo d \<Rightarrow> SetInitApnInfo apn d
      | Op_ActivatePdpContext d \<Rightarrow> ActivatePdpContext apn d
      | Op_DeactivatePdpContext d \<Rightarrow> DeactivatePdpContext d
      | Op_GetPdpContextList \<Rightarrow> GetPdpContextList
      | Op_SetDataProfileInfo ds \<Rightarrow> SetDataProfileInfo apn ds
      | Op_SetDataPermitted enabled \<Rightarrow> SetDataPermitted enabled
      | Op_ActivatePdpContextWithApnTypes d \<Rightarrow> ActivatePdpContextWithApnTypes apn d)"

text \<open>\<open>Rsp_dataEmpty\<close> is any of the responses that only report the error code.\<close>

datatype data_msg = Rsp_setupDataCall RadioResponseInfo SetupDataCallResult
  | Rsp_getDataCallList RadioResponseInfo "SetupDataCallResult list" | Rsp_dataEmpty RadioResponseInfo
  | Ind_dataCallListChanged int RadioIndicationType "SetupDataCallResult list" | Ind_unthrottleApn int RadioIndicationType

definition DataCallbacks :: "data_msg \<Rightarrow> ril \<Rightarrow> ril" where
  "DataCallbacks m =
     (case m of
        Rsp_setupDataCall info r \<Rightarrow> setupDataCallResponse info r
      | Rsp_getDataCallList info l \<Rightarrow> getDataCallListResponse info l
      | Rsp_dataEmpty info \<Rightarrow> DataReportEmpty info
      | Ind_dataCallListChanged slotId type l \<Rightarrow> dataCallListChanged slotId type l
      | Ind_unthrottleApn slotId type \<Rightarrow> unthrottleApn slotId type)"

section \<open>The contract\<close>

lemma register_settles: "settles 1 [] s (RegisterProfile slotId profile service s)"
proof (cases "slotId < 0 \<or> slotId \<ge> MAX_SLOTS \<or> list_ex (\<lambda>x. SameProfile x profile) (g_profiles s ! nat slotId)")
  case True
  then show ?thesis by (auto simp: RegisterProfile_def Let_def)
next
  case False
  let ?ps = "g_profiles s ! nat slotId @ [profile]"
  let ?s1 = "s\<lparr>g_profiles := (g_profiles s)[nat slotId := ?ps]\<rparr>"
  obtain serial s2 where n: "NextSerial ?s1 = (serial, s2)" by (cases "NextSerial ?s1")
  have "quiet s ?s1" by (rule quiet_frame) simp_all
  moreover have "settles 1 [] ?s1 s2" using next_serial_settles [of ?s1] by (simp add: n)
  ultimately have "settles 1 [] s s2" by (rule settle_before)
  then have "settles 1 [] s (aidl service (Some serial) (IRadioData (A_setDataProfile ?ps)) s2)" by (rule settle_after) simp
  with False n show ?thesis by (simp add: RegisterProfile_def Let_def)
qed

lemma register_then_call:
  "settles 2 [r] s (tracked_call h m (Some r) (RegisterProfile slotId profile service s))"
proof -
  let ?s1 = "RegisterProfile slotId profile service s"
  have "settles (1 + 1) ([] @ [r]) s (tracked_call h m (Some r) ?s1)"
    by (rule settles_trans [OF register_settles tracked_call_settles])
  then show ?thesis by (simp only: one_add_one append_Nil)
qed

lemma adopt_quiet: "quiet s (AdoptProfiles slotId profiles s)"
  by (rule quiet_frame) (simp_all add: AdoptProfiles_def)

lemma adopt_then_call: "settles 2 [r] s (tracked_call h m (Some r) (AdoptProfiles slotId profiles s))"
  by (rule settle_before [OF adopt_quiet settle_steps(5)])

lemmas data_request_defs = SetInitApnInfo_def ActivatePdpContext_def DeactivatePdpContext_def GetPdpContextList_def
  SetDataProfileInfo_def SetDataPermitted_def ActivatePdpContextWithApnTypes_def ActivateInternal_def

lemmas data_response_defs = setupDataCallResponse_def getDataCallListResponse_def DataReportEmpty_def
  dataCallListChanged_def unthrottleApn_def

interpretation data_dom: radio_domain "DataOps apn" DataCallbacks for apn
proof
  show "settles 2 [r] s (DataOps apn op (Some r) s)" for r s op
    by (cases op) (simp_all add: DataOps_def data_request_defs report_defs require_defs settle_steps settle_require
        register_then_call adopt_then_call Let_def split: option.split prod.split)
  show "settles 2 [] s (DataCallbacks m s)" for s m
    by (cases m) (simp_all add: DataCallbacks_def data_response_defs DataAckIndication_def report_defs notify_defs
        settle_steps quiet_settles ack_quiet quiet_after)
qed

section \<open>What the modem is told\<close>

text \<open>The profile table of the modem behind a service object: the last list it was sent.\<close>

definition table_step :: "nat \<Rightarrow> DataProfileInfo list \<Rightarrow> aidl_call \<Rightarrow> DataProfileInfo list" where
  "table_step h t c =
     (if ac_handle c = h then (case ac_method c of IRadioData (A_setDataProfile ps) \<Rightarrow> ps | _ \<Rightarrow> t) else t)"

definition modem_table :: "nat \<Rightarrow> aidl_call list \<Rightarrow> DataProfileInfo list" where
  "modem_table h log = foldl (table_step h) [] log"

text \<open>A context may be set up or attached only for a profile the modem knows at that moment.\<close>

definition known_call :: "aidl_call list \<Rightarrow> aidl_call \<Rightarrow> bool" where
  "known_call log c \<longleftrightarrow>
     (case ac_method c of
        IRadioData (A_setupDataCall network profile roaming reason) \<Rightarrow>
          list_ex (\<lambda>x. SameProfile x profile) (modem_table (ac_handle c) log)
      | IRadioData (A_setInitialAttachApn profile) \<Rightarrow>
          list_ex (\<lambda>x. SameProfile x profile) (modem_table (ac_handle c) log)
      | _ \<Rightarrow> True)"

definition all_known :: "aidl_call list \<Rightarrow> bool" where
  "all_known log \<longleftrightarrow> (\<forall>i < length log. known_call (take i log) (log ! i))"

lemma all_known_snoc: "all_known (log @ [c]) \<longleftrightarrow> all_known log \<and> known_call log c"
  by (auto simp: all_known_def less_Suc_eq nth_append)

lemma modem_table_snoc: "modem_table h (log @ [c]) = table_step h (modem_table h log) c"
  by (simp add: modem_table_def)

text \<open>What the bridge remembers for a slot is what the modem was last sent.\<close>

definition data_inv :: "nat list \<Rightarrow> ril \<Rightarrow> bool" where
  "data_inv hs s \<longleftrightarrow> distinct hs \<and> length hs = 2 \<and> rb_data s = map Some hs \<and> length (g_profiles s) = 2 \<and>
     (\<forall>i < 2. modem_table (hs ! i) (rb_aidl s) = g_profiles s ! i) \<and> all_known (rb_aidl s)"

definition data_same :: "ril \<Rightarrow> ril \<Rightarrow> bool" where
  "data_same s s' \<longleftrightarrow> rb_data s' = rb_data s \<and> g_profiles s' = g_profiles s \<and> rb_aidl s' = rb_aidl s"

lemma data_same_inv: "data_same s s' \<Longrightarrow> data_inv hs s' = data_inv hs s"
  by (simp add: data_same_def data_inv_def)

lemma data_same_steps:
  "data_same s s" "data_same s (report part r err d s)" "data_same s (notify part slot n d s)"
  "data_same s (snd (Track r s))" "data_same s (snd (TakePending serial s))" "data_same s (snd (NextSerial s))"
  by (auto simp: data_same_def report_def notify_def Track_def TakePending_def NextSerial_def Let_def split: option.split)

definition plain_method :: "aidl_method \<Rightarrow> bool" where
  "plain_method m \<longleftrightarrow> (case m of IRadioData (A_setDataProfile _) \<Rightarrow> False | IRadioData (A_setupDataCall _ _ _ _) \<Rightarrow> False
     | IRadioData (A_setInitialAttachApn _) \<Rightarrow> False | _ \<Rightarrow> True)"

lemma plain_aidl: "plain_method m \<Longrightarrow> data_inv hs s \<Longrightarrow> data_inv hs (aidl h serial m s)"
  by (cases m) (auto simp: plain_method_def data_inv_def aidl_def modem_table_snoc table_step_def all_known_snoc
      known_call_def split: data_method.splits)

lemma tracked_aidl:
  assumes "\<And>t serial. data_inv hs t \<Longrightarrow> g_profiles t = g_profiles s \<Longrightarrow> data_inv hs (aidl h serial m t)" "data_inv hs s"
  shows "data_inv hs (tracked_call h m r s)"
proof -
  obtain serial s1 where t: "Track r s = (serial, s1)" by (cases "Track r s")
  have same: "data_same s s1" using data_same_steps(4) [of s r] by (simp add: t)
  from data_same_inv [OF same] assms(2) have "data_inv hs s1" by simp
  with assms(1) [of s1] same show ?thesis by (simp add: tracked_call_def t data_same_def)
qed

lemma respond_data: "data_inv hs s \<Longrightarrow> data_inv hs (respond (report part) info d s)"
proof -
  obtain x s1 where t: "TakePending (in_serial info) s = (x, s1)" by (cases "TakePending (in_serial info) s")
  from data_same_steps(5) [of s "in_serial info"] have "data_same s s1" by (simp add: t)
  from data_same_inv [OF this] show "data_inv hs s \<Longrightarrow> ?thesis"
    by (cases x) (simp_all add: respond_def t data_same_inv [OF data_same_steps(2)])
qed

lemma push_profiles:
  assumes "data_inv hs s" "i < 2"
  shows "data_inv hs (aidl (hs ! i) serial (IRadioData (A_setDataProfile ps)) (s\<lparr>g_profiles := (g_profiles s)[i := ps]\<rparr>))"
proof -
  have "hs ! i = hs ! j \<longleftrightarrow> i = j" if "j < 2" for j
    using assms that by (simp add: data_inv_def nth_eq_iff_index_eq)
  with assms show ?thesis
    by (simp add: data_inv_def aidl_def modem_table_snoc table_step_def all_known_snoc known_call_def nth_list_update)
qed

lemma register_profile:
  assumes "data_inv hs s" "i < 2"
    and s'_def: "s' = RegisterProfile (int i) profile (hs ! i) s"
  shows "data_inv hs s' \<and> list_ex (\<lambda>x. SameProfile x profile) (g_profiles s' ! i)"
proof (cases "list_ex (\<lambda>x. SameProfile x profile) (g_profiles s ! i)")
  case True
  with assms show ?thesis by (simp add: s'_def RegisterProfile_def Let_def MAX_SLOTS_def)
next
  case False
  let ?ps = "g_profiles s ! i @ [profile]"
  let ?n = "rb_nextSerial s"
  have "s' = (aidl (hs ! i) (Some ?n) (IRadioData (A_setDataProfile ?ps)) (s\<lparr>g_profiles := (g_profiles s)[i := ?ps]\<rparr>))
      \<lparr>rb_nextSerial := bump_serial ?n\<rparr>"
    using False assms(2) by (simp add: s'_def RegisterProfile_def Let_def MAX_SLOTS_def NextSerial_def aidl_def)
  moreover have "data_inv hs (t\<lparr>rb_nextSerial := n\<rparr>) = data_inv hs t" for t n by (simp add: data_inv_def)
  moreover have "length (g_profiles s) = 2" using assms(1) by (simp add: data_inv_def)
  ultimately show ?thesis
    using push_profiles [OF assms(1,2), of "Some ?n" ?ps] assms(2) by (simp add: aidl_def SameProfile_def)
qed

lemma require_data:
  assumes "data_inv hs s"
  obtains (refused) s' where "RequireData r s = (None, s')" "data_inv hs s'"
  | (granted) q i where "r = Some q" "i < 2" "rq_slotId q = int i" "RequireData r s = (Some (hs ! i), s)"
proof (cases r)
  case None
  then show ?thesis using assms by (intro refused [of s]) (simp_all add: require_defs require_def)
next
  case (Some q)
  show ?thesis
  proof (cases "0 \<le> rq_slotId q \<and> rq_slotId q < MAX_SLOTS")
    case True
    let ?i = "nat (rq_slotId q)"
    from True have "?i < 2" by (auto simp: MAX_SLOTS_def)
    with True Some assms show ?thesis
      by (intro granted [of q ?i]) (auto simp: require_defs require_def service_defs slot_of_def data_inv_def)
  next
    case False
    with Some assms show ?thesis
      by (intro refused [of "report DData r HRIL_ERR_GENERIC_FAILURE NoData s"])
        (auto simp: require_defs require_def service_defs slot_of_def report_defs data_same_inv [OF data_same_steps(2)])
  qed
qed

lemma known_aidl:
  assumes "data_inv hs t" "i < 2" "list_ex (\<lambda>x. SameProfile x profile) (g_profiles t ! i)"
    "m = A_setupDataCall network profile roaming reason \<or> m = A_setInitialAttachApn profile"
  shows "data_inv hs (aidl (hs ! i) serial (IRadioData m) t)"
  using assms by (auto simp: data_inv_def aidl_def modem_table_snoc table_step_def all_known_snoc known_call_def)

lemma register_and_call:
  assumes "data_inv hs s" "i < 2"
    "m = A_setupDataCall network profile roaming reason \<or> m = A_setInitialAttachApn profile"
  shows "data_inv hs (tracked_call (hs ! i) (IRadioData m) r (RegisterProfile (int i) profile (hs ! i) s))"
  using register_profile [OF assms(1,2) refl, of profile]
  by (intro tracked_aidl) (auto intro: known_aidl [OF _ assms(2) _ assms(3)])

lemma adopt_and_call:
  assumes "data_inv hs s" "i < 2"
  shows "data_inv hs (tracked_call (hs ! i) (IRadioData (A_setDataProfile ps)) r (AdoptProfiles (int i) ps s))"
proof -
  let ?t = "s\<lparr>g_profiles := (g_profiles s)[i := ps]\<rparr>"
  let ?c = "tracked_call (hs ! i) (IRadioData (A_setDataProfile ps)) r ?t"
  have "data_same (aidl (hs ! i) (Some (rb_nextSerial s)) (IRadioData (A_setDataProfile ps)) ?t) ?c"
    by (simp add: data_same_def tracked_call_def Track_def Let_def aidl_def)
  from data_same_inv [OF this] push_profiles [OF assms] have "data_inv hs ?c" by simp
  with assms(2) show ?thesis by (simp add: AdoptProfiles_def MAX_SLOTS_def)
qed

lemma plain_call: "plain_method m \<Longrightarrow> data_inv hs s \<Longrightarrow> data_inv hs (tracked_call h m r s)"
  by (intro tracked_aidl plain_aidl)

lemma data_ops_inv: "data_inv hs s \<Longrightarrow> data_inv hs (DataOps apn op r s)"
proof -
  assume inv: "data_inv hs s"
  note rules = data_same_inv [OF data_same_steps(2)] register_and_call adopt_and_call plain_call
  from inv show ?thesis
  proof (cases rule: require_data [where r = r])
    case (refused s')
    then show ?thesis
      by (cases op) (simp_all add: DataOps_def data_request_defs report_defs rules inv split: option.split prod.split)
  next
    case (granted q i)
    then have "request_slot r = int i" by (simp add: request_slot_def)
    with granted inv show ?thesis
      by (cases op) (auto simp: DataOps_def data_request_defs report_defs rules plain_method_def Let_def
          split: option.split prod.split)
  qed
qed

lemma data_callbacks_inv: "data_inv hs s \<Longrightarrow> data_inv hs (DataCallbacks m s)"
proof -
  have ack: "data_inv hs t \<Longrightarrow> data_inv hs (ack_indication Data slotId type t)" for t slotId type
    by (auto simp: ack_indication_def plain_method_def intro!: plain_aidl split: option.split)
  show "data_inv hs s \<Longrightarrow> ?thesis"
    by (cases m) (simp_all add: DataCallbacks_def data_response_defs report_defs notify_defs respond_data
        DataAckIndication_def ack data_same_inv [OF data_same_steps(3)])
qed

lemma data_run_inv: "data_inv hs s \<Longrightarrow> data_inv hs (run_events (DataOps apn) DataCallbacks es s)"
proof (induction es arbitrary: s)
  case (Cons e es)
  then show ?case by (cases e) (simp_all add: data_ops_inv data_callbacks_inv)
qed simp

text \<open>
  C10: The modem is never asked for an unknown APN. In every run of the data domain, whatever the
  framework asks and the modem answers, each \<open>setupDataCall\<close> and \<open>setInitialAttachApn\<close> is made at a
  moment when the last profile list sent to the same service holds a matching profile. (The modem
  answers a context for a profile it was not told about with an unspecified error.)
\<close>

theorem setup_after_profile:
  assumes "h0 \<noteq> h1"
    and "s = run_events (DataOps apn) DataCallbacks es (ril_init\<lparr>rb_reportOps := True, rb_data := [Some h0, Some h1]\<rparr>)"
  shows "all_known (rb_aidl s)"
proof -
  have "data_inv [h0, h1] (ril_init\<lparr>rb_reportOps := True, rb_data := [Some h0, Some h1]\<rparr>)"
    using assms(1) by (auto simp: data_inv_def ril_init_def modem_table_def all_known_def less_2_cases_iff)
  from data_run_inv [OF this] show ?thesis by (simp add: assms(2) data_inv_def)
qed

definition sample_data :: HRilDataInfo where
  "sample_data = \<lparr>di_cid = 1, di_reason = 0, di_rat = RADIO_TECHNOLOGY_LTE, di_roamingEnable = 0, di_verType = 0,
     di_userName = None, di_password = None, di_apn = Some ''internet'', di_type = Some ''IPV4V6'', di_roamingType = None\<rparr>"

definition sample_apn :: ApnTypes where
  "sample_apn = \<lparr>apn_DEFAULT = 1, apn_DUN = 8, apn_FOTA = 32, apn_IMS = 64, apn_CBS = 128, apn_IA = 256\<rparr>"

definition sample_req :: ReqDataInfo where
  "sample_req = \<lparr>rq_ptr = 1, rq_slotId = 0, rq_request = HREQ_OTHER 1\<rparr>"

theorem setup_after_profile_witness:
  "all_known (rb_aidl (run_events (DataOps sample_apn) DataCallbacks
     [Issue (Op_ActivatePdpContext (Some sample_data)) sample_req]
     (ril_init\<lparr>rb_reportOps := True, rb_data := [Some 4, Some 5]\<rparr>)))"
  by (rule setup_after_profile [OF _ refl]) simp

text \<open>
  The PDP type survives the trip through its spelling: the string reported for a context asks
  for the same type again.
\<close>

lemma pdp_type_roundtrip: "p \<noteq> Pdp_UNKNOWN \<Longrightarrow> ToProtocol (Some (FromProtocol p)) = p"
  by (cases p) (simp_all add: ToProtocol_def FromProtocol_def)

end
