(* ===== verification/Ril_Session.thy ===== *)
theory Ril_Session
  imports Ril_Connect Ril_Network Ril_Call Ril_Data
begin

text \<open>
  The vendor library as \<open>hril\<close> sees it: the tables \<open>RilInitOps\<close> of
  \<open>hardware/ril/src/hybris_ril_vendor.cpp\<close> hands out, the responses and indications of the six
  services, and the connect thread binding slots meanwhile. A session is any interleaving of them.
\<close>

section \<open>The tables together\<close>

datatype ril_op = ModemReq modem_op | SimReq sim_op | NetworkReq network_op | SmsReq sms_op | DataReq data_op
  | CallReq call_op

definition g_hrilOps :: "ApnTypes \<Rightarrow> ril_op \<Rightarrow> ReqDataInfo option \<Rightarrow> ril \<Rightarrow> ril" where
  "g_hrilOps apn op =
     (case op of
        ModemReq m \<Rightarrow> ModemOps m
      | SimReq m \<Rightarrow> SimOps m
      | NetworkReq m \<Rightarrow> NetworkOps m
      | SmsReq m \<Rightarrow> SmsOps m
      | DataReq m \<Rightarrow> DataOps apn m
      | CallReq m \<Rightarrow> CallOps m)"

text \<open>\<open>RilInitOps\<close> returns the table and starts the bridge.\<close>

definition RilInitOps :: "ApnTypes \<Rightarrow> ril \<Rightarrow> (ril_op \<Rightarrow> ReqDataInfo option \<Rightarrow> ril \<Rightarrow> ril) \<times> conn" where
  "RilInitOps apn s = (g_hrilOps apn, BridgeStart s)"

text \<open>What comes from outside: the services' calls, and the steps of the connect thread that touch the bridge.\<close>

datatype ril_msg = ModemMsg modem_msg | SimMsg sim_msg | NetworkMsg network_msg | MessagingMsg sms_msg
  | DataMsg data_msg | VoiceMsg call_msg | BindSlot nat services | AnnounceOff "nat list" | NudgeSlots "nat list"

definition ril_callbacks :: "ril_msg \<Rightarrow> ril \<Rightarrow> ril" where
  "ril_callbacks m =
     (case m of
        ModemMsg x \<Rightarrow> ModemCallbacks x
      | SimMsg x \<Rightarrow> SimCallbacks x
      | NetworkMsg x \<Rightarrow> NetworkCallbacks x
      | MessagingMsg x \<Rightarrow> MessagingCallbacks x
      | DataMsg x \<Rightarrow> DataCallbacks x
      | VoiceMsg x \<Rightarrow> VoiceCallbacks x
      | BindSlot slot v \<Rightarrow> bind_slot slot v
      | AnnounceOff slots \<Rightarrow> (\<lambda>s. fold announce_off slots (s\<lparr>rb_connected := True\<rparr>))
      | NudgeSlots slots \<Rightarrow> (\<lambda>s. snd (nudge_slots slots False s)))"

section \<open>Every request is reported exactly once\<close>

lemma quiet_bind: "quiet s (bind_slot slot v s)"
  by (rule quiet_frame) (simp_all add: bind_slot_def attach_defs aidl_def store_services_def)

lemma quiet_announce: "quiet s (fold announce_off slots (s\<lparr>rb_connected := True\<rparr>))"
proof -
  have "quiet t (fold announce_off slots t)" for t
    by (induction slots arbitrary: t) (auto simp: announce_off_def notify_defs intro: quiet_trans [OF quiet_trans [OF quiet_notify quiet_notify]])
  moreover have "quiet s (s\<lparr>rb_connected := True\<rparr>)" by (rule quiet_frame) simp_all
  ultimately show ?thesis by (blast intro: quiet_trans)
qed

lemma quiet_nudge: "quiet s (snd (nudge_slots slots pending s))"
  by (induction slots pending s rule: nudge_slots.induct)
    (auto simp: NotifyModem_def intro: quiet_trans [OF quiet_notify])

interpretation session: radio_domain "g_hrilOps apn" ril_callbacks for apn
proof
  show "settles 2 [r] s (g_hrilOps apn op (Some r) s)" for r s op
    by (cases op) (simp_all add: g_hrilOps_def modem.issue_settles sim.issue_settles network.issue_settles
        sms.issue_settles data_dom.issue_settles call.issue_settles)
  show "settles 2 [] s (ril_callbacks m s)" for s m
    by (cases m) (simp_all add: ril_callbacks_def modem.deliver_settles sim.deliver_settles network.deliver_settles
        sms.deliver_settles data_dom.deliver_settles call.deliver_settles quiet_settles quiet_bind quiet_announce quiet_nudge)
qed

text \<open>
  C2: \<open>hril\<close>'s requests are reported against exactly once. In every session of up to \<open>2\<^sup>30 - 1\<close> events,
  however the requests of the six domains, the responses, the indications and the connect thread
  interleave, and whatever serials the modem answers, each request handed over was either reported
  once and is forgotten, or was not reported and waits in \<open>pending_\<close> under one serial.
\<close>

theorem requests_reported_once:
  assumes "s = run_events (g_hrilOps apn) ril_callbacks es (cn_ril (BridgeStart ril_init))"
    and "length es < 1073741823" "distinct (issued es)" "r \<in> set (issued es)"
  shows "report_count r s = 1 \<and> pending_count r s = 0 \<or> report_count r s = 0 \<and> pending_count r s = 1"
proof -
  let ?s0 = "cn_ril (BridgeStart ril_init)"
  have "ril_inv ?s0" by (simp add: ril_inv_def BridgeStart_def ril_init_def map_inv_def)
  moreover have "rb_nextSerial ?s0 + 2 * int (length es) \<le> INT32_MAX"
    using assms(2) by (simp add: BridgeStart_def ril_init_def INT32_MAX_def)
  moreover have "account r ?s0 = 0"
    by (simp add: account_def report_count_def pending_count_def BridgeStart_def ril_init_def)
  ultimately have "account r s = 1" using session.exactly_once [of ?s0 es r apn] assms by simp
  then show ?thesis by (auto simp: account_def add_is_1)
qed

definition sample_session :: "(ril_op, ril_msg) radio_event list" where
  "sample_session =
     [Issue (ModemReq Op_GetImei) \<lparr>rq_ptr = 1, rq_slotId = 0, rq_request = HREQ_OTHER 1\<rparr>,
      Deliver (BindSlot 0 \<lparr>sv_modem = 11, sv_sim = 12, sv_network = 13, sv_messaging = 14, sv_data = 15, sv_voice = 16\<rparr>),
      Issue (SimReq Op_GetSimImsi) \<lparr>rq_ptr = 2, rq_slotId = 0, rq_request = HREQ_OTHER 2\<rparr>]"

theorem requests_reported_once_witness:
  "let s = run_events (g_hrilOps sample_apn) ril_callbacks sample_session (cn_ril (BridgeStart ril_init));
       r = \<lparr>rq_ptr = 2, rq_slotId = 0, rq_request = HREQ_OTHER 2\<rparr>
   in report_count r s = 1 \<and> pending_count r s = 0 \<or> report_count r s = 0 \<and> pending_count r s = 1"
  unfolding Let_def by (rule requests_reported_once [OF refl]) (simp_all add: sample_session_def)

section \<open>An answer reports the request\<close>

text \<open>The \<open>RadioResponseInfo\<close> of a response; an indication has none.\<close>

fun modem_info :: "modem_msg \<Rightarrow> RadioResponseInfo option" where
  "modem_info (Rsp_getBasebandVersion info v) = Some info"
| "modem_info (Rsp_getImei info i) = Some info"
| "modem_info (Rsp_setRadioPower info) = Some info"
| "modem_info (Rsp_requestShutdown info) = Some info"
| "modem_info _ = None"

fun sim_info :: "sim_msg \<Rightarrow> RadioResponseInfo option" where
  "sim_info (Rsp_getIccCardStatus slotId info c) = Some info"
| "sim_info (Rsp_iccIoForApp info sw1 sw2 r) = Some info"
| "sim_info (Rsp_enableUiccApplications info) = Some info"
| "sim_info (Rsp_getImsiForApp info imsi) = Some info"
| "sim_info (Rsp_supplyIccPin info n) = Some info"
| "sim_info (Rsp_supplyIccPuk info n) = Some info"
| "sim_info (Rsp_supplyIccPin2 info n) = Some info"
| "sim_info (Rsp_supplyIccPuk2 info n) = Some info"
| "sim_info (Rsp_getFacilityLock info n) = Some info"
| "sim_info (Rsp_setFacilityLock info n) = Some info"
| "sim_info _ = None"

fun network_info :: "network_msg \<Rightarrow> RadioResponseInfo option" where
  "network_info (Rsp_getSignalStrength info x) = Some info"
| "network_info (Rsp_getVoiceRegistrationState info x) = Some info"
| "network_info (Rsp_getDataRegistrationState slotId info x) = Some info"
| "network_info (Rsp_getOperator info x y z) = Some info"
| "network_info (Rsp_getNetworkSelectionMode info x) = Some info"
| "network_info (Rsp_setNetworkSelectionModeAutomatic info) = Some info"
| "network_info (Rsp_setNetworkSelectionModeManual info) = Some info"
| "network_info (Rsp_setAllowedNetworkTypesBitmap info) = Some info"
| "network_info (Rsp_setLocationUpdates info) = Some info"
| "network_info (Rsp_setIndicationFilter info) = Some info"
| "network_info (Rsp_setBarringPassword info) = Some info"
| "network_info (Rsp_setSuppServiceNotifications info) = Some info"
| "network_info (Rsp_getAllowedNetworkTypesBitmap x info y) = Some info"
| "network_info _ = None"

fun sms_info :: "sms_msg \<Rightarrow> RadioResponseInfo option" where
  "sms_info (Rsp_sendSms info x y z) = Some info"
| "sms_info (Rsp_sendSmsExpectMore info x y z) = Some info"
| "sms_info (Rsp_acknowledgeLastIncomingGsmSms info) = Some info"
| "sms_info (Rsp_getSmscAddress info x) = Some info"
| "sms_info (Rsp_setSmscAddress info) = Some info"
| "sms_info (Rsp_reportSmsMemoryStatus info) = Some info"
| "sms_info (Rsp_writeSmsToSim info x) = Some info"
| "sms_info (Rsp_deleteSmsOnSim info) = Some info"
| "sms_info _ = None"

fun data_info :: "data_msg \<Rightarrow> RadioResponseInfo option" where
  "data_info (Rsp_setupDataCall info x) = Some info"
| "data_info (Rsp_getDataCallList info x) = Some info"
| "data_info (Rsp_dataEmpty info) = Some info"
| "data_info _ = None"

fun call_info :: "call_msg \<Rightarrow> RadioResponseInfo option" where
  "call_info (Rsp_getCurrentCalls info x) = Some info"
| "call_info (Rsp_getLastCallFailCause info x) = Some info"
| "call_info (Rsp_getMute info x) = Some info"
| "call_info (Rsp_voiceEmpty info) = Some info"
| "call_info (Rsp_getClip info x) = Some info"
| "call_info (Rsp_getClir info x y) = Some info"
| "call_info (Rsp_getCallWaiting info x y) = Some info"
| "call_info (Rsp_getCallForwardStatus info x) = Some info"
| "call_info _ = None"

definition response_info :: "ril_msg \<Rightarrow> RadioResponseInfo option" where
  "response_info m =
     (case m of ModemMsg x \<Rightarrow> modem_info x | SimMsg x \<Rightarrow> sim_info x | NetworkMsg x \<Rightarrow> network_info x
      | MessagingMsg x \<Rightarrow> sms_info x | DataMsg x \<Rightarrow> data_info x | VoiceMsg x \<Rightarrow> call_info x | _ \<Rightarrow> None)"

text \<open>The last report answers \<open>r\<close> with the error code of \<open>info\<close>, and \<open>r\<close>'s serial is free.\<close>

definition answered :: "RadioResponseInfo \<Rightarrow> ReqDataInfo \<Rightarrow> ril \<Rightarrow> bool" where
  "answered info r s \<longleftrightarrow> rb_reports s \<noteq> [] \<and>
     rp_requestInfo (last (rb_reports s)) = Some r \<and> rp_type (last (rb_reports s)) = HRIL_RESPONSE \<and>
     rp_error (last (rb_reports s)) = ToHrilError (in_error info) \<and>
     map_find (in_serial info) (rb_pending s) = None"

definition waiting :: "RadioResponseInfo \<Rightarrow> ReqDataInfo \<Rightarrow> ril \<Rightarrow> bool" where
  "waiting info r s \<longleftrightarrow> rb_reportOps s \<and> map_find (in_serial info) (rb_pending s) = Some r"

lemma respond_answers: "waiting info r s \<Longrightarrow> answered info r (respond (report part) info pay s)"
  by (simp add: waiting_def answered_def respond_def TakePending_def report_def map_find_erase)

lemma quiet_waiting: "quiet s s1 \<Longrightarrow> waiting info r s \<Longrightarrow> waiting info r s1"
  by (simp add: quiet_def waiting_def)

lemma power_answers: "waiting info r s \<Longrightarrow> answered info r (setRadioPowerResponse info s)"
proof -
  assume w: "waiting info r s"
  let ?s1 = "s\<lparr>g_powerRequests := map_erase (in_serial info) (g_powerRequests s)\<rparr>"
  let ?s2 = "?s1\<lparr>rb_pending := map_erase (in_serial info) (rb_pending s)\<rparr>"
  have t: "TakePending (in_serial info) ?s1 = (Some r, ?s2)" using w by (simp add: waiting_def TakePending_def)
  have "answered info r (report DModem (Some r) (ToHrilError (in_error info)) NoData (power_done info q slot ?s2))" for q slot
    using power_done_quiet [of ?s2 info q slot] w
    by (simp add: quiet_def answered_def waiting_def report_def map_find_erase)
  then show ?thesis by (simp add: setRadioPowerResponse_def Let_def t report_defs)
qed

lemma reg_answers:
  "waiting info r s \<Longrightarrow> map_find (in_serial info) (rb_notifying s) = None \<Longrightarrow> answered info r (ReportReg info reg s)"
  by (simp add: ReportReg_def Let_def TakeNotify_def report_defs respond_answers)

lemma modem_answers: "waiting info r s \<Longrightarrow> modem_info m = Some info \<Longrightarrow> answered info r (ModemCallbacks m s)"
  by (cases m) (auto simp: ModemCallbacks_def getBasebandVersionResponse_def getImeiResponse_def
      requestShutdownResponse_def report_defs respond_answers power_answers)

lemma sim_answers: "waiting info r s \<Longrightarrow> sim_info m = Some info \<Longrightarrow> answered info r (SimCallbacks m s)"
proof (cases m)
  case (Rsp_getIccCardStatus slotId info' c)
  assume "waiting info r s" "sim_info m = Some info"
  then have "waiting info r (RememberAppAid slotId aid s)" for aid
    by (simp add: RememberAppAid_def waiting_def)
  with Rsp_getIccCardStatus \<open>sim_info m = Some info\<close> show ?thesis
    by (simp add: SimCallbacks_def getIccCardStatusResponse_def report_defs respond_answers split: prod.split)
qed (auto simp: SimCallbacks_def sim_response_defs report_defs respond_answers)

lemma network_answers:
  "waiting info r s \<Longrightarrow> map_find (in_serial info) (rb_notifying s) = None \<Longrightarrow> network_info m = Some info \<Longrightarrow>
    answered info r (NetworkCallbacks m s)"
proof (cases m)
  case (Rsp_getDataRegistrationState slotId info' x)
  assume a: "waiting info r s" "map_find (in_serial info) (rb_notifying s) = None" "network_info m = Some info"
  then have "waiting info r (RememberDataAccessNetwork slotId rat s)"
    "map_find (in_serial info) (rb_notifying (RememberDataAccessNetwork slotId rat s)) = None" for rat
    by (simp_all add: RememberDataAccessNetwork_def Let_def waiting_def)
  with Rsp_getDataRegistrationState a(3) show ?thesis
    by (simp add: NetworkCallbacks_def getDataRegistrationStateResponse_def reg_answers)
qed (auto simp: NetworkCallbacks_def network_response_defs report_defs respond_answers reg_answers)

lemma sms_answers: "waiting info r s \<Longrightarrow> sms_info m = Some info \<Longrightarrow> answered info r (MessagingCallbacks m s)"
  by (cases m) (auto simp: MessagingCallbacks_def sms_response_defs report_defs respond_answers)

lemma data_answers: "waiting info r s \<Longrightarrow> data_info m = Some info \<Longrightarrow> answered info r (DataCallbacks m s)"
  by (cases m) (auto simp: DataCallbacks_def data_response_defs report_defs respond_answers)

lemma call_answers: "waiting info r s \<Longrightarrow> call_info m = Some info \<Longrightarrow> answered info r (VoiceCallbacks m s)"
  by (cases m) (auto simp: VoiceCallbacks_def call_response_defs report_defs respond_answers)

text \<open>
  C12: A response reports its request at once. Whichever of the services answers, a response that carries
  the serial of a waiting request ends in a report against that request, with the error code of the
  response translated, and frees the serial. (A serial is never in both tables of the bridge.)
\<close>

theorem response_reports:
  assumes "rb_reportOps s" "response_info m = Some info" "map_find (in_serial info) (rb_pending s) = Some r"
    "map_find (in_serial info) (rb_notifying s) = None"
  shows "answered info r (ril_callbacks m s)"
proof -
  from assms(1,3) have "waiting info r s" by (simp add: waiting_def)
  with assms(2,4) show ?thesis
    by (cases m) (simp_all add: response_info_def ril_callbacks_def modem_answers sim_answers network_answers sms_answers
        data_answers call_answers)
qed

theorem response_reports_witness:
  "answered \<lparr>in_serial = 7, in_error = RE_NONE\<rparr> sample_req
     (ril_callbacks (VoiceMsg (Rsp_getMute \<lparr>in_serial = 7, in_error = RE_NONE\<rparr> True))
       (ril_init\<lparr>rb_reportOps := True, rb_pending := [(7, sample_req)]\<rparr>))"
  by (rule response_reports) (simp_all add: response_info_def ril_init_def map_find_def)

section \<open>Radio power\<close>

text \<open>The modem's consent to a waiting power request.\<close>

definition power_reports :: "ReqDataInfo \<Rightarrow> HRilRadioPowerState \<Rightarrow> bool \<Rightarrow> hril_report list" where
  "power_reports r state changed =
     (if changed then
        [\<lparr>rp_part = DModem, rp_slot = rq_slotId r, rp_requestInfo = None, rp_notifyId = Some HNOTI_MODEM_RADIO_STATE_UPDATED,
          rp_type = HRIL_NOTIFICATION, rp_error = HRIL_ERR_SUCCESS, rp_payload = PowerData state\<rparr>] else []) @
      [\<lparr>rp_part = DModem, rp_slot = rq_slotId r, rp_requestInfo = Some r, rp_notifyId = None,
        rp_type = HRIL_RESPONSE, rp_error = HRIL_ERR_SUCCESS, rp_payload = NoData\<rparr>]"

lemma power_consent:
  assumes "rb_reportOps s" "map_find (in_serial info) (rb_pending s) = Some r"
    and "map_find (in_serial info) (g_powerRequests s) = Some requestedOn" "in_error info = RE_NONE"
    and "nat (rq_slotId r) < length (g_radioState s)" "0 \<le> rq_slotId r" "rq_slotId r < MAX_SLOTS"
    and "state = (if requestedOn then HRIL_RADIO_POWER_STATE_ON else HRIL_RADIO_POWER_STATE_OFF)"
  shows "CachedRadioState (rq_slotId r) (setRadioPowerResponse info s) = state"
    "rb_reports (setRadioPowerResponse info s) = rb_reports s @ power_reports r state (CachedRadioState (rq_slotId r) s \<noteq> state)"
  using assms
  by (auto simp: setRadioPowerResponse_def Let_def TakePending_def power_done_def report_defs report_def notify_defs
      notify_def CachedRadioState_def ToHrilError_def power_reports_def)

text \<open>
  The radio power is what was asked for once the modem agrees. After a \<open>SetRadioState\<close> on a bound slot
  and the modem's consent under its serial, the requested state is cached for the slot and the request is
  reported as a success; \<open>hril\<close> is notified just before exactly when the state changed.
\<close>

lemma radio_power_roundtrip:
  assumes "rb_reportOps s" "map_inv (rb_pending s)" "map_inv (g_powerRequests s)" "length (g_radioState s) = 2"
    and "Modem (rq_slotId r) s = Some m"
    and "t = setRadioPowerResponse \<lparr>in_serial = rb_nextSerial s, in_error = RE_NONE\<rparr> (SetRadioState fn (Some r) s)"
    and "state = (if fn = HRIL_RADIO_POWER_STATE_OFF then HRIL_RADIO_POWER_STATE_OFF else HRIL_RADIO_POWER_STATE_ON)"
  shows "CachedRadioState (rq_slotId r) t = state \<and>
    rb_reports t = rb_reports s @ power_reports r state (CachedRadioState (rq_slotId r) s \<noteq> state)"
proof -
  let ?u = "SetRadioState fn (Some r) s"
  have slot: "0 \<le> rq_slotId r" "rq_slotId r < MAX_SLOTS"
    using assms(5) by (auto simp: Modem_def slot_of_def split: if_splits)
  then have len: "nat (rq_slotId r) < length (g_radioState s)" using assms(4) by (auto simp: MAX_SLOTS_def)
  have u: "rb_reportOps ?u" "map_find (rb_nextSerial s) (rb_pending ?u) = Some r" "rb_reports ?u = rb_reports s"
    "map_find (rb_nextSerial s) (g_powerRequests ?u) = Some (fn \<noteq> HRIL_RADIO_POWER_STATE_OFF)"
    "g_radioState ?u = g_radioState s"
    using assms(1-3,5)
    by (simp_all add: SetRadioState_def require_defs require_def Let_def Track_def aidl_def map_find_put)
  from u slot len assms(7) show ?thesis
    using power_consent [of ?u "\<lparr>in_serial = rb_nextSerial s, in_error = RE_NONE\<rparr>" r "fn \<noteq> HRIL_RADIO_POWER_STATE_OFF" state]
    by (simp add: assms(6) CachedRadioState_def)
qed



end
