(* ===== verification/Gnss_Bridge.thy ===== *)
theory Gnss_Bridge
  imports Complex_Main Prelude
begin

text \<open>
  The positioning bridge: \<open>hardware/gnss/src/hybris_gnss_bridge.cpp\<close>.

  \<^item> \<open>gnss\<close> is the state of \<open>GnssBridge\<close>. A HAL object is a number, the null pointer \<open>None\<close>;
    \<open>gb_calls\<close> records the calls made on HAL objects, in order, and \<open>gb_delivered\<close> the reports the
    dispatch thread has handed to OHOS.
  \<^item> Whether a call on the HAL succeeds is given by \<open>ok\<close>, a function of the number of calls made
    before it.
  \<^item> The operations that take both locks are split at the points where another thread may come in:
    \<open>ApplySession\<close> is \<open>apply_read\<close>, \<open>Gnss\<close> and \<open>apply_calls\<close>, \<open>SetPositionConfig\<close> is \<open>config_set\<close>,
    \<open>Gnss\<close>, \<open>config_options\<close> and \<open>config_call\<close>. The theory \<open>Gnss_Run\<close> interleaves the parts.
  \<^item> The enumerators of the OHOS header \<open>location_vendor_lib.h\<close> are constructors, a bit set of them
    is a set; the constants of the AIDL interfaces are those of \<open>aidl_gen\<close>.
\<close>

section \<open>State\<close>

datatype GnssPositionMode = STANDALONE | MS_BASED | MS_ASSISTED

datatype GnssWorkingMode = GNSS_WORKING_MODE_STANDALONE | GNSS_WORKING_MODE_MS_BASED | GNSS_WORKING_MODE_MS_ASSISTED
  | GNSS_WORKING_MODE_OTHER int

record PositionModeOptions =
  po_mode :: GnssPositionMode
  po_minIntervalMs :: u32

text \<open>Recurrence, accuracy, time and power mode are \<open>RECURRENCE_PERIODIC\<close>, 0, 0 and false in every call.\<close>

datatype GnssLocationValidity = LAT_VALID | LONG_VALID | ALTITUDE_VALID | SPEED_VALID | BEARING_VALID
  | HORIZONTAL_ACCURACY_VALID | VERTICAL_ACCURACY_VALID | SPEED_ACCURACY_VALID | BEARING_ACCURACY_VALID
  | TIME_VALID | TIME_SINCE_BOOT_VALID | TIME_UNCERTAINTY_VALID

record OhosLocation =
  ol_fieldValidity :: "GnssLocationValidity set"
  ol_latitude :: real
  ol_longitude :: real
  ol_altitude :: real
  ol_speed :: real
  ol_bearing :: real
  ol_horizontalAccuracy :: real
  ol_verticalAccuracy :: real
  ol_speedAccuracy :: real
  ol_bearingAccuracy :: real
  ol_timeForFix :: int
  ol_timeSinceBoot :: u64
  ol_timeUncertainty :: u64

record AidlLocation =
  al_flags :: u32
  al_latitude :: real
  al_longitude :: real
  al_altitude :: real
  al_speed :: real
  al_bearing :: real
  al_horizontalAccuracy :: real
  al_verticalAccuracy :: real
  al_speedAccuracy :: real
  al_bearingAccuracy :: real
  al_timestampMillis :: int
  al_elapsedFlags :: u32
  al_timestampNs :: u64
  al_timeUncertaintyNs :: real

datatype GnssRefInfoCategory = REF_TIME | REF_GNSS_LOCATION | REF_BEST_LOCATION | REF_GNSS_LOCATION_EMERGENCY
  | REF_BEST_LOCATION_EMERGENCY | REF_OTHER

datatype AGnssRefLocationType = GSM_CELLID | UMTS_CELLID | LTE_CELLID | NR_CELLID

record AGnssRefLocation =
  rl_type :: AGnssRefLocationType
  rl_mcc :: u16
  rl_mnc :: u16
  rl_lac :: u16
  rl_cid :: int
  rl_tac :: u16
  rl_pcid :: u16

datatype SetIdType = SETID_NONE | SETID_IMSI | SETID_MSISDM

record NetworkAttributes =
  na_networkHandle :: int
  na_isConnected :: bool
  na_apn :: string

datatype hal_call = H_setCallback | H_getExtensionAGnss | H_getExtensionAGnssRil
  | H_setPositionMode PositionModeOptions | H_start | H_stop
  | H_startSvStatus | H_stopSvStatus | H_startNmea | H_stopNmea
  | H_injectTime int int int | H_injectLocation AidlLocation | H_injectBestLocation AidlLocation
  | H_deleteAidingData u32
  | H_setServer u16 string int | H_dataConnOpen int string | H_dataConnClosed
  | H_setRefLocation AGnssRefLocation | H_setSetId SetIdType string | H_updateNetworkState NetworkAttributes

record SatelliteStatusInfo =
  sv_satelliteId :: u16
  sv_constellation :: u8
  sv_cn0 :: real
  sv_elevation :: real
  sv_azimuth :: real
  sv_carrierFrequency :: real
  sv_additionalInfo :: u32

datatype gnss_capability = CAP_MSB | CAP_MSA | CAP_GEOFENCING | CAP_MEASUREMENTS | CAP_NAV_MESSAGES

text \<open>A queued closure; \<open>R_dataLink\<close> is a data link to establish or to release.\<close>

datatype gnss_report = R_capabilities "gnss_capability set" | R_workingStatus u16 | R_satellites "SatelliteStatusInfo list"
  | R_location OhosLocation | R_nmea int string | R_refInfo GnssRefInfoCategory
  | R_dataLink u16 bool | R_setid SetIdType | R_agnssRefInfo

datatype gnss_member = M_capabilitiesUpdate | M_gnssWorkingStatusUpdate | M_satelliteStatusUpdate | M_locationUpdate
  | M_nmeaUpdate | M_requestRefInfo | M_requestSetupDataLink | M_requestSetid | M_requestAgnssRefInfo

record gnss =
  gb_started :: bool
  gb_connected :: bool
  gb_unavailable :: bool
  gb_gnss :: "nat option"
  gb_agnss :: "nat option"
  gb_agnssRil :: "nat option"
  gb_callbacks :: "gnss_member set"
  gb_agnssCallbacks :: "gnss_member set"
  gb_sessionWanted :: bool
  gb_positionMode :: GnssPositionMode
  gb_minIntervalMs :: u32
  gb_queue :: "gnss_report list"
  gb_calls :: "(nat \<times> hal_call) list"
  gb_delivered :: "gnss_report list"

definition gnss_init :: gnss where
  "gnss_init = \<lparr>gb_started = False, gb_connected = False, gb_unavailable = False, gb_gnss = None, gb_agnss = None,
     gb_agnssRil = None, gb_callbacks = {}, gb_agnssCallbacks = {}, gb_sessionWanted = False,
     gb_positionMode = STANDALONE, gb_minIntervalMs = 1000, gb_queue = [], gb_calls = [], gb_delivered = []\<rparr>"

text \<open>A call on a HAL object and its status.\<close>

definition hal :: "(nat \<Rightarrow> bool) \<Rightarrow> nat \<Rightarrow> hal_call \<Rightarrow> gnss \<Rightarrow> bool \<times> gnss" where
  "hal ok h c s = (ok (length (gb_calls s)), s\<lparr>gb_calls := gb_calls s @ [(h, c)]\<rparr>)"

section \<open>Connection\<close>

definition GnssStart :: "gnss \<Rightarrow> bool \<times> gnss" where
  "GnssStart s = (if gb_started s then (False, s) else (True, s\<lparr>gb_started := True\<rparr>))"

definition Gnss :: "gnss \<Rightarrow> nat option" where
  "Gnss s = (if gb_connected s then gb_gnss s else None)"

definition AGnss :: "gnss \<Rightarrow> nat option" where
  "AGnss s = (if gb_connected s then gb_agnss s else None)"

definition AGnssRil :: "gnss \<Rightarrow> nat option" where
  "AGnssRil s = (if gb_connected s then gb_agnssRil s else None)"

text \<open>How the connect thread gets past its gates.\<close>

datatype gate = G_NoBinder | G_Legacy | G_Wedged | G_NotDeclared | G_Connect

definition connect_gate :: "bool \<Rightarrow> bool \<Rightarrow> bool \<Rightarrow> bool \<Rightarrow> gate" where
  "connect_gate ndk legacy probed declared =
     (if \<not> ndk then G_NoBinder
      else if legacy then G_Legacy
      else if \<not> probed then G_Wedged
      else if \<not> declared then G_NotDeclared
      else G_Connect)"

definition give_up :: "gnss \<Rightarrow> gnss" where
  "give_up s = s\<lparr>gb_unavailable := True\<rparr>"

text \<open>
  The calls of \<open>Bind\<close>: the callback first, then the extensions the HAL has (\<open>agnss\<close> and \<open>ril\<close> are
  the objects it returns). A false result leaves the bridge unconnected.
\<close>

definition bind_extension :: "(nat \<Rightarrow> bool) \<Rightarrow> nat \<Rightarrow> hal_call \<Rightarrow> nat option \<Rightarrow> gnss \<Rightarrow> nat option \<times> gnss" where
  "bind_extension ok h get x s =
     (case hal ok h get s of (st, s) \<Rightarrow>
        (case x of
           Some e \<Rightarrow> if st then (Some e, snd (hal ok e H_setCallback s)) else (None, s)
         | None \<Rightarrow> (None, s)))"

definition bind_calls ::
  "(nat \<Rightarrow> bool) \<Rightarrow> nat \<Rightarrow> nat option \<Rightarrow> nat option \<Rightarrow> gnss \<Rightarrow> (nat option \<times> nat option) option \<times> gnss" where
  "bind_calls ok h agnss ril s =
     (case hal ok h H_setCallback s of
        (False, s) \<Rightarrow> (None, s)
      | (True, s) \<Rightarrow>
          (case bind_extension ok h H_getExtensionAGnss agnss s of (agnss, s) \<Rightarrow>
           (case bind_extension ok h H_getExtensionAGnssRil ril s of (ril, s) \<Rightarrow> (Some (agnss, ril), s))))"

definition bind_publish :: "nat \<Rightarrow> nat option \<times> nat option \<Rightarrow> gnss \<Rightarrow> gnss" where
  "bind_publish h ext s = s\<lparr>gb_gnss := Some h, gb_agnss := fst ext, gb_agnssRil := snd ext, gb_connected := True\<rparr>"

definition Bind :: "(nat \<Rightarrow> bool) \<Rightarrow> nat \<Rightarrow> nat option \<Rightarrow> nat option \<Rightarrow> gnss \<Rightarrow> bool \<times> gnss" where
  "Bind ok h agnss ril s =
     (case bind_calls ok h agnss ril s of
        (None, s) \<Rightarrow> (False, s)
      | (Some ext, s) \<Rightarrow> (True, bind_publish h ext s))"

definition OnHalDied :: "gnss \<Rightarrow> gnss" where
  "OnHalDied s = s\<lparr>gb_connected := False, gb_gnss := None, gb_agnss := None, gb_agnssRil := None\<rparr>"

section \<open>The session\<close>

definition SetCallbacks :: "gnss_member set \<Rightarrow> gnss \<Rightarrow> gnss" where
  "SetCallbacks callbacks s = s\<lparr>gb_callbacks := callbacks\<rparr>"

definition SetAgnssCallbacks :: "gnss_member set \<Rightarrow> gnss \<Rightarrow> gnss" where
  "SetAgnssCallbacks callbacks s = s\<lparr>gb_agnssCallbacks := callbacks\<rparr>"

definition ToAidlMode :: "GnssWorkingMode \<Rightarrow> GnssPositionMode" where
  "ToAidlMode ohosMode =
     (case ohosMode of
        GNSS_WORKING_MODE_MS_BASED \<Rightarrow> MS_BASED
      | GNSS_WORKING_MODE_MS_ASSISTED \<Rightarrow> MS_ASSISTED
      | _ \<Rightarrow> STANDALONE)"

definition options_of :: "gnss \<Rightarrow> PositionModeOptions" where
  "options_of s = \<lparr>po_mode = gb_positionMode s, po_minIntervalMs = gb_minIntervalMs s\<rparr>"

text \<open>The first locked section of \<open>SetPositionConfig\<close>; the result is \<open>running\<close>.\<close>

definition config_set :: "GnssWorkingMode \<Rightarrow> u32 \<Rightarrow> gnss \<Rightarrow> bool \<times> gnss" where
  "config_set ohosMode minIntervalMs s =
     (gb_sessionWanted s,
      s\<lparr>gb_positionMode := ToAidlMode ohosMode,
        gb_minIntervalMs := (if minIntervalMs \<noteq> 0 then minIntervalMs else gb_minIntervalMs s)\<rparr>)"

definition config_call :: "(nat \<Rightarrow> bool) \<Rightarrow> PositionModeOptions \<Rightarrow> nat \<Rightarrow> gnss \<Rightarrow> gnss" where
  "config_call ok options h s = snd (hal ok h (H_setPositionMode options) s)"

definition SetPositionConfig :: "(nat \<Rightarrow> bool) \<Rightarrow> GnssWorkingMode \<Rightarrow> u32 \<Rightarrow> gnss \<Rightarrow> gnss" where
  "SetPositionConfig ok ohosMode minIntervalMs s =
     (case config_set ohosMode minIntervalMs s of (running, s) \<Rightarrow>
        (case Gnss s of
           Some h \<Rightarrow> if running then config_call ok (options_of s) h s else s
         | None \<Rightarrow> s))"

text \<open>The locked section of \<open>ApplySession\<close>: what is wanted, and how.\<close>

definition apply_read :: "gnss \<Rightarrow> bool \<times> PositionModeOptions" where
  "apply_read s = (gb_sessionWanted s, options_of s)"

definition apply_calls :: "(nat \<Rightarrow> bool) \<Rightarrow> bool \<Rightarrow> PositionModeOptions \<Rightarrow> nat option \<Rightarrow> gnss \<Rightarrow> gnss" where
  "apply_calls ok wanted options h_p s =
     (case h_p of
        None \<Rightarrow> s
      | Some h \<Rightarrow>
          if \<not> wanted then
            snd (hal ok h H_stop (snd (hal ok h H_stopSvStatus (snd (hal ok h H_stopNmea s)))))
          else
            (case hal ok h H_start (snd (hal ok h (H_setPositionMode options) (snd (hal ok h H_setCallback s)))) of
               (False, s) \<Rightarrow> s
             | (True, s) \<Rightarrow> snd (hal ok h H_startNmea (snd (hal ok h H_startSvStatus s)))))"

definition ApplySession :: "(nat \<Rightarrow> bool) \<Rightarrow> gnss \<Rightarrow> gnss" where
  "ApplySession ok s = (case apply_read s of (wanted, options) \<Rightarrow> apply_calls ok wanted options (Gnss s) s)"

text \<open>The locked sections of \<open>StartSession\<close> and \<open>StopSession\<close>; the result is whether to go on.\<close>

definition want_session :: "gnss \<Rightarrow> bool \<times> gnss" where
  "want_session s = (if gb_unavailable s then (False, s) else (True, s\<lparr>gb_sessionWanted := True\<rparr>))"

definition unwant_session :: "gnss \<Rightarrow> gnss" where
  "unwant_session s = s\<lparr>gb_sessionWanted := False\<rparr>"

definition StartSession :: "(nat \<Rightarrow> bool) \<Rightarrow> gnss \<Rightarrow> int \<times> gnss" where
  "StartSession ok s =
     (case want_session s of
        (False, s) \<Rightarrow> (-1, s)
      | (True, s) \<Rightarrow> (0, ApplySession ok s))"

definition StopSession :: "(nat \<Rightarrow> bool) \<Rightarrow> gnss \<Rightarrow> int \<times> gnss" where
  "StopSession ok s = (0, ApplySession ok (unwant_session s))"

definition Disable :: "(nat \<Rightarrow> bool) \<Rightarrow> gnss \<Rightarrow> gnss" where
  "Disable ok s = snd (StopSession ok s)"

definition ConnectLegacy :: "(nat \<Rightarrow> bool) \<Rightarrow> (nat \<times> nat option \<times> nat option) option \<Rightarrow> gnss \<Rightarrow> gnss" where
  "ConnectLegacy ok opened s =
     (case opened of
        None \<Rightarrow> give_up s
      | Some (h, agnss, ril) \<Rightarrow>
          (case Bind ok h agnss ril s of
             (False, s) \<Rightarrow> give_up s
           | (True, s) \<Rightarrow> ApplySession ok s))"

section \<open>Reports\<close>

definition MAX_QUEUED :: nat where "MAX_QUEUED = 512"

definition Post :: "gnss_report \<Rightarrow> gnss \<Rightarrow> gnss" where
  "Post fn s =
     (let q = (if length (gb_queue s) \<ge> MAX_QUEUED then tl (gb_queue s) else gb_queue s)
      in s\<lparr>gb_queue := q @ [fn]\<rparr>)"

definition member_of :: "gnss_report \<Rightarrow> gnss_member" where
  "member_of r =
     (case r of R_capabilities _ \<Rightarrow> M_capabilitiesUpdate | R_workingStatus _ \<Rightarrow> M_gnssWorkingStatusUpdate
      | R_satellites _ \<Rightarrow> M_satelliteStatusUpdate | R_location _ \<Rightarrow> M_locationUpdate | R_nmea _ _ \<Rightarrow> M_nmeaUpdate
      | R_refInfo _ \<Rightarrow> M_requestRefInfo | R_dataLink _ _ \<Rightarrow> M_requestSetupDataLink | R_setid _ \<Rightarrow> M_requestSetid
      | R_agnssRefInfo \<Rightarrow> M_requestAgnssRefInfo)"

definition agnss_report :: "gnss_report \<Rightarrow> bool" where
  "agnss_report r = (case r of R_dataLink _ _ \<Rightarrow> True | R_setid _ \<Rightarrow> True | R_agnssRefInfo \<Rightarrow> True | _ \<Rightarrow> False)"

text \<open>Running a closure: the callback if it is set, and for a data link the answer to the HAL.\<close>

definition run_report :: "(nat \<Rightarrow> bool) \<Rightarrow> gnss_report \<Rightarrow> gnss \<Rightarrow> gnss" where
  "run_report ok r s =
     (let table = (if agnss_report r then gb_agnssCallbacks s else gb_callbacks s);
          s = (if member_of r \<in> table then s\<lparr>gb_delivered := gb_delivered s @ [r]\<rparr> else s)
      in case r of
           R_dataLink type establish \<Rightarrow>
             (case AGnss s of
                None \<Rightarrow> s
              | Some a \<Rightarrow> snd (hal ok a (if establish then H_dataConnOpen 0 [] else H_dataConnClosed) s))
         | _ \<Rightarrow> s)"

text \<open>One turn of \<open>DispatchLoop\<close>; it waits on an empty queue.\<close>

definition dispatch :: "(nat \<Rightarrow> bool) \<Rightarrow> gnss \<Rightarrow> gnss" where
  "dispatch ok s =
     (case gb_queue s of
        [] \<Rightarrow> s
      | fn # rest \<Rightarrow> run_report ok fn (s\<lparr>gb_queue := rest\<rparr>))"

end
