(* ===== verification/Gnss_Run.thy ===== *)
theory Gnss_Run
  imports Gnss_Bridge "HOL-Library.Sublist"
begin

text \<open>
  The positioning bridge under concurrency (\<open>hardware/gnss/src/hybris_gnss_bridge.cpp\<close>): vendor
  operations on any number of threads, the connect thread, the HAL dying and coming back, and the
  reports. A step is what a thread does between two points where it may be interrupted; the calls
  one thread makes on the HAL under \<open>sessionLock_\<close> are one step, since nothing else reads their effect.
\<close>

section \<open>Threads\<close>

text \<open>The thread that holds \<open>sessionLock_\<close>, and how far it is.\<close>

datatype active = A_Free | A_Read bool PositionModeOptions | A_Hal bool PositionModeOptions "nat option"
  | A_Conf PositionModeOptions nat

datatype connect_pc = C_Try | C_Linked nat | C_Bound nat "nat option \<times> nat option" | C_Sleep

text \<open>
  \<open>gy_waiting\<close> threads are about to enter \<open>ApplySession\<close>, \<open>gy_confread\<close> are in \<open>SetPositionConfig\<close>
  before \<open>Gnss()\<close> and \<open>gy_confwait\<close> after it, with the object they got. \<open>gy_alive\<close> is the HAL that is
  registered, of the \<open>gy_born\<close> there have been; \<open>gy_linked\<close> has a death notification for each link and
  \<open>gy_deaths\<close> are on their way.
\<close>

record gsys =
  gy_bridge :: gnss
  gy_waiting :: nat
  gy_confread :: nat
  gy_confwait :: "nat list"
  gy_active :: active
  gy_connect :: connect_pc
  gy_alive :: "nat option"
  gy_born :: nat
  gy_linked :: "nat list"
  gy_deaths :: nat

definition gsys_init :: gsys where
  "gsys_init = \<lparr>gy_bridge = gnss_init, gy_waiting = 0, gy_confread = 0, gy_confwait = [], gy_active = A_Free,
     gy_connect = C_Try, gy_alive = None, gy_born = 0, gy_linked = [], gy_deaths = 0\<rparr>"

definition session_call :: "hal_call \<Rightarrow> bool" where
  "session_call c = (case c of H_start \<Rightarrow> True | H_stop \<Rightarrow> True | H_setPositionMode _ \<Rightarrow> True | _ \<Rightarrow> False)"

inductive gstep :: "gsys \<Rightarrow> gsys \<Rightarrow> bool" where
  g_start: "want_session (gy_bridge s) = (True, b) \<Longrightarrow> gstep s (s\<lparr>gy_bridge := b, gy_waiting := gy_waiting s + 1\<rparr>)"
| g_stop: "gstep s (s\<lparr>gy_bridge := unwant_session (gy_bridge s), gy_waiting := gy_waiting s + 1\<rparr>)"
| g_apply_read: "gy_active s = A_Free \<Longrightarrow> gy_waiting s = Suc n \<Longrightarrow> apply_read (gy_bridge s) = (w, opt) \<Longrightarrow>
    gstep s (s\<lparr>gy_waiting := n, gy_active := A_Read w opt\<rparr>)"
| g_apply_hal: "gy_active s = A_Read w opt \<Longrightarrow> gstep s (s\<lparr>gy_active := A_Hal w opt (Gnss (gy_bridge s))\<rparr>)"
| g_apply_calls: "gy_active s = A_Hal w opt h \<Longrightarrow>
    gstep s (s\<lparr>gy_bridge := apply_calls ok w opt h (gy_bridge s), gy_active := A_Free\<rparr>)"
| g_conf_set: "config_set m iv (gy_bridge s) = (running, b) \<Longrightarrow>
    gstep s (s\<lparr>gy_bridge := b, gy_confread := gy_confread s + (if running then 1 else 0)\<rparr>)"
| g_conf_none: "gy_confread s = Suc n \<Longrightarrow> Gnss (gy_bridge s) = None \<Longrightarrow> gstep s (s\<lparr>gy_confread := n\<rparr>)"
| g_conf_hal: "gy_confread s = Suc n \<Longrightarrow> Gnss (gy_bridge s) = Some h \<Longrightarrow>
    gstep s (s\<lparr>gy_confread := n, gy_confwait := h # gy_confwait s\<rparr>)"
| g_conf_read: "gy_active s = A_Free \<Longrightarrow> h \<in> set (gy_confwait s) \<Longrightarrow>
    gstep s (s\<lparr>gy_confwait := remove1 h (gy_confwait s), gy_active := A_Conf (options_of (gy_bridge s)) h\<rparr>)"
| g_conf_call: "gy_active s = A_Conf opt h \<Longrightarrow>
    gstep s (s\<lparr>gy_bridge := config_call ok opt h (gy_bridge s), gy_active := A_Free\<rparr>)"
| g_appear: "gy_alive s = None \<Longrightarrow> gstep s (s\<lparr>gy_alive := Some (gy_born s), gy_born := gy_born s + 1\<rparr>)"
| g_link: "gy_connect s = C_Try \<Longrightarrow> gy_alive s = Some h \<Longrightarrow>
    gstep s (s\<lparr>gy_connect := C_Linked h, gy_linked := h # gy_linked s\<rparr>)"
| g_bind: "gy_connect s = C_Linked h \<Longrightarrow> bind_calls ok h a r (gy_bridge s) = (Some ext, b) \<Longrightarrow>
    gstep s (s\<lparr>gy_bridge := b, gy_connect := C_Bound h ext\<rparr>)"
| g_bind_fails: "gy_connect s = C_Linked h \<Longrightarrow> bind_calls ok h a r (gy_bridge s) = (None, b) \<Longrightarrow>
    gstep s (s\<lparr>gy_bridge := b, gy_connect := C_Try\<rparr>)"
| g_publish: "gy_connect s = C_Bound h ext \<Longrightarrow>
    gstep s (s\<lparr>gy_bridge := bind_publish h ext (gy_bridge s), gy_waiting := gy_waiting s + 1, gy_connect := C_Sleep\<rparr>)"
| g_wake: "gy_connect s = C_Sleep \<Longrightarrow> \<not> gb_connected (gy_bridge s) \<Longrightarrow> gstep s (s\<lparr>gy_connect := C_Try\<rparr>)"
| g_die: "gy_alive s = Some h \<Longrightarrow>
    gstep s (s\<lparr>gy_alive := None, gy_deaths := gy_deaths s + count_list (gy_linked s) h, gy_linked := removeAll h (gy_linked s)\<rparr>)"
| g_died: "gy_deaths s = Suc n \<Longrightarrow> gstep s (s\<lparr>gy_bridge := OnHalDied (gy_bridge s), gy_deaths := n\<rparr>)"
| g_other: "\<not> session_call c \<Longrightarrow> gstep s (s\<lparr>gy_bridge := snd (hal ok h c (gy_bridge s))\<rparr>)"
| g_post: "gstep s (s\<lparr>gy_bridge := Post r (gy_bridge s)\<rparr>)"
| g_dispatch: "gstep s (s\<lparr>gy_bridge := dispatch ok (gy_bridge s)\<rparr>)"
| g_callbacks: "gstep s (s\<lparr>gy_bridge := SetCallbacks cbs (gy_bridge s)\<rparr>)"
| g_agnss_callbacks: "gstep s (s\<lparr>gy_bridge := SetAgnssCallbacks cbs (gy_bridge s)\<rparr>)"
| g_begin: "gstep s (s\<lparr>gy_bridge := snd (GnssStart (gy_bridge s))\<rparr>)"

section \<open>What the HAL was last told\<close>

fun cmd_step :: "nat \<Rightarrow> bool option \<Rightarrow> nat \<times> hal_call \<Rightarrow> bool option" where
  "cmd_step h x (h', H_start) = (if h' = h then Some True else x)"
| "cmd_step h x (h', H_stop) = (if h' = h then Some False else x)"
| "cmd_step h x (h', c) = x"

definition last_cmd :: "nat \<Rightarrow> gnss \<Rightarrow> bool option" where
  "last_cmd h b = foldl (cmd_step h) None (gb_calls b)"

fun mode_step :: "nat \<Rightarrow> PositionModeOptions option \<Rightarrow> nat \<times> hal_call \<Rightarrow> PositionModeOptions option" where
  "mode_step h x (h', H_setPositionMode opt) = (if h' = h then Some opt else x)"
| "mode_step h x (h', c) = x"

definition last_mode :: "nat \<Rightarrow> gnss \<Rightarrow> PositionModeOptions option" where
  "last_mode h b = foldl (mode_step h) None (gb_calls b)"

lemma hal_last:
  "last_cmd h (snd (hal ok h' c b)) = cmd_step h (last_cmd h b) (h', c)"
  "last_mode h (snd (hal ok h' c b)) = mode_step h (last_mode h b) (h', c)"
  by (simp_all add: hal_def last_cmd_def last_mode_def)

text \<open>The part of the bridge the session depends on.\<close>

definition view :: "gnss \<Rightarrow> bool \<times> nat option \<times> bool \<times> PositionModeOptions" where
  "view b = (gb_connected b, gb_gnss b, gb_sessionWanted b, options_of b)"

lemma hal_view [simp]: "view (snd (hal ok h c b)) = view b"
  by (simp add: view_def hal_def options_of_def)

definition calm :: "gnss \<Rightarrow> gnss \<Rightarrow> bool" where
  "calm b b' \<longleftrightarrow> view b' = view b \<and> (\<forall>h. last_cmd h b' = last_cmd h b \<and> last_mode h b' = last_mode h b)"

lemma other_step: "\<not> session_call c \<Longrightarrow> cmd_step h x (h', c) = x \<and> mode_step h y (h', c) = y"
  by (cases c) (simp_all add: session_call_def)

lemma calm_hal: "\<not> session_call c \<Longrightarrow> calm b (snd (hal ok h c b))"
  by (simp add: calm_def hal_last other_step)

lemma calm_refl [simp]: "calm b b"
  by (simp add: calm_def)

lemma calm_trans: "calm b b1 \<Longrightarrow> calm b1 b2 \<Longrightarrow> calm b b2"
  by (simp add: calm_def)

lemma no_session_call [simp]:
  "\<not> session_call H_setCallback" "\<not> session_call H_getExtensionAGnss" "\<not> session_call H_getExtensionAGnssRil"
  "\<not> session_call (H_dataConnOpen n apn)" "\<not> session_call H_dataConnClosed"
  by (simp_all add: session_call_def)

lemma calm_via_hal: "hal ok h c b = (x, b') \<Longrightarrow> \<not> session_call c \<Longrightarrow> calm b b'"
  using calm_hal [of c b ok h] by simp

lemma calm_bind_extension: "bind_extension ok h get x b = (y, b') \<Longrightarrow> \<not> session_call get \<Longrightarrow> calm b b'"
  by (auto simp: bind_extension_def intro: calm_trans [OF _ calm_hal]
      split: prod.splits option.splits if_splits dest!: calm_via_hal)

lemma calm_bind: "bind_calls ok h a r b = (x, b') \<Longrightarrow> calm b b'"
  by (auto simp: bind_calls_def intro: calm_trans
      split: prod.splits bool.splits dest!: calm_via_hal calm_bind_extension)

lemma calm_frame: "view b' = view b \<Longrightarrow> gb_calls b' = gb_calls b \<Longrightarrow> calm b b'"
  by (simp add: calm_def last_cmd_def last_mode_def)

lemma calm_post: "calm b (Post r b)"
  by (rule calm_frame) (simp_all add: Post_def Let_def view_def options_of_def)

lemma calm_dispatch: "calm b (dispatch ok b)"
proof -
  have deliver: "calm b (b\<lparr>gb_queue := q, gb_delivered := d\<rparr>)" "calm b (b\<lparr>gb_queue := q\<rparr>)" for q d
    by (rule calm_frame, simp_all add: view_def options_of_def)+
  show ?thesis
    by (auto simp: dispatch_def run_report_def Let_def deliver
        intro: calm_trans [OF deliver(1) calm_hal] calm_trans [OF deliver(2) calm_hal]
        split: list.split gnss_report.split option.split)
qed

lemma calm_callbacks: "calm b (SetCallbacks cbs b)"
  by (rule calm_frame) (simp_all add: SetCallbacks_def view_def options_of_def)

lemma calm_agnss_callbacks: "calm b (SetAgnssCallbacks cbs b)"
  by (rule calm_frame) (simp_all add: SetAgnssCallbacks_def view_def options_of_def)

lemma calm_begin: "calm b (snd (GnssStart b))"
  by (rule calm_frame) (simp_all add: GnssStart_def view_def options_of_def)

lemmas calm_ops = calm_post calm_dispatch calm_callbacks calm_agnss_callbacks calm_begin calm_hal

section \<open>The session follows what is wanted\<close>

text \<open>The HAL runs or will run as wanted: a thread that is about to tell it otherwise is not the last.\<close>

fun cmd_follows :: "nat \<Rightarrow> gnss \<Rightarrow> active \<Rightarrow> bool" where
  "cmd_follows h b (A_Read w opt) \<longleftrightarrow> w = gb_sessionWanted b"
| "cmd_follows h b (A_Hal w opt h') \<longleftrightarrow> w = gb_sessionWanted b \<and> h' = Some h"
| "cmd_follows h b _ \<longleftrightarrow> last_cmd h b = Some (gb_sessionWanted b)"

fun mode_follows :: "nat \<Rightarrow> gnss \<Rightarrow> active \<Rightarrow> bool" where
  "mode_follows h b (A_Read w opt) \<longleftrightarrow> w \<and> opt = options_of b"
| "mode_follows h b (A_Hal w opt h') \<longleftrightarrow> w \<and> opt = options_of b \<and> h' = Some h"
| "mode_follows h b (A_Conf opt h') \<longleftrightarrow> (if h' = h then opt = options_of b else last_mode h b = Some (options_of b))"
| "mode_follows h b A_Free \<longleftrightarrow> last_mode h b = Some (options_of b)"

definition follows_at :: "nat \<Rightarrow> gnss \<Rightarrow> nat \<Rightarrow> nat \<Rightarrow> nat list \<Rightarrow> active \<Rightarrow> bool" where
  "follows_at h b waiting confread confwait act \<longleftrightarrow> 0 < waiting \<or>
     cmd_follows h b act \<and>
     (\<not> gb_sessionWanted b \<or> 0 < confread \<or> h \<in> set confwait \<or> mode_follows h b act)"

definition follows :: "gsys \<Rightarrow> bool" where
  "follows s \<longleftrightarrow> (\<forall>h. Gnss (gy_bridge s) = Some h \<longrightarrow>
     follows_at h (gy_bridge s) (gy_waiting s) (gy_confread s) (gy_confwait s) (gy_active s))"

lemma view_parts:
  "view b' = view b \<Longrightarrow> Gnss b' = Gnss b \<and> gb_sessionWanted b' = gb_sessionWanted b \<and> options_of b' = options_of b"
  by (auto simp: view_def Gnss_def)

lemma calm_follows_at: "calm b b' \<Longrightarrow> follows_at h b' n k ws act = follows_at h b n k ws act"
  using view_parts [of b' b] by (cases act) (auto simp: calm_def follows_at_def)

lemma calm_gnss: "calm b b' \<Longrightarrow> Gnss b' = Gnss b"
  using view_parts [of b' b] by (simp add: calm_def)

lemma calm_follows: "calm (gy_bridge s) b \<Longrightarrow> follows (s\<lparr>gy_bridge := b\<rparr>) = follows s"
  by (simp add: follows_def calm_gnss calm_follows_at)

lemma apply_calls_view: "view (apply_calls ok w opt h b) = view b"
proof (cases h)
  case (Some x)
  let ?b1 = "snd (hal ok x (H_setPositionMode opt) (snd (hal ok x H_setCallback b)))"
  obtain st b2 where "hal ok x H_start ?b1 = (st, b2)" by fastforce
  moreover from this hal_view [of ok x H_start ?b1] have "view b2 = view b" by simp
  ultimately show ?thesis using Some by (simp add: apply_calls_def split: bool.split)
qed (simp add: apply_calls_def)

lemma start_last:
  assumes "hal ok y H_start (snd (hal ok y (H_setPositionMode opt) (snd (hal ok y H_setCallback b)))) = (st, b2)"
  shows "last_cmd x b2 = (if y = x then Some True else last_cmd x b)"
    "last_mode x b2 = (if y = x then Some opt else last_mode x b)"
  using hal_last [of x ok y H_start "snd (hal ok y (H_setPositionMode opt) (snd (hal ok y H_setCallback b)))"] assms
  by (simp_all add: hal_last)

lemma apply_calls_last:
  "last_cmd x (apply_calls ok w opt h b) = (if h = Some x then Some w else last_cmd x b)"
  "last_mode x (apply_calls ok w opt h b) = (if h = Some x \<and> w then Some opt else last_mode x b)"
  by (auto simp: apply_calls_def hal_last start_last split: option.split prod.split bool.split)

lemma apply_follows:
  assumes "gy_active s = A_Hal w opt h" "follows s"
  shows "follows (s\<lparr>gy_bridge := apply_calls ok w opt h (gy_bridge s), gy_active := A_Free\<rparr>)"
  using assms view_parts [OF apply_calls_view [of ok w opt h "gy_bridge s"]]
  by (auto simp: follows_def follows_at_def apply_calls_last)

lemma conf_follows:
  assumes "gy_active s = A_Conf opt h" "follows s"
  shows "follows (s\<lparr>gy_bridge := config_call ok opt h (gy_bridge s), gy_active := A_Free\<rparr>)"
  using assms view_parts [OF hal_view [of ok h "H_setPositionMode opt" "gy_bridge s"]]
  by (auto simp: follows_def follows_at_def config_call_def hal_last)

lemma connect_follows: "follows (s\<lparr>gy_bridge := b, gy_connect := pc\<rparr>) = follows (s\<lparr>gy_bridge := b\<rparr>)"
  by (simp add: follows_def)

lemma config_set_follows:
  assumes "config_set m iv (gy_bridge s) = (running, b)" "follows s"
  shows "follows (s\<lparr>gy_bridge := b, gy_confread := gy_confread s + (if running then 1 else 0)\<rparr>)"
proof -
  have "Gnss b = Gnss (gy_bridge s)" "gb_sessionWanted b = gb_sessionWanted (gy_bridge s)" "gb_calls b = gb_calls (gy_bridge s)"
    "running = gb_sessionWanted b"
    using assms(1) by (auto simp: config_set_def Gnss_def)
  with assms(2) show ?thesis
    by (cases "gy_active s") (auto simp: follows_def follows_at_def last_cmd_def)
qed

lemma step_follows: "gstep s s' \<Longrightarrow> follows s \<Longrightarrow> follows s'"
proof (induction rule: gstep.induct)
  case (g_bind s h ok a r ext b)
  then show ?case using calm_follows [OF calm_bind [OF g_bind(2)]] by (simp add: connect_follows)
next
  case (g_bind_fails s h ok a r b)
  then show ?case using calm_follows [OF calm_bind [OF g_bind_fails(2)]] by (simp add: connect_follows)
next
  case (g_conf_read s h)
  then show ?case by (auto simp: follows_def follows_at_def in_set_remove1)
qed (auto simp: calm_follows calm_ops apply_follows conf_follows config_set_follows,
    auto simp: follows_def follows_at_def want_session_def unwant_session_def apply_read_def Gnss_def options_of_def
      OnHalDied_def bind_publish_def split: if_splits)

lemma reach_follows: "gstep\<^sup>*\<^sup>* gsys_init s \<Longrightarrow> follows s"
proof (induction rule: rtranclp_induct)
  case base
  show ?case by (simp add: follows_def gsys_init_def gnss_init_def Gnss_def)
next
  case (step s t)
  then show ?case by (simp add: step_follows)
qed

text \<open>No thread is inside a session operation.\<close>

definition at_rest :: "gsys \<Rightarrow> bool" where
  "at_rest s \<longleftrightarrow> gy_waiting s = 0 \<and> gy_confread s = 0 \<and> gy_confwait s = [] \<and> gy_active s = A_Free"

text \<open>
  C16: The session the HAL runs is the session that is wanted. However start, stop and configuration calls
  on any threads, the connect thread, the death of the HAL and its return interleave: when no thread is
  inside such a call and the bridge is connected, the last start or stop the HAL in use was given is the
  one wanted, and if a session is wanted, the last position mode it was given is the configured one.
\<close>

theorem gnss_session_converges:
  assumes "gstep\<^sup>*\<^sup>* gsys_init s" "at_rest s" "Gnss (gy_bridge s) = Some h"
  shows "last_cmd h (gy_bridge s) = Some (gb_sessionWanted (gy_bridge s)) \<and>
    (gb_sessionWanted (gy_bridge s) \<longrightarrow> last_mode h (gy_bridge s) = Some (options_of (gy_bridge s)))"
  using reach_follows [OF assms(1)] assms(2,3) by (auto simp: follows_def follows_at_def at_rest_def)

section \<open>A sample run\<close>

definition sample_bound :: gsys where
  "sample_bound = gsys_init\<lparr>gy_alive := Some 0, gy_born := 1, gy_linked := [0], gy_connect := C_Bound 0 (None, None),
     gy_bridge := gnss_init\<lparr>gb_calls := [(0, H_setCallback), (0, H_getExtensionAGnss), (0, H_getExtensionAGnssRil)]\<rparr>\<rparr>"

lemma sample_bound_reached: "gstep\<^sup>*\<^sup>* gsys_init sample_bound"
proof -
  let ?s1 = "gsys_init\<lparr>gy_alive := Some 0, gy_born := 1\<rparr>"
  let ?s2 = "?s1\<lparr>gy_connect := C_Linked 0, gy_linked := [0]\<rparr>"
  have "gstep gsys_init ?s1" using g_appear [of gsys_init] by (simp add: gsys_init_def)
  moreover have "gstep ?s1 ?s2" using g_link [of ?s1 0] by (simp add: gsys_init_def)
  moreover have "bind_calls (\<lambda>_. True) 0 None None gnss_init = (Some (None, None), gy_bridge sample_bound)"
    by (simp add: bind_calls_def bind_extension_def hal_def gnss_init_def sample_bound_def)
  then have "gstep ?s2 sample_bound"
    using g_bind [of ?s2 0 "\<lambda>_. True" None None "(None, None)"] by (simp add: gsys_init_def sample_bound_def)
  ultimately show ?thesis by (meson converse_rtranclp_into_rtranclp rtranclp.rtrancl_refl)
qed

definition sample_rest :: gsys where
  "sample_rest = (let b = bind_publish 0 (None, None) (gy_bridge sample_bound)
     in sample_bound\<lparr>gy_bridge := apply_calls (\<lambda>_. True) False (options_of b) (Some 0) b, gy_connect := C_Sleep\<rparr>)"

lemma sample_rest_reached: "gstep\<^sup>*\<^sup>* gsys_init sample_rest"
proof -
  let ?b = "bind_publish 0 (None, None) (gy_bridge sample_bound)"
  let ?s1 = "sample_bound\<lparr>gy_bridge := ?b, gy_waiting := 1, gy_connect := C_Sleep\<rparr>"
  let ?s2 = "?s1\<lparr>gy_waiting := 0, gy_active := A_Read False (options_of ?b)\<rparr>"
  let ?s3 = "?s2\<lparr>gy_active := A_Hal False (options_of ?b) (Some 0)\<rparr>"
  have "gstep sample_bound ?s1" using g_publish [of sample_bound] by (simp add: sample_bound_def gsys_init_def)
  moreover have "gstep ?s1 ?s2"
    using g_apply_read [of ?s1 0 False "options_of ?b"] by (simp add: sample_bound_def gsys_init_def apply_read_def bind_publish_def gnss_init_def options_of_def)
  moreover have "gstep ?s2 ?s3"
    using g_apply_hal [of ?s2 False "options_of ?b"] by (simp add: sample_bound_def gsys_init_def Gnss_def bind_publish_def)
  moreover have "gstep ?s3 sample_rest"
    using g_apply_calls [of ?s3 False "options_of ?b" "Some 0" "\<lambda>_. True"] by (simp add: sample_rest_def Let_def sample_bound_def gsys_init_def)
  ultimately have "gstep\<^sup>*\<^sup>* sample_bound sample_rest" by (meson converse_rtranclp_into_rtranclp rtranclp.rtrancl_refl)
  with sample_bound_reached show ?thesis by (rule rtranclp_trans)
qed

theorem gnss_session_converges_witness:
  "at_rest sample_rest \<and> last_cmd 0 (gy_bridge sample_rest) = Some (gb_sessionWanted (gy_bridge sample_rest))"
proof
  show rest: "at_rest sample_rest" by (simp add: at_rest_def sample_rest_def Let_def sample_bound_def gsys_init_def)
  have "Gnss (gy_bridge sample_rest) = Some 0"
    by (simp add: sample_rest_def Let_def sample_bound_def apply_calls_def hal_def bind_publish_def Gnss_def)
  with gnss_session_converges [OF sample_rest_reached rest]
  show "last_cmd 0 (gy_bridge sample_rest) = Some (gb_sessionWanted (gy_bridge sample_rest))" by blast
qed

section \<open>A death that is lost\<close>

definition stuck :: "nat \<Rightarrow> gsys \<Rightarrow> bool" where
  "stuck h s \<longleftrightarrow> Gnss (gy_bridge s) = Some h \<and> gy_alive s \<noteq> Some h \<and> h < gy_born s \<and> gy_deaths s = 0 \<and>
     gy_linked s = [] \<and> gy_connect s = C_Sleep"

lemma step_stuck: "gstep s t \<Longrightarrow> stuck h s \<Longrightarrow> stuck h t"
proof (induction rule: gstep.induct)
  case (g_apply_calls s w opt h' ok)
  then show ?case using view_parts [OF apply_calls_view [of ok w opt h' "gy_bridge s"]] by (simp add: stuck_def)
next
  case (g_conf_call s opt h' ok)
  then show ?case using view_parts [OF hal_view [of ok h' "H_setPositionMode opt" "gy_bridge s"]]
    by (simp add: stuck_def config_call_def)
next
  case (g_other c s ok h')
  then show ?case using calm_gnss [OF calm_hal] by (simp add: stuck_def)
next
  case (g_dispatch s ok)
  then show ?case using calm_gnss [OF calm_dispatch] by (simp add: stuck_def)
qed (auto simp: stuck_def want_session_def unwant_session_def config_set_def Gnss_def Post_def Let_def SetCallbacks_def
    SetAgnssCallbacks_def GnssStart_def split: if_splits)

lemma reach_stuck: "gstep\<^sup>*\<^sup>* s t \<Longrightarrow> stuck h s \<Longrightarrow> stuck h t"
  by (induction rule: rtranclp_induct) (auto intro: step_stuck)


section \<open>The report queue\<close>

datatype queue_event = Q_Post gnss_report | Q_Dispatch "nat \<Rightarrow> bool" | Q_SetCallbacks "gnss_member set"
  | Q_SetAgnssCallbacks "gnss_member set"

fun queue_step :: "queue_event \<Rightarrow> gnss \<Rightarrow> gnss" where
  "queue_step (Q_Post r) s = Post r s"
| "queue_step (Q_Dispatch ok) s = dispatch ok s"
| "queue_step (Q_SetCallbacks cbs) s = SetCallbacks cbs s"
| "queue_step (Q_SetAgnssCallbacks cbs) s = SetAgnssCallbacks cbs s"

fun posted :: "queue_event list \<Rightarrow> gnss_report list" where
  "posted [] = []"
| "posted (Q_Post r # es) = r # posted es"
| "posted (_ # es) = posted es"

lemma posted_append: "posted (es @ fs) = posted es @ posted fs"
  by (induction es rule: posted.induct) simp_all

text \<open>What the queue keeps of the reports \<open>ps\<close> posted so far.\<close>

definition queue_inv :: "gnss_report list \<Rightarrow> gnss \<Rightarrow> bool" where
  "queue_inv ps s \<longleftrightarrow> length (gb_queue s) \<le> MAX_QUEUED \<and>
     (\<exists>xs. ps = xs @ gb_queue s \<and> subseq (gb_delivered s) xs)"

lemma run_report_queue: "gb_queue (run_report ok r s) = gb_queue s"
  by (simp add: run_report_def Let_def hal_def split: gnss_report.split option.split)

lemma run_report_delivered:
  "gb_delivered (run_report ok r s) = gb_delivered s \<or> gb_delivered (run_report ok r s) = gb_delivered s @ [r]"
  by (simp add: run_report_def Let_def hal_def split: gnss_report.split option.split)

lemma subseq_snoc: "subseq ds xs \<Longrightarrow> subseq ds (xs @ ys)"
  by (meson subseq_order.dual_order.trans subseq_rev_drop_many)

lemma queue_inv_post: "queue_inv ps s \<Longrightarrow> queue_inv (ps @ [r]) (Post r s)"
proof -
  assume "queue_inv ps s"
  then obtain xs where len: "length (gb_queue s) \<le> MAX_QUEUED" and ps: "ps = xs @ gb_queue s"
    and sub: "subseq (gb_delivered s) xs" by (auto simp: queue_inv_def)
  show ?thesis
  proof (cases "length (gb_queue s) \<ge> MAX_QUEUED")
    case True
    then obtain q qs where q: "gb_queue s = q # qs" by (cases "gb_queue s") (auto simp: MAX_QUEUED_def)
    have "subseq (gb_delivered s) (xs @ [q])" using sub by (rule subseq_snoc)
    then show ?thesis using True len ps q
      by (auto simp: queue_inv_def Post_def Let_def intro!: exI [of _ "xs @ [q]"])
  next
    case False
    then show ?thesis using ps sub by (auto simp: queue_inv_def Post_def Let_def)
  qed
qed

lemma queue_inv_dispatch: "queue_inv ps s \<Longrightarrow> queue_inv ps (dispatch ok s)"
proof (cases "gb_queue s")
  case (Cons r qs)
  assume "queue_inv ps s"
  then obtain xs where *: "length (gb_queue s) \<le> MAX_QUEUED" "ps = xs @ gb_queue s" "subseq (gb_delivered s) xs"
    by (auto simp: queue_inv_def)
  let ?s = "s\<lparr>gb_queue := qs\<rparr>"
  have "subseq (gb_delivered (run_report ok r ?s)) (xs @ [r])"
    using run_report_delivered [of ok r ?s] *(3) by (auto intro: subseq_snoc list_emb_append_mono)
  then show ?thesis using Cons *(1,2)
    by (auto simp: queue_inv_def dispatch_def run_report_queue intro!: exI [of _ "xs @ [r]"])
qed (simp add: dispatch_def)

lemma queue_inv_run: "queue_inv (posted es) (fold queue_step es gnss_init)"
proof (induction es rule: rev_induct)
  case Nil
  show ?case by (simp add: queue_inv_def gnss_init_def)
next
  case (snoc e es)
  then show ?case
    by (cases e) (simp_all add: posted_append queue_inv_post queue_inv_dispatch,
      simp_all add: queue_inv_def SetCallbacks_def SetAgnssCallbacks_def)
qed

text \<open>
  Reports to OHOS are bounded and in order. However posting and dispatching alternate, at most 512
  reports wait, they are the most recently posted ones, and what has been delivered is in the order of
  posting, each report at most once and none after one that still waits.
\<close>

lemma gnss_reports_in_order:
  "length (gb_queue (fold queue_step es gnss_init)) \<le> MAX_QUEUED \<and>
   suffix (gb_queue (fold queue_step es gnss_init)) (posted es) \<and>
   subseq (gb_delivered (fold queue_step es gnss_init) @ gb_queue (fold queue_step es gnss_init)) (posted es)"
  using queue_inv_run [of es] by (auto simp: queue_inv_def suffix_def intro: list_emb_append_mono)

end
