(* ===== verification/Gnss_Adapter.thy ===== *)
theory Gnss_Adapter
  imports Gnss_Run
begin

text \<open>
  The two faces of the positioning bridge. Towards OHOS: the vendor operations of
  \<open>hardware/gnss/src/hybris_gnss_adapter.cpp\<close> and \<open>hybris_gnss_agnss.cpp\<close>. Towards the HAL: the
  callback objects of \<open>hybris_gnss_callbacks.cpp\<close>, which convert a report and post it.

  \<^item> \<open>WaitConnected\<close> lets other threads run; \<open>others\<close> is what they do to the bridge meanwhile.
  \<^item> A \<open>double\<close> is a real number; \<open>flt\<close> is the conversion to \<open>float\<close> and \<open>dbl\<close> that of a 64-bit
    integer to \<open>double\<close>. A pointer that may be null is an option.
  \<^item> \<open>SATELLITE_NUM_MAXIMUM\<close>, a constant of the OHOS header, is the parameter \<open>maximum\<close>.
\<close>

section \<open>From the HAL to OHOS\<close>

definition ToOhosValidity :: "u32 \<Rightarrow> GnssLocationValidity set" where
  "ToOhosValidity flags =
     (if bit flags 0 then {LAT_VALID, LONG_VALID} else {}) \<union>
     (if bit flags 1 then {ALTITUDE_VALID} else {}) \<union>
     (if bit flags 2 then {SPEED_VALID} else {}) \<union>
     (if bit flags 3 then {BEARING_VALID} else {}) \<union>
     (if bit flags 4 then {HORIZONTAL_ACCURACY_VALID} else {}) \<union>
     (if bit flags 5 then {VERTICAL_ACCURACY_VALID} else {}) \<union>
     (if bit flags 6 then {SPEED_ACCURACY_VALID} else {}) \<union>
     (if bit flags 7 then {BEARING_ACCURACY_VALID} else {})"

definition ToOhosCapabilities :: "u32 \<Rightarrow> gnss_capability set" where
  "ToOhosCapabilities caps =
     (if bit caps 1 then {CAP_MSB} else {}) \<union>
     (if bit caps 2 then {CAP_MSA} else {}) \<union>
     (if bit caps 5 then {CAP_GEOFENCING} else {}) \<union>
     (if bit caps 6 then {CAP_MEASUREMENTS} else {}) \<union>
     (if bit caps 7 then {CAP_NAV_MESSAGES} else {})"

definition gnssSetCapabilitiesCb :: "u32 \<Rightarrow> gnss \<Rightarrow> gnss" where
  "gnssSetCapabilitiesCb capabilities = Post (R_capabilities (ToOhosCapabilities capabilities))"

definition gnssStatusCb :: "u32 \<Rightarrow> gnss \<Rightarrow> gnss" where
  "gnssStatusCb status = Post (R_workingStatus (ucast status))"

record AidlSvInfo =
  si_svid :: u32
  si_constellation :: u32
  si_cN0Dbhz :: real
  si_elevationDegrees :: real
  si_azimuthDegrees :: real
  si_carrierFrequencyHz :: int
  si_svFlag :: u32

definition to_ohos_satellite :: "(real \<Rightarrow> real) \<Rightarrow> AidlSvInfo \<Rightarrow> SatelliteStatusInfo" where
  "to_ohos_satellite flt i =
     \<lparr>sv_satelliteId = ucast (si_svid i), sv_constellation = ucast (si_constellation i), sv_cn0 = si_cN0Dbhz i,
      sv_elevation = si_elevationDegrees i, sv_azimuth = si_azimuthDegrees i,
      sv_carrierFrequency = flt (real_of_int (si_carrierFrequencyHz i)), sv_additionalInfo = si_svFlag i\<rparr>"

definition gnssSvStatusCb :: "(real \<Rightarrow> real) \<Rightarrow> nat \<Rightarrow> AidlSvInfo list \<Rightarrow> gnss \<Rightarrow> gnss" where
  "gnssSvStatusCb flt maximum list = Post (R_satellites (map (to_ohos_satellite flt) (take (min (length list) maximum) list)))"

text \<open>A conversion of a floating point number to an integer drops the fraction.\<close>

definition trunc :: "real \<Rightarrow> int" where
  "trunc x = (if x < 0 then \<lceil>x\<rceil> else \<lfloor>x\<rfloor>)"

definition to_ohos_location :: "(real \<Rightarrow> real) \<Rightarrow> AidlLocation \<Rightarrow> OhosLocation" where
  "to_ohos_location flt l =
     (let stamped = bit (al_elapsedFlags l) 0; uncertain = bit (al_elapsedFlags l) 1
      in \<lparr>ol_fieldValidity = ToOhosValidity (al_flags l) \<union> {TIME_VALID} \<union>
            (if stamped then {TIME_SINCE_BOOT_VALID} else {}) \<union> (if uncertain then {TIME_UNCERTAINTY_VALID} else {}),
          ol_latitude = al_latitude l, ol_longitude = al_longitude l, ol_altitude = al_altitude l,
          ol_speed = flt (al_speed l), ol_bearing = flt (al_bearing l),
          ol_horizontalAccuracy = flt (al_horizontalAccuracy l), ol_verticalAccuracy = flt (al_verticalAccuracy l),
          ol_speedAccuracy = flt (al_speedAccuracy l), ol_bearingAccuracy = flt (al_bearingAccuracy l),
          ol_timeForFix = al_timestampMillis l,
          ol_timeSinceBoot = (if stamped then al_timestampNs l else 0),
          ol_timeUncertainty = (if uncertain then word_of_int (trunc (al_timeUncertaintyNs l)) else 0)\<rparr>)"

definition gnssLocationCb :: "(real \<Rightarrow> real) \<Rightarrow> AidlLocation \<Rightarrow> gnss \<Rightarrow> gnss" where
  "gnssLocationCb flt l = Post (R_location (to_ohos_location flt l))"

definition gnssNmeaCb :: "int \<Rightarrow> string \<Rightarrow> gnss \<Rightarrow> gnss" where
  "gnssNmeaCb timestamp nmea = Post (R_nmea timestamp nmea)"

definition PostRefInfoRequest :: "GnssRefInfoCategory \<Rightarrow> gnss \<Rightarrow> gnss" where
  "PostRefInfoRequest category = Post (R_refInfo category)"

definition gnssRequestTimeCb :: "gnss \<Rightarrow> gnss" where
  "gnssRequestTimeCb = PostRefInfoRequest REF_TIME"

definition gnssRequestLocationCb :: "bool \<Rightarrow> bool \<Rightarrow> gnss \<Rightarrow> gnss" where
  "gnssRequestLocationCb independentFromGnss isUserEmergency =
     PostRefInfoRequest
       (if isUserEmergency
        then (if independentFromGnss then REF_BEST_LOCATION_EMERGENCY else REF_GNSS_LOCATION_EMERGENCY)
        else (if independentFromGnss then REF_BEST_LOCATION else REF_GNSS_LOCATION))"

text \<open>\<open>REQUEST_AGNSS_DATA_CONN\<close> is 1, \<open>RELEASE_AGNSS_DATA_CONN\<close> 2.\<close>

definition agnssStatusCb :: "u32 \<Rightarrow> u32 \<Rightarrow> gnss \<Rightarrow> gnss" where
  "agnssStatusCb type status s =
     (if status = 1 then Post (R_dataLink (ucast type) True) s
      else if status = 2 then Post (R_dataLink (ucast type) False) s
      else s)"

definition requestSetIdCb :: "u32 \<Rightarrow> gnss \<Rightarrow> gnss" where
  "requestSetIdCb setIdFlag = Post (R_setid (if bit setIdFlag 0 then SETID_IMSI else SETID_MSISDM))"

definition requestRefLocCb :: "gnss \<Rightarrow> gnss" where
  "requestRefLocCb = Post R_agnssRefInfo"

section \<open>From OHOS to the HAL\<close>

definition flag_if :: "bool \<Rightarrow> u32 \<Rightarrow> u32" where
  "flag_if b v = (if b then v else 0)"

definition ToAidlLocation :: "(real \<Rightarrow> real) \<Rightarrow> OhosLocation \<Rightarrow> AidlLocation" where
  "ToAidlLocation dbl i =
     (let v = ol_fieldValidity i;
          flags = flag_if (LAT_VALID \<in> v \<and> LONG_VALID \<in> v) 1 OR flag_if (ALTITUDE_VALID \<in> v) 2 OR
            flag_if (SPEED_VALID \<in> v) 4 OR flag_if (BEARING_VALID \<in> v) 8 OR
            flag_if (HORIZONTAL_ACCURACY_VALID \<in> v) 16 OR flag_if (VERTICAL_ACCURACY_VALID \<in> v) 32 OR
            flag_if (SPEED_ACCURACY_VALID \<in> v) 64 OR flag_if (BEARING_ACCURACY_VALID \<in> v) 128;
          flags =
            (if v = {} \<and> (ol_latitude i \<noteq> 0 \<or> ol_longitude i \<noteq> 0)
             then flags OR 1 OR flag_if (ol_horizontalAccuracy i > 0) 16 else flags);
          stamped = (ol_timeSinceBoot i \<noteq> 0);
          uncertain = (stamped \<and> ol_timeUncertainty i \<noteq> 0)
      in \<lparr>al_flags = flags, al_latitude = ol_latitude i, al_longitude = ol_longitude i, al_altitude = ol_altitude i,
          al_speed = ol_speed i, al_bearing = ol_bearing i,
          al_horizontalAccuracy = ol_horizontalAccuracy i, al_verticalAccuracy = ol_verticalAccuracy i,
          al_speedAccuracy = ol_speedAccuracy i, al_bearingAccuracy = ol_bearingAccuracy i,
          al_timestampMillis = ol_timeForFix i,
          al_elapsedFlags = flag_if stamped 1 OR flag_if uncertain 2,
          al_timestampNs = (if stamped then ol_timeSinceBoot i else 0),
          al_timeUncertaintyNs = (if uncertain then dbl (real (unat (ol_timeUncertainty i))) else 0)\<rparr>)"

definition WaitConnected :: "(gnss \<Rightarrow> gnss) \<Rightarrow> gnss \<Rightarrow> bool \<times> gnss" where
  "WaitConnected others s = (let s = others (snd (GnssStart s)) in (gb_connected s, s))"

abbreviation VENDOR_OK :: int where "VENDOR_OK \<equiv> 0"

abbreviation VENDOR_FAIL :: int where "VENDOR_FAIL \<equiv> -1"

definition EnableGnss :: "(gnss \<Rightarrow> gnss) \<Rightarrow> gnss_member set option \<Rightarrow> gnss \<Rightarrow> int \<times> gnss" where
  "EnableGnss others callbacks s =
     (case callbacks of
        None \<Rightarrow> (VENDOR_FAIL, s)
      | Some cbs \<Rightarrow>
          (case WaitConnected others (SetCallbacks cbs s) of (up, s) \<Rightarrow>
             if \<not> up \<and> gb_unavailable s then (VENDOR_FAIL, s) else (VENDOR_OK, s)))"

definition DisableGnss :: "(nat \<Rightarrow> bool) \<Rightarrow> gnss \<Rightarrow> int \<times> gnss" where
  "DisableGnss ok s = (VENDOR_OK, Disable ok s)"

datatype GnssStartCategory = START_NORMAL | START_GNSS_CACHE | START_OTHER u32

definition StartGnss :: "(nat \<Rightarrow> bool) \<Rightarrow> GnssStartCategory \<Rightarrow> gnss \<Rightarrow> int \<times> gnss" where
  "StartGnss ok category s = (if category \<noteq> START_NORMAL then (VENDOR_FAIL, s) else StartSession ok s)"

definition StopGnss :: "(nat \<Rightarrow> bool) \<Rightarrow> GnssStartCategory \<Rightarrow> gnss \<Rightarrow> int \<times> gnss" where
  "StopGnss ok category s = (if category \<noteq> START_NORMAL then (VENDOR_OK, s) else StopSession ok s)"

record GnssReferenceInfo =
  ri_time :: "int \<times> int \<times> int"
  ri_location :: OhosLocation

definition inject_call :: "(real \<Rightarrow> real) \<Rightarrow> GnssRefInfoCategory \<Rightarrow> GnssReferenceInfo \<Rightarrow> hal_call option" where
  "inject_call dbl category info =
     (case category of
        REF_TIME \<Rightarrow> (case ri_time info of (t, elapsed, u) \<Rightarrow> Some (H_injectTime t elapsed u))
      | REF_GNSS_LOCATION \<Rightarrow> Some (H_injectLocation (ToAidlLocation dbl (ri_location info)))
      | REF_GNSS_LOCATION_EMERGENCY \<Rightarrow> Some (H_injectLocation (ToAidlLocation dbl (ri_location info)))
      | REF_BEST_LOCATION \<Rightarrow> Some (H_injectBestLocation (ToAidlLocation dbl (ri_location info)))
      | REF_BEST_LOCATION_EMERGENCY \<Rightarrow> Some (H_injectBestLocation (ToAidlLocation dbl (ri_location info)))
      | REF_OTHER \<Rightarrow> None)"

definition InjectsGnssReferenceInfo ::
  "(nat \<Rightarrow> bool) \<Rightarrow> (real \<Rightarrow> real) \<Rightarrow> (gnss \<Rightarrow> gnss) \<Rightarrow> GnssRefInfoCategory \<Rightarrow> GnssReferenceInfo option \<Rightarrow> gnss \<Rightarrow> int \<times> gnss" where
  "InjectsGnssReferenceInfo ok dbl others category info_p s =
     (case info_p of
        None \<Rightarrow> (VENDOR_FAIL, s)
      | Some info \<Rightarrow>
          let s = snd (WaitConnected others s)
          in case Gnss s of
               None \<Rightarrow> (VENDOR_FAIL, s)
             | Some h \<Rightarrow>
                 (case inject_call dbl category info of
                    None \<Rightarrow> (VENDOR_FAIL, s)
                  | Some c \<Rightarrow> (case hal ok h c s of (st, s) \<Rightarrow> (if st then VENDOR_OK else VENDOR_FAIL, s))))"

record GnssConfigParameter =
  cp_startCategory :: GnssStartCategory
  cp_gnssMode :: GnssWorkingMode
  cp_minInterval :: u32

definition SetGnssConfigPara :: "(nat \<Rightarrow> bool) \<Rightarrow> GnssConfigParameter option \<Rightarrow> gnss \<Rightarrow> int \<times> gnss" where
  "SetGnssConfigPara ok para_p s =
     (case para_p of
        None \<Rightarrow> (VENDOR_FAIL, s)
      | Some para \<Rightarrow>
          if cp_startCategory para \<noteq> START_NORMAL then (VENDOR_FAIL, s)
          else (VENDOR_OK, SetPositionConfig ok (cp_gnssMode para) (cp_minInterval para) s))"

text \<open>\<open>GNSS_AUXILIARY_DATA_CATEGORY_ALL\<close> and \<open>GnssAidingData::ALL\<close> are 65535.\<close>

definition aiding_flags :: "u16 \<Rightarrow> u32" where
  "aiding_flags flags =
     (if flags = 0xFFFF then 0xFFFF
      else ucast (flags AND NOT 0x0800 AND 0x07FF) OR (if flags AND 0x0800 \<noteq> 0 then 0x8000 else 0))"

definition RemoveAuxiliaryData :: "(nat \<Rightarrow> bool) \<Rightarrow> u16 \<Rightarrow> gnss \<Rightarrow> gnss" where
  "RemoveAuxiliaryData ok flags s =
     (case Gnss s of
        None \<Rightarrow> s
      | Some h \<Rightarrow> snd (hal ok h (H_deleteAidingData (aiding_flags flags)) s))"

section \<open>Assisted positioning\<close>

definition SetAgnssCallback :: "gnss_member set option \<Rightarrow> gnss \<Rightarrow> bool \<times> gnss" where
  "SetAgnssCallback callbacks s =
     (case callbacks of
        None \<Rightarrow> (False, s)
      | Some cbs \<Rightarrow> (True, snd (GnssStart (SetAgnssCallbacks cbs s))))"

datatype CellIdCategory = CELLID_GSM | CELLID_UMTS | CELLID_LTE | CELLID_NR | CELLID_OTHER u16

definition ToAidlCellType :: "CellIdCategory \<Rightarrow> AGnssRefLocationType" where
  "ToAidlCellType category =
     (case category of
        CELLID_UMTS \<Rightarrow> UMTS_CELLID | CELLID_LTE \<Rightarrow> LTE_CELLID | CELLID_NR \<Rightarrow> NR_CELLID | _ \<Rightarrow> GSM_CELLID)"

record CellId =
  ci_category :: CellIdCategory
  ci_mcc :: u16
  ci_mnc :: u16
  ci_lac :: u16
  ci_cid :: u32
  ci_nci :: u64
  ci_tac :: u16
  ci_pcid :: u16

text \<open>The reference info: a cell, or something \<open>IAGnssRil\<close> does not carry.\<close>

datatype AgnssReferenceInfo = RefCell CellId | RefOther

definition to_ref_location :: "CellId \<Rightarrow> AGnssRefLocation" where
  "to_ref_location i =
     (let type = ToAidlCellType (ci_category i)
      in \<lparr>rl_type = type, rl_mcc = ci_mcc i, rl_mnc = ci_mnc i, rl_lac = ci_lac i,
          rl_cid = (if type = NR_CELLID then sint (ci_nci i) else int (unat (ci_cid i))),
          rl_tac = ci_tac i, rl_pcid = ci_pcid i\<rparr>)"

definition SetAgnssReferenceInfo ::
  "(nat \<Rightarrow> bool) \<Rightarrow> (gnss \<Rightarrow> gnss) \<Rightarrow> AgnssReferenceInfo option \<Rightarrow> gnss \<Rightarrow> bool \<times> gnss" where
  "SetAgnssReferenceInfo ok others refInfo s =
     (case refInfo of
        None \<Rightarrow> (False, s)
      | Some RefOther \<Rightarrow> (True, s)
      | Some (RefCell c) \<Rightarrow>
          let s = snd (WaitConnected others s)
          in case AGnssRil s of
               None \<Rightarrow> (False, s)
             | Some ril \<Rightarrow> hal ok ril (H_setRefLocation (to_ref_location c)) s)"

definition SetSetid :: "(nat \<Rightarrow> bool) \<Rightarrow> (gnss \<Rightarrow> gnss) \<Rightarrow> u16 \<Rightarrow> string option \<Rightarrow> gnss \<Rightarrow> bool \<times> gnss" where
  "SetSetid ok others category setid s =
     (let s = snd (WaitConnected others s)
      in case AGnssRil s of
           None \<Rightarrow> (False, s)
         | Some ril \<Rightarrow>
             let type = (if category = 1 then SETID_IMSI else if category = 2 then SETID_MSISDM else SETID_NONE)
             in hal ok ril (H_setSetId type (case setid of None \<Rightarrow> [] | Some x \<Rightarrow> x)) s)"

definition SetAgnssServer ::
  "(nat \<Rightarrow> bool) \<Rightarrow> (gnss \<Rightarrow> gnss) \<Rightarrow> u16 \<Rightarrow> string option \<Rightarrow> int \<Rightarrow> gnss \<Rightarrow> bool \<times> gnss" where
  "SetAgnssServer ok others category server port s =
     (let s = snd (WaitConnected others s)
      in case (AGnss s, server) of
           (Some a, Some host) \<Rightarrow> hal ok a (H_setServer category host port) s
         | _ \<Rightarrow> (False, s))"

record NetworkState =
  ns_netId :: int
  ns_connected :: bool
  ns_apn :: string

text \<open>The access point name is a buffer of \<open>APN_LENGTH_MAXIMUM\<close> characters, the parameter \<open>maximum\<close>.\<close>

definition to_attributes :: "nat \<Rightarrow> NetworkState \<Rightarrow> NetworkAttributes" where
  "to_attributes maximum st =
     \<lparr>na_networkHandle = ns_netId st, na_isConnected = ns_connected st,
      na_apn = takeWhile (\<lambda>c. c \<noteq> CHR 0x00) (take maximum (ns_apn st))\<rparr>"

definition OnNetworkStateChange :: "(nat \<Rightarrow> bool) \<Rightarrow> nat \<Rightarrow> NetworkState option \<Rightarrow> gnss \<Rightarrow> gnss" where
  "OnNetworkStateChange ok maximum state s =
     (case (state, AGnssRil s) of
        (Some st, Some ril) \<Rightarrow> snd (hal ok ril (H_updateNetworkState (to_attributes maximum st)) s)
      | _ \<Rightarrow> s)"

section \<open>A fix that comes back\<close>

lemma bit_flag_if: "bit (flag_if b (2 ^ k)) n \<longleftrightarrow> b \<and> n = k \<and> k < 32"
  by (auto simp: flag_if_def bit_simps)

lemma flag_if_powers:
  "flag_if b 1 = flag_if b (2 ^ 0)" "flag_if b 2 = flag_if b (2 ^ 1)" "flag_if b 4 = flag_if b (2 ^ 2)"
  "flag_if b 8 = flag_if b (2 ^ 3)" "flag_if b 16 = flag_if b (2 ^ 4)" "flag_if b 32 = flag_if b (2 ^ 5)"
  "flag_if b 64 = flag_if b (2 ^ 6)" "flag_if b 128 = flag_if b (2 ^ 7)"
  by simp_all

lemma flags_of_bits:
  "flag_if (bit f 0) 1 OR flag_if (bit f (Suc 0)) 2 OR flag_if (bit f 2) 4 OR flag_if (bit f 3) 8 OR
   flag_if (bit f 4) 16 OR flag_if (bit f 5) 32 OR flag_if (bit f 6) 64 OR flag_if (bit f 7) 128 = f AND 0xFF"
proof (rule bit_word_eqI)
  fix n assume "n < LENGTH(32)"
  let ?fs = "flag_if (bit f 0) 1 OR flag_if (bit f (Suc 0)) 2 OR flag_if (bit f 2) 4 OR flag_if (bit f 3) 8 OR
      flag_if (bit f 4) 16 OR flag_if (bit f 5) 32 OR flag_if (bit f 6) 64 OR flag_if (bit f 7) 128"
  have flags: "bit ?fs n \<longleftrightarrow> (bit f 0 \<and> n = 0) \<or> (bit f (Suc 0) \<and> n = 1) \<or> (bit f 2 \<and> n = 2) \<or> (bit f 3 \<and> n = 3) \<or>
      (bit f 4 \<and> n = 4) \<or> (bit f 5 \<and> n = 5) \<or> (bit f 6 \<and> n = 6) \<or> (bit f 7 \<and> n = 7)"
    by (simp only: flag_if_powers bit_or_iff bit_flag_if) simp
  have "bit (0xFF :: u32) n \<longleftrightarrow> n < 8"
    using bit_mask_iff [of 8 n, where ?'a = u32] \<open>n < LENGTH(32)\<close> by (simp add: mask_eq_exp_minus_1)
  then have mask: "bit (f AND 0xFF) n \<longleftrightarrow> bit f n \<and> n < 8" by (simp add: bit_and_iff)
  consider "n = 0" | "n = 1" | "n = 2" | "n = 3" | "n = 4" | "n = 5" | "n = 6" | "n = 7" | "8 \<le> n" by linarith
  then show "bit ?fs n = bit (f AND 0xFF) n"
    unfolding flags mask by cases simp_all
qed

lemma validity_members:
  "LAT_VALID \<in> ToOhosValidity f \<longleftrightarrow> bit f 0" "LONG_VALID \<in> ToOhosValidity f \<longleftrightarrow> bit f 0"
  "ALTITUDE_VALID \<in> ToOhosValidity f \<longleftrightarrow> bit f 1" "SPEED_VALID \<in> ToOhosValidity f \<longleftrightarrow> bit f 2"
  "BEARING_VALID \<in> ToOhosValidity f \<longleftrightarrow> bit f 3" "HORIZONTAL_ACCURACY_VALID \<in> ToOhosValidity f \<longleftrightarrow> bit f 4"
  "VERTICAL_ACCURACY_VALID \<in> ToOhosValidity f \<longleftrightarrow> bit f 5" "SPEED_ACCURACY_VALID \<in> ToOhosValidity f \<longleftrightarrow> bit f 6"
  "BEARING_ACCURACY_VALID \<in> ToOhosValidity f \<longleftrightarrow> bit f 7"
  by (simp_all add: ToOhosValidity_def)

lemma location_flags: "al_flags (ToAidlLocation dbl (to_ohos_location flt l)) = al_flags l AND 0xFF"
  by (simp add: ToAidlLocation_def to_ohos_location_def Let_def validity_members flags_of_bits)

lemma elapsed_bit: "bit (flag_if a 1 OR flag_if b 2) 0 = a"
  by (simp add: flag_if_def bit_simps)

text \<open>
  A fix survives the trip through OHOS. What \<open>ToAidlLocation\<close> makes of a location that came from the HAL
  has the HAL's flags, its position, its times and, up to the precision of a \<open>float\<close>, its other fields.
\<close>

lemma gnss_location_roundtrip:
  "al_flags (ToAidlLocation dbl (to_ohos_location flt l)) = al_flags l AND 0xFF \<and>
   al_latitude (ToAidlLocation dbl (to_ohos_location flt l)) = al_latitude l \<and>
   al_longitude (ToAidlLocation dbl (to_ohos_location flt l)) = al_longitude l \<and>
   al_altitude (ToAidlLocation dbl (to_ohos_location flt l)) = al_altitude l \<and>
   al_speed (ToAidlLocation dbl (to_ohos_location flt l)) = flt (al_speed l) \<and>
   al_bearing (ToAidlLocation dbl (to_ohos_location flt l)) = flt (al_bearing l) \<and>
   al_horizontalAccuracy (ToAidlLocation dbl (to_ohos_location flt l)) = flt (al_horizontalAccuracy l) \<and>
   al_verticalAccuracy (ToAidlLocation dbl (to_ohos_location flt l)) = flt (al_verticalAccuracy l) \<and>
   al_speedAccuracy (ToAidlLocation dbl (to_ohos_location flt l)) = flt (al_speedAccuracy l) \<and>
   al_bearingAccuracy (ToAidlLocation dbl (to_ohos_location flt l)) = flt (al_bearingAccuracy l) \<and>
   al_timestampMillis (ToAidlLocation dbl (to_ohos_location flt l)) = al_timestampMillis l \<and>
   al_timestampNs (ToAidlLocation dbl (to_ohos_location flt l)) = (if bit (al_elapsedFlags l) 0 then al_timestampNs l else 0) \<and>
   bit (al_elapsedFlags (ToAidlLocation dbl (to_ohos_location flt l))) 0 = (bit (al_elapsedFlags l) 0 \<and> al_timestampNs l \<noteq> 0)"
  by (intro conjI, rule location_flags)
    (simp_all only: ToAidlLocation_def to_ohos_location_def Let_def AidlLocation.simps OhosLocation.simps elapsed_bit, simp_all)

section \<open>Vendor operations as steps\<close>

text \<open>The operations of the vendor tables, each run by one thread with nothing in between.\<close>

datatype vendor_op = Op_Start GnssStartCategory | Op_Stop GnssStartCategory | Op_Disable
  | Op_Config "GnssConfigParameter option" | Op_Inject GnssRefInfoCategory "GnssReferenceInfo option"
  | Op_RemoveAuxiliaryData u16 | Op_RefInfo "AgnssReferenceInfo option" | Op_Setid u16 "string option"
  | Op_Server u16 "string option" int | Op_Network nat "NetworkState option"

fun vendor_run :: "(nat \<Rightarrow> bool) \<Rightarrow> (real \<Rightarrow> real) \<Rightarrow> vendor_op \<Rightarrow> gnss \<Rightarrow> gnss" where
  "vendor_run ok dbl (Op_Start c) s = snd (StartGnss ok c s)"
| "vendor_run ok dbl (Op_Stop c) s = snd (StopGnss ok c s)"
| "vendor_run ok dbl Op_Disable s = snd (DisableGnss ok s)"
| "vendor_run ok dbl (Op_Config p) s = snd (SetGnssConfigPara ok p s)"
| "vendor_run ok dbl (Op_Inject c i) s = snd (InjectsGnssReferenceInfo ok dbl id c i s)"
| "vendor_run ok dbl (Op_RemoveAuxiliaryData f) s = RemoveAuxiliaryData ok f s"
| "vendor_run ok dbl (Op_RefInfo i) s = snd (SetAgnssReferenceInfo ok id i s)"
| "vendor_run ok dbl (Op_Setid c i) s = snd (SetSetid ok id c i s)"
| "vendor_run ok dbl (Op_Server c h p) s = snd (SetAgnssServer ok id c h p s)"
| "vendor_run ok dbl (Op_Network m st) s = OnNetworkStateChange ok m st s"

lemma apply_steps:
  assumes "gy_active s = A_Free"
  shows "gstep\<^sup>*\<^sup>* (s\<lparr>gy_waiting := gy_waiting s + 1\<rparr>) (s\<lparr>gy_bridge := ApplySession ok (gy_bridge s)\<rparr>)"
proof -
  obtain w opt where r: "apply_read (gy_bridge s) = (w, opt)" by fastforce
  let ?s0 = "s\<lparr>gy_waiting := gy_waiting s + 1\<rparr>"
  let ?s1 = "?s0\<lparr>gy_waiting := gy_waiting s, gy_active := A_Read w opt\<rparr>"
  let ?s2 = "?s1\<lparr>gy_active := A_Hal w opt (Gnss (gy_bridge ?s1))\<rparr>"
  let ?s3 = "?s2\<lparr>gy_bridge := apply_calls ok w opt (Gnss (gy_bridge ?s1)) (gy_bridge ?s2), gy_active := A_Free\<rparr>"
  have "gstep ?s0 ?s1" using g_apply_read [of ?s0 "gy_waiting s" w opt] assms r by simp
  moreover have "gstep ?s1 ?s2" using g_apply_hal [of ?s1 w opt] by simp
  moreover have "gstep ?s2 ?s3" using g_apply_calls [of ?s2 w opt "Gnss (gy_bridge ?s1)" ok] by simp
  moreover have "?s3 = s\<lparr>gy_bridge := ApplySession ok (gy_bridge s)\<rparr>"
    using assms r by (simp add: ApplySession_def)
  ultimately show ?thesis by (metis (no_types, lifting) converse_rtranclp_into_rtranclp rtranclp.rtrancl_refl)
qed

lemma start_steps:
  assumes "gy_active s = A_Free"
  shows "gstep\<^sup>*\<^sup>* s (s\<lparr>gy_bridge := snd (StartSession ok (gy_bridge s))\<rparr>)"
proof (cases "gb_unavailable (gy_bridge s)")
  case True
  then show ?thesis by (simp add: StartSession_def want_session_def)
next
  case False
  then obtain b where b: "want_session (gy_bridge s) = (True, b)" by (simp add: want_session_def)
  then have "gstep s (s\<lparr>gy_bridge := b, gy_waiting := gy_waiting s + 1\<rparr>)" by (rule g_start)
  with apply_steps [of "s\<lparr>gy_bridge := b\<rparr>" ok] assms b show ?thesis
    by (simp add: StartSession_def converse_rtranclp_into_rtranclp)
qed

lemma stop_steps:
  assumes "gy_active s = A_Free"
  shows "gstep\<^sup>*\<^sup>* s (s\<lparr>gy_bridge := snd (StopSession ok (gy_bridge s))\<rparr>)"
  using g_stop [of s] apply_steps [of "s\<lparr>gy_bridge := unwant_session (gy_bridge s)\<rparr>" ok] assms
  by (simp add: StopSession_def converse_rtranclp_into_rtranclp)

lemma config_steps:
  assumes "gy_active s = A_Free"
  shows "gstep\<^sup>*\<^sup>* s (s\<lparr>gy_bridge := SetPositionConfig ok m iv (gy_bridge s)\<rparr>)"
proof -
  obtain running b where c: "config_set m iv (gy_bridge s) = (running, b)" by fastforce
  let ?s1 = "s\<lparr>gy_bridge := b, gy_confread := gy_confread s + (if running then 1 else 0)\<rparr>"
  have 1: "gstep s ?s1" using c by (rule g_conf_set)
  show ?thesis
  proof (cases "running")
    case False
    with 1 c show ?thesis by (auto simp: SetPositionConfig_def split: option.split)
  next
    case True
    show ?thesis
    proof (cases "Gnss b")
      case None
      then have "gstep ?s1 (s\<lparr>gy_bridge := b\<rparr>)"
        using g_conf_none [of ?s1 "gy_confread s"] True by simp
      with 1 c True None show ?thesis
        by (simp add: SetPositionConfig_def converse_rtranclp_into_rtranclp r_into_rtranclp)
    next
      case (Some h)
      let ?s2 = "s\<lparr>gy_bridge := b, gy_confwait := h # gy_confwait s\<rparr>"
      let ?s3 = "s\<lparr>gy_bridge := b, gy_active := A_Conf (options_of b) h\<rparr>"
      let ?s4 = "s\<lparr>gy_bridge := config_call ok (options_of b) h b\<rparr>"
      have "gstep ?s1 ?s2" using g_conf_hal [of ?s1 "gy_confread s" h] True Some by simp
      moreover have "gstep ?s2 ?s3" using g_conf_read [of ?s2 h] assms by simp
      moreover have "gstep ?s3 ?s4" using g_conf_call [of ?s3 "options_of b" h ok] assms by (cases s) simp
      ultimately have "gstep\<^sup>*\<^sup>* s ?s4" using 1
        by (metis (no_types, lifting) converse_rtranclp_into_rtranclp rtranclp.rtrancl_refl)
      with c True Some show ?thesis by (simp add: SetPositionConfig_def)
    qed
  qed
qed

lemma begin_steps: "gstep\<^sup>*\<^sup>* s (s\<lparr>gy_bridge := snd (GnssStart (gy_bridge s))\<rparr>)"
  using g_begin [of s] by blast

lemma inject_no_session: "inject_call dbl c i = Some x \<Longrightarrow> \<not> session_call x"
  by (auto simp: inject_call_def session_call_def split: GnssRefInfoCategory.splits prod.splits)

lemma other_no_session [simp]:
  "\<not> session_call (H_deleteAidingData f)" "\<not> session_call (H_setRefLocation r)" "\<not> session_call (H_setSetId i x)"
  "\<not> session_call (H_setServer c h p)" "\<not> session_call (H_updateNetworkState a)"
  by (simp_all add: session_call_def)

lemma call_steps: "\<not> session_call c \<Longrightarrow> gstep\<^sup>*\<^sup>* s (s\<lparr>gy_bridge := snd (hal ok h c (gy_bridge s))\<rparr>)"
  using g_other [of c s ok h] by blast

lemma begin_then_call:
  assumes "\<not> session_call c"
  shows "gstep\<^sup>*\<^sup>* s (s\<lparr>gy_bridge := snd (hal ok h c (snd (GnssStart (gy_bridge s))))\<rparr>)"
  using g_begin [of s] g_other [OF assms, of "s\<lparr>gy_bridge := snd (GnssStart (gy_bridge s))\<rparr>" ok h]
  by (auto intro: converse_rtranclp_into_rtranclp)



end
