(* ===== verification/Gnss_Legacy.thy ===== *)
theory Gnss_Legacy
  imports Gnss_Adapter
begin

text \<open>
  The legacy backend of the positioning bridge (\<open>hardware/gnss/src/hybris_gnss_legacy.cpp\<close>): the
  vendor's GPS module behind the AIDL interfaces the bridge calls.

  \<^item> \<open>legacy\<close> is the process-wide \<open>LegacyState\<close> with the once flags of the three classes; \<open>lg_calls\<close>
    records the calls made on the module. What the module returns is given by \<open>ret\<close>, a function of
    the number of calls made before; \<open>gps_features\<close> says which optional functions it has.
  \<^item> \<open>LegacyGnss\<close>, \<open>LegacyAGnss\<close> and \<open>LegacyAGnssRil\<close> are the classes: what each does with a call of
    its interface. The result is 0 for \<open>ScopedAStatus::ok\<close>.
  \<^item> Loading the module is a parameter of \<open>ConnectLegacy\<close>; the threads it creates are left out.
\<close>

section \<open>State\<close>

record AGpsRefLocation =
  ar_type :: u16
  ar_mcc :: u16
  ar_mnc :: u16
  ar_lac :: u16
  ar_cid :: u32
  ar_tac :: u16
  ar_pcid :: u16

datatype gps_call = L_init | L_start | L_stop | L_set_position_mode GnssPositionMode u32
  | L_inject_time int int int | L_inject_location real real real | L_inject_fused_location real real real
  | L_delete_aiding_data u16
  | L_agps_init | L_data_conn_open string | L_data_conn_open_with_apn_ip_type int string | L_data_conn_closed
  | L_set_server u16 string int
  | L_ril_init | L_set_ref_location AGpsRefLocation | L_set_set_id SetIdType string
  | L_update_network_state_ext int bool string

record legacy =
  lg_gnssCb :: bool
  lg_agnssCb :: bool
  lg_rilCb :: bool
  lg_initOnce :: bool
  lg_agpsInitOnce :: bool
  lg_rilInitOnce :: bool
  lg_calls :: "gps_call list"

record gps_features =
  gf_fused :: bool
  gf_apn_ip_type :: bool
  gf_network_ext :: bool

definition legacy_init :: legacy where
  "legacy_init = \<lparr>lg_gnssCb = False, lg_agnssCb = False, lg_rilCb = False, lg_initOnce = False,
     lg_agpsInitOnce = False, lg_rilInitOnce = False, lg_calls = []\<rparr>"

definition gps :: "(nat \<Rightarrow> int) \<Rightarrow> gps_call \<Rightarrow> legacy \<Rightarrow> int \<times> legacy" where
  "gps ret c s = (ret (length (lg_calls s)), s\<lparr>lg_calls := lg_calls s @ [c]\<rparr>)"

section \<open>From the bridge to the module\<close>

definition LegacyGnss :: "(nat \<Rightarrow> int) \<Rightarrow> gps_features \<Rightarrow> hal_call \<Rightarrow> legacy \<Rightarrow> int \<times> legacy" where
  "LegacyGnss ret gf c s =
     (case c of
        H_setCallback \<Rightarrow>
          let s = s\<lparr>lg_gnssCb := True\<rparr>
          in if lg_initOnce s then (0, s) else gps ret L_init (s\<lparr>lg_initOnce := True\<rparr>)
      | H_start \<Rightarrow> gps ret L_start s
      | H_stop \<Rightarrow> gps ret L_stop s
      | H_setPositionMode options \<Rightarrow> gps ret (L_set_position_mode (po_mode options) (po_minIntervalMs options)) s
      | H_injectTime t r u \<Rightarrow> gps ret (L_inject_time t r u) s
      | H_injectLocation l \<Rightarrow>
          gps ret (L_inject_location (al_latitude l) (al_longitude l) (al_horizontalAccuracy l)) s
      | H_injectBestLocation l \<Rightarrow>
          gps ret ((if gf_fused gf then L_inject_fused_location else L_inject_location)
            (al_latitude l) (al_longitude l) (al_horizontalAccuracy l)) s
      | H_deleteAidingData flags \<Rightarrow> (0, snd (gps ret (L_delete_aiding_data (ucast (flags AND 0xFFFF))) s))
      | _ \<Rightarrow> (0, s))"

definition LegacyAGnss :: "(nat \<Rightarrow> int) \<Rightarrow> gps_features \<Rightarrow> hal_call \<Rightarrow> legacy \<Rightarrow> int \<times> legacy" where
  "LegacyAGnss ret gf c s =
     (case c of
        H_setCallback \<Rightarrow>
          let s = s\<lparr>lg_agnssCb := True\<rparr>
          in (0, if lg_agpsInitOnce s then s else snd (gps ret L_agps_init (s\<lparr>lg_agpsInitOnce := True\<rparr>)))
      | H_dataConnClosed \<Rightarrow> gps ret L_data_conn_closed s
      | H_setServer type hostname port \<Rightarrow> gps ret (L_set_server type hostname port) s
      | H_dataConnOpen networkHandle apn \<Rightarrow>
          gps ret (if gf_apn_ip_type gf then L_data_conn_open_with_apn_ip_type networkHandle apn else L_data_conn_open apn) s
      | _ \<Rightarrow> (0, s))"

definition cell_type :: "AGnssRefLocationType \<Rightarrow> u16" where
  "cell_type t = (case t of GSM_CELLID \<Rightarrow> 1 | UMTS_CELLID \<Rightarrow> 2 | LTE_CELLID \<Rightarrow> 4 | NR_CELLID \<Rightarrow> 8)"

definition to_gps_ref :: "AGnssRefLocation \<Rightarrow> AGpsRefLocation" where
  "to_gps_ref r =
     \<lparr>ar_type = cell_type (rl_type r), ar_mcc = rl_mcc r, ar_mnc = rl_mnc r, ar_lac = rl_lac r,
      ar_cid = word_of_int (rl_cid r), ar_tac = rl_tac r, ar_pcid = rl_pcid r\<rparr>"

definition LegacyAGnssRil :: "(nat \<Rightarrow> int) \<Rightarrow> gps_features \<Rightarrow> hal_call \<Rightarrow> legacy \<Rightarrow> int \<times> legacy" where
  "LegacyAGnssRil ret gf c s =
     (case c of
        H_setCallback \<Rightarrow>
          let s = s\<lparr>lg_rilCb := True\<rparr>
          in (0, if lg_rilInitOnce s then s else snd (gps ret L_ril_init (s\<lparr>lg_rilInitOnce := True\<rparr>)))
      | H_setRefLocation r \<Rightarrow> (0, snd (gps ret (L_set_ref_location (to_gps_ref r)) s))
      | H_setSetId type setid \<Rightarrow> (0, snd (gps ret (L_set_set_id type setid) s))
      | H_updateNetworkState a \<Rightarrow>
          (0, if gf_network_ext gf
              then snd (gps ret (L_update_network_state_ext (na_networkHandle a) (na_isConnected a) (na_apn a)) s) else s)
      | _ \<Rightarrow> (0, s))"

section \<open>From the module to the bridge\<close>

record GpsLocation_ext =
  gl_flags :: u16
  gl_latitude :: real
  gl_longitude :: real
  gl_altitude :: real
  gl_speed :: real
  gl_bearing :: real
  gl_accuracy :: real
  gl_timestamp :: int
  gl_horizontalAccuracyMeters :: real
  gl_verticalAccuracyMeters :: real
  gl_speedAccuracyMetersPerSecond :: real
  gl_bearingAccuracyDegrees :: real
  gl_elapsedFlags :: u16
  gl_timestampNs :: u64
  gl_timeUncertaintyNs :: u64

definition from_gps_location :: "(real \<Rightarrow> real) \<Rightarrow> GpsLocation_ext \<Rightarrow> AidlLocation" where
  "from_gps_location dbl i =
     (let f = gl_flags i
      in \<lparr>al_flags = flag_if (bit f 0) 1 OR flag_if (bit f 1) 2 OR flag_if (bit f 2) 4 OR flag_if (bit f 3) 8 OR
            flag_if (bit f 4) 16 OR flag_if (bit f 5) 32 OR flag_if (bit f 6) 64 OR flag_if (bit f 7) 128,
          al_latitude = gl_latitude i, al_longitude = gl_longitude i, al_altitude = gl_altitude i,
          al_speed = gl_speed i, al_bearing = gl_bearing i,
          al_horizontalAccuracy =
            (if gl_horizontalAccuracyMeters i > 0 then gl_horizontalAccuracyMeters i else gl_accuracy i),
          al_verticalAccuracy = gl_verticalAccuracyMeters i,
          al_speedAccuracy = gl_speedAccuracyMetersPerSecond i, al_bearingAccuracy = gl_bearingAccuracyDegrees i,
          al_timestampMillis = gl_timestamp i, al_elapsedFlags = ucast (gl_elapsedFlags i),
          al_timestampNs = gl_timestampNs i, al_timeUncertaintyNs = dbl (real (unat (gl_timeUncertaintyNs i)))\<rparr>)"

definition LocationCb ::
  "(real \<Rightarrow> real) \<Rightarrow> (real \<Rightarrow> real) \<Rightarrow> GpsLocation_ext option \<Rightarrow> legacy \<Rightarrow> gnss \<Rightarrow> gnss" where
  "LocationCb flt dbl in_p l s =
     (case in_p of
        Some i \<Rightarrow> if lg_gnssCb l then gnssLocationCb flt (from_gps_location dbl i) s else s
      | None \<Rightarrow> s)"

definition StatusCb :: "u16 option \<Rightarrow> legacy \<Rightarrow> gnss \<Rightarrow> gnss" where
  "StatusCb status_p l s =
     (case status_p of
        Some status \<Rightarrow> if lg_gnssCb l then gnssStatusCb (ucast status) s else s
      | None \<Rightarrow> s)"

definition NmeaCb :: "int \<Rightarrow> string option \<Rightarrow> int \<Rightarrow> legacy \<Rightarrow> gnss \<Rightarrow> gnss" where
  "NmeaCb timestamp nmea_p len l s =
     (case nmea_p of
        Some nmea \<Rightarrow>
          if len \<le> 0 \<or> \<not> lg_gnssCb l then s
          else gnssNmeaCb timestamp (takeWhile (\<lambda>c. c \<noteq> CHR 0x00) (take (nat len) nmea)) s
      | None \<Rightarrow> s)"

definition SetCapabilitiesCb :: "u32 \<Rightarrow> legacy \<Rightarrow> gnss \<Rightarrow> gnss" where
  "SetCapabilitiesCb capabilities l s = (if lg_gnssCb l then gnssSetCapabilitiesCb capabilities s else s)"

definition RequestUtcTimeCb :: "legacy \<Rightarrow> gnss \<Rightarrow> gnss" where
  "RequestUtcTimeCb l s = (if lg_gnssCb l then gnssRequestTimeCb s else s)"

definition RequestLocationCb :: "bool \<Rightarrow> bool \<Rightarrow> legacy \<Rightarrow> gnss \<Rightarrow> gnss" where
  "RequestLocationCb independentFromGnss isUserEmergency l s =
     (if lg_gnssCb l then gnssRequestLocationCb independentFromGnss isUserEmergency s else s)"

definition AGpsStatusCb :: "(u16 \<times> u16) option \<Rightarrow> legacy \<Rightarrow> gnss \<Rightarrow> gnss" where
  "AGpsStatusCb status_p l s =
     (case status_p of
        Some (type, status) \<Rightarrow> if lg_agnssCb l then agnssStatusCb (ucast type) (ucast status) s else s
      | None \<Rightarrow> s)"

definition RilRequestSetIdCb :: "u32 \<Rightarrow> legacy \<Rightarrow> gnss \<Rightarrow> gnss" where
  "RilRequestSetIdCb flags l s = (if lg_rilCb l then requestSetIdCb flags s else s)"

definition RilRequestRefLocCb :: "legacy \<Rightarrow> gnss \<Rightarrow> gnss" where
  "RilRequestRefLocCb l s = (if lg_rilCb l then requestRefLocCb s else s)"

record GnssSvInfo_ext =
  gs_svid :: u16
  gs_constellation :: u8
  gs_c_n0_dbhz :: real
  gs_elevation :: real
  gs_azimuth :: real
  gs_flags :: u8
  gs_carrier_frequency :: real

definition MTK_MAX_SV_COUNT :: int where "MTK_MAX_SV_COUNT = 195"

definition from_gps_sv :: "GnssSvInfo_ext \<Rightarrow> AidlSvInfo" where
  "from_gps_sv sv =
     \<lparr>si_svid = scast (gs_svid sv), si_constellation = ucast (gs_constellation sv), si_cN0Dbhz = gs_c_n0_dbhz sv,
      si_elevationDegrees = gs_elevation sv, si_azimuthDegrees = gs_azimuth sv,
      si_carrierFrequencyHz = trunc (gs_carrier_frequency sv), si_svFlag = ucast (gs_flags sv)\<rparr>"

text \<open>The satellites the loop reads; \<open>None\<close> is a read past the end of the array \<open>svs\<close>.\<close>

fun read_svs :: "GnssSvInfo_ext list \<Rightarrow> nat \<Rightarrow> nat \<Rightarrow> AidlSvInfo list option" where
  "read_svs svs i 0 = Some []"
| "read_svs svs i (Suc n) =
     (if i < length svs then map_option ((#) (from_gps_sv (svs ! i))) (read_svs svs (i + 1) n) else None)"

definition clamp_count :: "int \<Rightarrow> int" where
  "clamp_count num =
     (let count = (if num < 0 then 0 else num)
      in if count > MTK_MAX_SV_COUNT then MTK_MAX_SV_COUNT else count)"

definition GnssSvStatusCb ::
  "(real \<Rightarrow> real) \<Rightarrow> nat \<Rightarrow> (int \<times> GnssSvInfo_ext list) option \<Rightarrow> legacy \<Rightarrow> gnss \<Rightarrow> gnss option" where
  "GnssSvStatusCb flt maximum status_p l s =
     (case status_p of
        None \<Rightarrow> Some s
      | Some (num_svs, svs) \<Rightarrow>
          if \<not> lg_gnssCb l then Some s
          else map_option (\<lambda>list. gnssSvStatusCb flt maximum list s) (read_svs svs 0 (nat (clamp_count num_svs))))"

section \<open>The backend does what the bridge asks\<close>

fun to_gps :: "hal_call \<Rightarrow> gps_call list" where
  "to_gps H_start = [L_start]"
| "to_gps H_stop = [L_stop]"
| "to_gps (H_setPositionMode options) = [L_set_position_mode (po_mode options) (po_minIntervalMs options)]"
| "to_gps _ = []"

fun gps_session :: "gps_call \<Rightarrow> bool" where
  "gps_session L_start = True"
| "gps_session L_stop = True"
| "gps_session (L_set_position_mode m i) = True"
| "gps_session _ = False"

definition legacy_run :: "(nat \<Rightarrow> int) \<Rightarrow> gps_features \<Rightarrow> hal_call list \<Rightarrow> legacy" where
  "legacy_run ret gf cs = foldl (\<lambda>s c. snd (LegacyGnss ret gf c s)) legacy_init cs"

lemma LegacyGnss_session:
  "filter gps_session (lg_calls (snd (LegacyGnss ret gf c s))) = filter gps_session (lg_calls s) @ to_gps c"
  by (cases c) (simp_all add: LegacyGnss_def gps_def Let_def)

lemma LegacyGnss_once:
  "lg_initOnce (snd (LegacyGnss ret gf c s)) = (lg_initOnce s \<or> c = H_setCallback)"
  "count_list (lg_calls (snd (LegacyGnss ret gf c s))) L_init =
     count_list (lg_calls s) L_init + (if c = H_setCallback \<and> \<not> lg_initOnce s then 1 else 0)"
  by (cases c; simp add: LegacyGnss_def gps_def Let_def)+

lemma legacy_run_snoc: "legacy_run ret gf (cs @ [c]) = snd (LegacyGnss ret gf c (legacy_run ret gf cs))"
  by (simp add: legacy_run_def)

lemma legacy_run_once: "lg_initOnce (legacy_run ret gf cs) = (H_setCallback \<in> set cs)"
  by (induction cs rule: rev_induct) (auto simp: legacy_run_snoc LegacyGnss_once, simp add: legacy_run_def legacy_init_def)

text \<open>
  The legacy backend drives the vendor's module as the bridge drives a HAL. Whatever calls the bridge
  makes and whatever the module answers, the module is initialised exactly once if a callback was ever
  set and never otherwise, and it is given exactly the start, stop and mode calls, in their order.
\<close>

lemma legacy_backend_faithful:
  "count_list (lg_calls (legacy_run ret gf cs)) L_init = (if H_setCallback \<in> set cs then 1 else 0) \<and>
   filter gps_session (lg_calls (legacy_run ret gf cs)) = concat (map to_gps cs)"
proof (induction cs rule: rev_induct)
  case Nil
  show ?case by (simp add: legacy_run_def legacy_init_def)
next
  case (snoc c cs)
  then show ?case
    by (simp add: legacy_run_snoc LegacyGnss_session LegacyGnss_once legacy_run_once split: if_splits)
qed

lemma read_svs_all: "i + n \<le> length svs \<Longrightarrow> read_svs svs i n = Some (map from_gps_sv (take n (drop i svs)))"
proof (induction n arbitrary: i)
  case (Suc n)
  then show ?case by (simp add: Cons_nth_drop_Suc [symmetric] take_Suc_Cons)
qed simp

text \<open>
  A satellite report never reads past the module's array of 195 entries, whatever count it carries, and
  what is posted has one entry per satellite up to OHOS's maximum, in order.
\<close>

lemma legacy_sv_in_bounds:
  assumes "length svs = nat MTK_MAX_SV_COUNT" "lg_gnssCb l"
  shows "GnssSvStatusCb flt maximum (Some (num, svs)) l s =
    Some (Post (R_satellites (map (to_ohos_satellite flt \<circ> from_gps_sv) (take (min (nat (clamp_count num)) maximum) svs))) s)"
proof -
  have "nat (clamp_count num) \<le> length svs" using assms(1) by (auto simp: clamp_count_def Let_def MTK_MAX_SV_COUNT_def)
  then show ?thesis using assms(2) read_svs_all [of 0 "nat (clamp_count num)" svs]
    by (simp add: GnssSvStatusCb_def gnssSvStatusCb_def take_map min.commute)
qed

end
