(* ===== verification/Sha256.thy ===== *)
theory Sha256
  imports Prelude
begin

text \<open>
  The SHA-256 of the container launcher (\<open>waydroid/launcher/waydroidd.c\<close>), which has no library to
  take it from, against a definition that follows FIPS 180-4.

  \<^item> \<open>sha256\<close> is \<open>struct sha256\<close>, \<open>sh_buf\<close> its 64-byte buffer. A copy past the end of the buffer, or a
    read past the end of the padding, is the result \<open>None\<close>.
  \<^item> \<open>fips_sha256\<close> is the standard's: pad the whole message, cut it into blocks, compress them in order.
\<close>

section \<open>The code\<close>

record sha256 =
  sh_h :: "u32 list"
  sh_len :: u64
  sh_buf :: bytes
  sh_fill :: nat

definition sha256_k :: "u32 list" where
  "sha256_k = concat
     [[0x428a2f98, 0x71374491, 0xb5c0fbcf, 0xe9b5dba5, 0x3956c25b, 0x59f111f1],
      [0x923f82a4, 0xab1c5ed5, 0xd807aa98, 0x12835b01, 0x243185be, 0x550c7dc3],
      [0x72be5d74, 0x80deb1fe, 0x9bdc06a7, 0xc19bf174, 0xe49b69c1, 0xefbe4786],
      [0x0fc19dc6, 0x240ca1cc, 0x2de92c6f, 0x4a7484aa, 0x5cb0a9dc, 0x76f988da],
      [0x983e5152, 0xa831c66d, 0xb00327c8, 0xbf597fc7, 0xc6e00bf3, 0xd5a79147],
      [0x06ca6351, 0x14292967, 0x27b70a85, 0x2e1b2138, 0x4d2c6dfc, 0x53380d13],
      [0x650a7354, 0x766a0abb, 0x81c2c92e, 0x92722c85, 0xa2bfe8a1, 0xa81a664b],
      [0xc24b8b70, 0xc76c51a3, 0xd192e819, 0xd6990624, 0xf40e3585, 0x106aa070],
      [0x19a4c116, 0x1e376c08, 0x2748774c, 0x34b0bcb5, 0x391c0cb3, 0x4ed8aa4a],
      [0x5b9cca4f, 0x682e6ff3, 0x748f82ee, 0x78a5636f, 0x84c87814, 0x8cc70208],
      [0x90befffa, 0xa4506ceb, 0xbef9a3f7, 0xc67178f2]]"

definition SHA_ROR :: "u32 \<Rightarrow> nat \<Rightarrow> u32" where
  "SHA_ROR x n = drop_bit n x OR push_bit (32 - n) x"

text \<open>The first loop of \<open>sha256_block\<close> loads the words, the second expands them.\<close>

definition sha_load :: "bytes \<Rightarrow> nat \<Rightarrow> u32" where
  "sha_load p i = be_word32 (p ! (4 * i)) (p ! (4 * i + 1)) (p ! (4 * i + 2)) (p ! (4 * i + 3))"

definition sha_expand :: "u32 list \<Rightarrow> nat \<Rightarrow> u32 list" where
  "sha_expand w i =
     (let s0 = SHA_ROR (w ! (i - 15)) 7 XOR SHA_ROR (w ! (i - 15)) 18 XOR drop_bit 3 (w ! (i - 15));
          s1 = SHA_ROR (w ! (i - 2)) 17 XOR SHA_ROR (w ! (i - 2)) 19 XOR drop_bit 10 (w ! (i - 2))
      in w @ [w ! (i - 16) + s0 + w ! (i - 7) + s1])"

definition sha_words :: "bytes \<Rightarrow> u32 list" where
  "sha_words p = foldl sha_expand (map (sha_load p) [0..<16]) [16..<64]"

type_synonym sha_vars = "u32 \<times> u32 \<times> u32 \<times> u32 \<times> u32 \<times> u32 \<times> u32 \<times> u32"

definition sha_round :: "u32 list \<Rightarrow> sha_vars \<Rightarrow> nat \<Rightarrow> sha_vars" where
  "sha_round w v i =
     (case v of (a, b, c, d, e, f, g, h) \<Rightarrow>
        let t1 = h + (SHA_ROR e 6 XOR SHA_ROR e 11 XOR SHA_ROR e 25) + ((e AND f) XOR (NOT e AND g)) + sha256_k ! i + w ! i;
            t2 = (SHA_ROR a 2 XOR SHA_ROR a 13 XOR SHA_ROR a 22) + ((a AND b) XOR (a AND c) XOR (b AND c))
        in (t1 + t2, a, b, c, d + t1, e, f, g))"

definition sha256_block :: "sha256 \<Rightarrow> bytes \<Rightarrow> sha256" where
  "sha256_block s p =
     (let w = sha_words p; H = sh_h s
      in case foldl (sha_round w) (H ! 0, H ! 1, H ! 2, H ! 3, H ! 4, H ! 5, H ! 6, H ! 7) [0..<64] of
           (a, b, c, d, e, f, g, h) \<Rightarrow>
             s\<lparr>sh_h := [H ! 0 + a, H ! 1 + b, H ! 2 + c, H ! 3 + d, H ! 4 + e, H ! 5 + f, H ! 6 + g, H ! 7 + h]\<rparr>)"

definition sha_iv :: "u32 list" where
  "sha_iv = [0x6a09e667, 0xbb67ae85, 0x3c6ef372, 0xa54ff53a, 0x510e527f, 0x9b05688c, 0x1f83d9ab, 0x5be0cd19]"

definition sha256_init :: "sha256 \<Rightarrow> sha256" where
  "sha256_init s = s\<lparr>sh_h := sha_iv, sh_len := 0, sh_fill := 0\<rparr>"

function sha_absorb :: "sha256 \<Rightarrow> bytes \<Rightarrow> sha256 option" where
  "sha_absorb s p =
     (if p = [] then Some s
      else if sh_fill s = 0 \<and> length p \<ge> 64 then sha_absorb (sha256_block s (take 64 p)) (drop 64 p)
      else if sh_fill s \<ge> 64 then None
      else
        let tk = min (64 - sh_fill s) (length p);
            s = s\<lparr>sh_buf := take (sh_fill s) (sh_buf s) @ take tk p @ drop (sh_fill s + tk) (sh_buf s),
                  sh_fill := sh_fill s + tk\<rparr>;
            s = (if sh_fill s = 64 then (sha256_block s (sh_buf s))\<lparr>sh_fill := 0\<rparr> else s)
        in sha_absorb s (drop tk p))"
  by pat_completeness auto
termination by (relation "measure (length \<circ> snd)") auto

declare sha_absorb.simps [simp del]

definition sha256_update :: "sha256 \<Rightarrow> bytes \<Rightarrow> sha256 option" where
  "sha256_update s p = sha_absorb (s\<lparr>sh_len := sh_len s + of_nat (length p)\<rparr>) p"

definition be_bytes64 :: "u64 \<Rightarrow> bytes" where
  "be_bytes64 v = map (\<lambda>i. ucast (drop_bit (56 - 8 * i) v)) [0..<8]"

definition hex_char :: "nat \<Rightarrow> char" where
  "hex_char d = ''0123456789abcdef'' ! d"

text \<open>\<open>snprintf("%08x")\<close>.\<close>

definition hex8 :: "u32 \<Rightarrow> string" where
  "hex8 v = map (\<lambda>i. hex_char (unat (drop_bit (28 - 4 * i) v AND 0xF))) [0..<8]"

definition sha_pad :: bytes where
  "sha_pad = 0x80 # replicate 71 0"

definition sha256_hex :: "sha256 \<Rightarrow> string option" where
  "sha256_hex s =
     (let bits = sh_len s * 8;
          padlen = (if sh_fill s < 56 then 56 else 120) - sh_fill s
      in if padlen > length sha_pad then None
         else case sha256_update s (take padlen sha_pad) of
           None \<Rightarrow> None
         | Some s \<Rightarrow>
             (case sha256_update s (be_bytes64 bits) of
                None \<Rightarrow> None
              | Some s \<Rightarrow> Some (concat (map hex8 (sh_h s)))))"

section \<open>The standard\<close>

definition Ch :: "u32 \<Rightarrow> u32 \<Rightarrow> u32 \<Rightarrow> u32" where
  "Ch x y z = (x AND y) XOR (NOT x AND z)"

definition Maj :: "u32 \<Rightarrow> u32 \<Rightarrow> u32 \<Rightarrow> u32" where
  "Maj x y z = (x AND y) XOR (x AND z) XOR (y AND z)"

definition Sigma0 :: "u32 \<Rightarrow> u32" where
  "Sigma0 x = word_rotr 2 x XOR word_rotr 13 x XOR word_rotr 22 x"

definition Sigma1 :: "u32 \<Rightarrow> u32" where
  "Sigma1 x = word_rotr 6 x XOR word_rotr 11 x XOR word_rotr 25 x"

definition sigma0 :: "u32 \<Rightarrow> u32" where
  "sigma0 x = word_rotr 7 x XOR word_rotr 18 x XOR drop_bit 3 x"

definition sigma1 :: "u32 \<Rightarrow> u32" where
  "sigma1 x = word_rotr 17 x XOR word_rotr 19 x XOR drop_bit 10 x"

text \<open>The message schedule of the block \<open>m\<close> of sixteen words.\<close>

fun fips_W :: "(nat \<Rightarrow> u32) \<Rightarrow> nat \<Rightarrow> u32" where
  "fips_W m t =
     (if t < 16 then m t
      else sigma1 (fips_W m (t - 2)) + fips_W m (t - 7) + sigma0 (fips_W m (t - 15)) + fips_W m (t - 16))"

declare fips_W.simps [simp del]

fun fips_vars :: "(nat \<Rightarrow> u32) \<Rightarrow> u32 list \<Rightarrow> nat \<Rightarrow> u32 list" where
  "fips_vars m H 0 = H"
| "fips_vars m H (Suc t) =
     (let v = fips_vars m H t;
          T1 = v ! 7 + Sigma1 (v ! 4) + Ch (v ! 4) (v ! 5) (v ! 6) + sha256_k ! t + fips_W m t;
          T2 = Sigma0 (v ! 0) + Maj (v ! 0) (v ! 1) (v ! 2)
      in [T1 + T2, v ! 0, v ! 1, v ! 2, v ! 3 + T1, v ! 4, v ! 5, v ! 6])"

definition fips_compress :: "u32 list \<Rightarrow> bytes \<Rightarrow> u32 list" where
  "fips_compress H block = map2 (+) H (fips_vars (sha_load block) H 64)"

function fips_blocks :: "u32 list \<Rightarrow> bytes \<Rightarrow> u32 list" where
  "fips_blocks H m = (if length m < 64 then H else fips_blocks (fips_compress H (take 64 m)) (drop 64 m))"
  by pat_completeness auto
termination by (relation "measure (length \<circ> snd)") auto

declare fips_blocks.simps [simp del]

text \<open>A one bit, as few zero bits as make the length 56 modulo 64 bytes, and the length in bits.\<close>

definition fips_pad :: "bytes \<Rightarrow> bytes" where
  "fips_pad m = m @ [0x80] @ replicate ((119 - length m mod 64) mod 64) 0 @ be_bytes64 (of_nat (8 * length m))"

definition fips_sha256 :: "bytes \<Rightarrow> u32 list" where
  "fips_sha256 m = fips_blocks sha_iv (fips_pad m)"

section \<open>One block\<close>

lemma SHA_ROR_rotr:
  assumes n: "0 < n" "n < 32"
  shows "SHA_ROR x n = word_rotr n x"
proof (rule bit_word_eqI)
  fix k assume "k < LENGTH(32)"
  then have k: "k < 32" by simp
  have ror: "bit (SHA_ROR x n) k \<longleftrightarrow> bit x (n + k) \<or> 32 - n \<le> k \<and> bit x (k - (32 - n))"
    using k by (simp only: SHA_ROR_def bit_or_iff bit_drop_bit_eq comp_apply bit_push_bit_iff) simp
  have rotr: "bit (word_rotr n x) k \<longleftrightarrow> bit x ((k + n) mod 32)"
    using k by (simp add: bit_word_rotr_iff)
  show "bit (SHA_ROR x n) k = bit (word_rotr n x) k"
  proof (cases "k + n < 32")
    case True
    then have "(k + n) mod 32 = n + k" "\<not> 32 - n \<le> k" by simp_all
    then show ?thesis unfolding ror rotr by (simp add: add.commute)
  next
    case False
    then have "(k + n) mod 32 = k - (32 - n)" "32 - n \<le> k" using n k by (simp_all add: mod_if)
    moreover have "\<not> bit x (n + k)" using False bit_imp_le_length [of x "n + k"] by auto
    ultimately show ?thesis unfolding ror rotr by simp
  qed
qed

lemma sha_expand_fips:
  assumes "w = map (fips_W m) [0..<i]" "16 \<le> i"
  shows "sha_expand w i = map (fips_W m) [0..<Suc i]"
proof -
  have "fips_W m i = sigma1 (fips_W m (i - 2)) + fips_W m (i - 7) + sigma0 (fips_W m (i - 15)) + fips_W m (i - 16)"
    using assms(2) by (subst fips_W.simps) simp
  then show ?thesis using assms
    by (simp add: sha_expand_def Let_def SHA_ROR_rotr sigma0_def sigma1_def ac_simps)
qed

lemma sha_words_fips: "sha_words p = map (fips_W (sha_load p)) [0..<64]"
proof -
  have "foldl sha_expand (map (sha_load p) [0..<16]) [16..<16 + n] = map (fips_W (sha_load p)) [0..<16 + n]" for n
  proof (induction n)
    case 0
    show ?case by (auto simp: fips_W.simps intro!: map_cong)
  next
    case (Suc n)
    have "[16..<16 + Suc n] = [16..<16 + n] @ [16 + n]" by (metis add_Suc_right le_add1 upt_Suc_append)
    then show ?case using Suc sha_expand_fips [of _ "sha_load p" "16 + n"]
      by (simp only: foldl_append foldl.simps add_Suc_right)
  qed
  from this [of 48] show ?thesis by (simp add: sha_words_def)
qed

fun vars_list :: "sha_vars \<Rightarrow> u32 list" where
  "vars_list (a, b, c, d, e, f, g, h) = [a, b, c, d, e, f, g, h]"

lemma vars_cases:
  obtains a b c d e f g h where "(v :: sha_vars) = (a, b, c, d, e, f, g, h)"
  by (metis surj_pair)

lemma sha_round_fips:
  assumes "vars_list v = fips_vars m H t" "t < 64" "w = map (fips_W m) [0..<64]"
  shows "vars_list (sha_round w v t) = fips_vars m H (Suc t)"
proof -
  obtain a b c d e f g h where v: "v = (a, b, c, d, e, f, g, h)" by (rule vars_cases)
  with assms(1) have "fips_vars m H t = [a, b, c, d, e, f, g, h]" by simp
  moreover have "w ! t = fips_W m t" using assms(2,3) by simp
  ultimately show ?thesis
    by (simp add: v sha_round_def Let_def SHA_ROR_rotr Sigma0_def Sigma1_def Ch_def Maj_def)
qed

lemma sha_rounds_fips:
  assumes "w = map (fips_W m) [0..<64]" "t \<le> 64"
  shows "vars_list (foldl (sha_round w) v [0..<t]) = fips_vars m (vars_list v) t"
  using assms(2)
proof (induction t)
  case (Suc t)
  then show ?case using sha_round_fips [OF _ _ assms(1)] by simp
qed simp

lemma length_8: "length H = 8 \<Longrightarrow> H = [H ! 0, H ! 1, H ! 2, H ! 3, H ! 4, H ! 5, H ! 6, H ! 7]"
  by (rule nth_equalityI) (auto simp: less_Suc_eq eval_nat_numeral)

lemma sha256_block_fips:
  assumes "length (sh_h s) = 8"
  shows "sha256_block s p = s\<lparr>sh_h := fips_compress (sh_h s) p\<rparr>"
proof -
  let ?H = "sh_h s" and ?w = "map (fips_W (sha_load p)) [0..<64]"
  let ?v = "(?H ! 0, ?H ! 1, ?H ! 2, ?H ! 3, ?H ! 4, ?H ! 5, ?H ! 6, ?H ! 7)"
  obtain a b c d e f g h where v: "foldl (sha_round ?w) ?v [0..<64] = (a, b, c, d, e, f, g, h)" by (rule vars_cases)
  have "fips_vars (sha_load p) ?H 64 = [a, b, c, d, e, f, g, h]"
    using sha_rounds_fips [of ?w "sha_load p" 64 ?v] v length_8 [OF assms] by simp
  then have "fips_compress ?H p =
      [?H ! 0 + a, ?H ! 1 + b, ?H ! 2 + c, ?H ! 3 + d, ?H ! 4 + e, ?H ! 5 + f, ?H ! 6 + g, ?H ! 7 + h]"
    unfolding fips_compress_def by (subst length_8 [OF assms]) simp
  with v show ?thesis by (simp add: sha256_block_def Let_def sha_words_fips)
qed

lemma length_fips_vars: "length H = 8 \<Longrightarrow> length (fips_vars m H t) = 8"
  by (cases t) (simp_all add: Let_def)

lemma length_fips_compress [simp]: "length H = 8 \<Longrightarrow> length (fips_compress H p) = 8"
  by (simp add: fips_compress_def length_fips_vars)

section \<open>Streaming\<close>

text \<open>\<open>absorbed m s\<close>: the state is that of the message \<open>m\<close> read so far.\<close>

definition absorbed_at :: "bytes \<Rightarrow> u32 list \<Rightarrow> bytes \<Rightarrow> nat \<Rightarrow> bool" where
  "absorbed_at m H buf fill \<longleftrightarrow> length buf = 64 \<and> length H = 8 \<and> fill = length m mod 64 \<and>
     take fill buf = drop (length m - fill) m \<and> H = fips_blocks sha_iv m"

definition absorbed :: "bytes \<Rightarrow> sha256 \<Rightarrow> bool" where
  "absorbed m s \<longleftrightarrow> absorbed_at m (sh_h s) (sh_buf s) (sh_fill s)"

lemma fips_blocks_short [simp]: "length m < 64 \<Longrightarrow> fips_blocks H m = H"
  by (simp add: fips_blocks.simps)

lemma fips_blocks_append:
  "length m mod 64 = 0 \<Longrightarrow> fips_blocks H (m @ p) = fips_blocks (fips_blocks H m) p"
proof (induction H m rule: fips_blocks.induct)
  case (1 H m)
  show ?case
  proof (cases "length m < 64")
    case True
    with "1.prems" have "m = []" by simp
    then show ?thesis by simp
  next
    case False
    have "length (drop 64 m) mod 64 = 0" using "1.prems" False by (simp add: mod_if)
    from "1.IH" [OF False this] show ?thesis using False
      by (subst fips_blocks.simps, subst (2) fips_blocks.simps) simp
  qed
qed

lemma fips_blocks_one: "length p = 64 \<Longrightarrow> fips_blocks H p = fips_compress H p"
  by (subst fips_blocks.simps) simp

text \<open>The part of a message that fills whole blocks, and the rest.\<close>

lemma message_split:
  assumes "fill = length m mod 64"
  shows "fips_blocks H (m @ p) = fips_blocks (fips_blocks H m) (drop (length m - fill) m @ p)"
proof -
  define k where "k = length m - fill"
  have k: "k \<le> length m" "k mod 64 = 0" "length m - k < 64"
    by (simp_all add: k_def assms minus_mod_eq_mult_div)
  have full: "fips_blocks H (m @ q) = fips_blocks (fips_blocks H (take k m)) (drop k m @ q)" for q
    using fips_blocks_append [of "take k m" H "drop k m @ q"] k(1,2) by (simp add: min_absorb2 flip: append_assoc)
  from full [of "[]"] have "fips_blocks H m = fips_blocks H (take k m)" using k(3) by simp
  with full [of p] show ?thesis by (simp add: k_def)
qed

lemma absorbed_block:
  assumes "absorbed_at m H buf 0" "length b = 64"
  shows "absorbed_at (m @ b) (fips_compress H b) buf 0"
proof -
  have m: "length m mod 64 = 0" and H: "length H = 8" "H = fips_blocks sha_iv m" and buf: "length buf = 64"
    using assms(1) unfolding absorbed_at_def by auto
  have "(length m + length b) mod 64 = (length m mod 64 + length b mod 64) mod 64" by (rule mod_add_eq [symmetric])
  then have "0 = length (m @ b) mod 64" using m assms(2) by simp
  moreover have "fips_compress H b = fips_blocks sha_iv (m @ b)"
    using assms(2) H(2) m by (simp only: fips_blocks_append fips_blocks_one)
  moreover have "length (fips_compress H b) = 8" using H(1) by simp
  ultimately show ?thesis using H(1) buf unfolding absorbed_at_def by simp
qed

lemma absorbed_part:
  assumes "absorbed_at m H buf fill" "fill + length b < 64"
  shows "absorbed_at (m @ b) H (take fill buf @ b @ drop (fill + length b) buf) (fill + length b)"
proof -
  have fill: "fill = length m mod 64" "fill \<le> length m" and H: "length H = 8" "H = fips_blocks sha_iv m"
    and buf: "length buf = 64" "take fill buf = drop (length m - fill) m"
    using assms(1) unfolding absorbed_at_def by auto
  have "(length m + length b) mod 64 = (fill + length b) mod 64" unfolding fill(1) by (rule mod_add_left_eq [symmetric])
  then have "fill + length b = length (m @ b) mod 64" using assms(2) by simp
  moreover have "fips_blocks sha_iv (m @ b) = fips_blocks sha_iv m"
    using message_split [OF fill(1), of sha_iv b] assms(2) buf(1) by (simp flip: buf(2))
  moreover have "take (fill + length b) (take fill buf @ b @ drop (fill + length b) buf) = take fill buf @ b"
    using buf(1) assms(2) by simp
  moreover have "drop (length (m @ b) - (fill + length b)) (m @ b) = drop (length m - fill) m @ b"
    using fill(2) by simp
  ultimately show ?thesis using H buf fill(2) assms(2) unfolding absorbed_at_def by simp
qed

lemma absorbed_full:
  assumes "absorbed_at m H buf fill" "fill + length b = 64"
  shows "absorbed_at (m @ b) (fips_compress H (take fill buf @ b)) (take fill buf @ b) 0"
proof -
  have fill: "fill = length m mod 64" "fill \<le> length m" and H: "length H = 8" "H = fips_blocks sha_iv m"
    and buf: "length buf = 64" "take fill buf = drop (length m - fill) m"
    using assms(1) unfolding absorbed_at_def by auto
  have "(length m + length b) mod 64 = (fill + length b) mod 64" unfolding fill(1) by (rule mod_add_left_eq [symmetric])
  then have "0 = length (m @ b) mod 64" using assms(2) by simp
  moreover have "fips_blocks sha_iv (m @ b) = fips_compress H (take fill buf @ b)"
    using message_split [OF fill(1), of sha_iv b] fips_blocks_one [of "take fill buf @ b" H] assms(2) buf(1)
    by (simp flip: buf(2) H(2))
  ultimately show ?thesis using H buf fill(2) assms(2) unfolding absorbed_at_def by simp
qed

lemma sha_absorb_correct:
  "absorbed m s \<Longrightarrow> \<exists>s'. sha_absorb s p = Some s' \<and> absorbed (m @ p) s' \<and> sh_len s' = sh_len s"
proof (induction s p arbitrary: m rule: sha_absorb.induct)
  case (1 s p)
  have len8: "length (sh_h s) = 8" and fill: "sh_fill s < 64"
    using "1.prems" by (auto simp: absorbed_def absorbed_at_def)
  consider "p = []" | "p \<noteq> []" "sh_fill s = 0" "length p \<ge> 64" | "p \<noteq> []" "\<not> (sh_fill s = 0 \<and> length p \<ge> 64)" by (cases "p = []") auto
  then show ?case
  proof cases
    case 1
    with "1.prems" show ?thesis by (simp add: sha_absorb.simps)
  next
    case 2
    let ?s = "sha256_block s (take 64 p)"
    have "absorbed (m @ take 64 p) ?s"
      using absorbed_block [of m "sh_h s" "sh_buf s" "take 64 p"] "1.prems" 2 len8
      by (simp add: absorbed_def sha256_block_fips)
    from "1.IH"(1) [OF 2(1) _ this] 2 show ?thesis
      by (subst sha_absorb.simps) (simp add: sha256_block_fips len8)
  next
    case 3
    define tk where "tk = min (64 - sh_fill s) (length p)"
    define s1 where "s1 = s\<lparr>sh_buf := take (sh_fill s) (sh_buf s) @ take tk p @ drop (sh_fill s + tk) (sh_buf s),
      sh_fill := sh_fill s + tk\<rparr>"
    define s2 where "s2 = (if sh_fill s1 = 64 then (sha256_block s1 (sh_buf s1))\<lparr>sh_fill := 0\<rparr> else s1)"
    have step: "sha_absorb s p = sha_absorb s2 (drop tk p)"
      using 3 fill by (subst sha_absorb.simps) (auto simp: Let_def s2_def s1_def tk_def)
    have tk: "length (take tk p) = tk" by (simp add: tk_def)
    have "absorbed (m @ take tk p) s2"
    proof (cases "sh_fill s + tk = 64")
      case True
      then have "drop (sh_fill s + tk) (sh_buf s) = []"
        using "1.prems" by (simp add: absorbed_def absorbed_at_def)
      then show ?thesis
        using absorbed_full [of m "sh_h s" "sh_buf s" "sh_fill s" "take tk p"] "1.prems" tk len8 True
        by (simp add: absorbed_def s2_def s1_def sha256_block_fips)
    next
      case False
      moreover have "sh_fill s + tk < 64" using False fill by (simp add: tk_def)
      ultimately show ?thesis
        using absorbed_part [of m "sh_h s" "sh_buf s" "sh_fill s" "take tk p"] "1.prems" tk
        by (simp add: absorbed_def s2_def s1_def)
    qed
    moreover have "sh_len s2 = sh_len s" by (simp add: s2_def s1_def sha256_block_fips len8)
    ultimately show ?thesis
      using "1.IH"(2) [OF 3(1) _ _ tk_def s1_def s2_def] 3(2) fill step
      by (metis append.assoc append_take_drop_id leD)
  qed
qed

definition tracked :: "bytes \<Rightarrow> sha256 \<Rightarrow> bool" where
  "tracked m s \<longleftrightarrow> absorbed m s \<and> sh_len s = of_nat (length m)"

lemma sha256_init_tracked: "length (sh_buf s) = 64 \<Longrightarrow> tracked [] (sha256_init s)"
  by (simp add: tracked_def absorbed_def absorbed_at_def sha256_init_def) (simp add: sha_iv_def)

lemma sha256_update_tracked:
  assumes "tracked m s"
  obtains s' where "sha256_update s p = Some s'" "tracked (m @ p) s'"
proof -
  let ?s = "s\<lparr>sh_len := sh_len s + of_nat (length p)\<rparr>"
  have "absorbed m ?s" using assms by (simp add: tracked_def absorbed_def)
  from sha_absorb_correct [OF this, of p] obtain s'
    where "sha_absorb ?s p = Some s'" "absorbed (m @ p) s'" "sh_len s' = sh_len ?s" by blast
  with assms that show thesis by (simp add: sha256_update_def tracked_def)
qed

text \<open>Feeding a message in pieces, as the loop over \<open>read\<close> does.\<close>

fun sha_feed :: "sha256 \<Rightarrow> bytes list \<Rightarrow> sha256 option" where
  "sha_feed s [] = Some s"
| "sha_feed s (p # ps) = (case sha256_update s p of None \<Rightarrow> None | Some s' \<Rightarrow> sha_feed s' ps)"

lemma sha_feed_tracked: "tracked m s \<Longrightarrow> \<exists>s'. sha_feed s ps = Some s' \<and> tracked (m @ concat ps) s'"
proof (induction ps arbitrary: m s)
  case (Cons p ps)
  from Cons.prems obtain s' where s': "sha256_update s p = Some s'" "tracked (m @ p) s'" by (rule sha256_update_tracked)
  with Cons.IH [OF s'(2)] show ?case by simp
qed simp

definition hex_digest :: "u32 list \<Rightarrow> string" where
  "hex_digest H = concat (map hex8 H)"

lemma sha256_hex_tracked:
  assumes "tracked m s"
  shows "sha256_hex s = Some (hex_digest (fips_sha256 m))"
proof -
  define fill where "fill = length m mod 64"
  define padlen where "padlen = (if fill < 56 then 56 else 120) - fill"
  have fill: "sh_fill s = fill" "fill < 64" using assms by (simp_all add: tracked_def absorbed_def absorbed_at_def fill_def)
  have k: "padlen = Suc ((119 - fill) mod 64)" using fill(2) by (cases "fill < 56") (auto simp: padlen_def mod_if)
  have pad: "take padlen sha_pad = 0x80 # replicate ((119 - fill) mod 64) 0"
    by (simp add: k sha_pad_def min_def)
  obtain s1 where s1: "sha256_update s (take padlen sha_pad) = Some s1" "tracked (m @ take padlen sha_pad) s1"
    using assms by (rule sha256_update_tracked)
  obtain s2 where s2: "sha256_update s1 (be_bytes64 (sh_len s * 8)) = Some s2"
    "tracked ((m @ take padlen sha_pad) @ be_bytes64 (sh_len s * 8)) s2"
    using s1(2) by (rule sha256_update_tracked)
  have "(m @ take padlen sha_pad) @ be_bytes64 (sh_len s * 8) = fips_pad m"
    using assms by (simp add: pad fips_pad_def fill_def tracked_def mult.commute)
  with s2(2) have "sh_h s2 = fips_sha256 m" by (simp add: tracked_def absorbed_def absorbed_at_def fips_sha256_def)
  moreover have "\<not> padlen > length sha_pad" using fill(2) by (auto simp: padlen_def sha_pad_def)
  ultimately show ?thesis using s1(1) s2(1) fill(1)
    by (simp add: sha256_hex_def Let_def hex_digest_def flip: padlen_def)
qed

lemma sha_stream_hex:
  assumes "length (sh_buf s) = 64"
  obtains s' where "sha_feed (sha256_init s) ps = Some s'" "sha256_hex s' = Some (hex_digest (fips_sha256 (concat ps)))"
  using sha_feed_tracked [OF sha256_init_tracked [OF assms], of ps] sha256_hex_tracked by auto

text \<open>
  C15: The launcher's SHA-256 is SHA-256. However a message is cut into reads, the digest computed from them
  is the one FIPS 180-4 defines for the whole message, and no copy leaves the 64-byte buffer.
\<close>

theorem sha256_correct:
  assumes "length (sh_buf s) = 64"
  shows "Option.bind (sha_feed (sha256_init s) ps) sha256_hex = Some (hex_digest (fips_sha256 (concat ps)))"
proof -
  obtain s' where "sha_feed (sha256_init s) ps = Some s'" "sha256_hex s' = Some (hex_digest (fips_sha256 (concat ps)))"
    using assms by (rule sha_stream_hex)
  then show ?thesis by simp
qed

definition sha_start :: sha256 where
  "sha_start = \<lparr>sh_h = [], sh_len = 0, sh_buf = replicate 64 0, sh_fill = 0\<rparr>"

lemma sha_start_buf [simp]: "length (sh_buf sha_start) = 64"
  by (simp add: sha_start_def)

text \<open>Two digests, computed by the code.\<close>

lemma sha256_abc:
  "Option.bind (sha_feed (sha256_init sha_start) [[0x61], [0x62, 0x63]]) sha256_hex =
     Some ''ba7816bf8f01cfea414140de5dae2223b00361a396177a9cb410ff61f20015ad''"
  by code_simp

lemma sha256_abd:
  "Option.bind (sha_feed (sha256_init sha_start) [[0x61, 0x62, 0x64]]) sha256_hex =
     Some ''a52d159f262b2c6ddb724a61840befc36eb30c88877a4030b65cbe86298449c9''"
  by code_simp

lemma digest_abc:
  "hex_digest (fips_sha256 [0x61, 0x62, 0x63]) = ''ba7816bf8f01cfea414140de5dae2223b00361a396177a9cb410ff61f20015ad''"
proof (rule sha_stream_hex [OF sha_start_buf])
  fix s' assume "sha_feed (sha256_init sha_start) [[0x61], [0x62, 0x63]] = Some s'"
    "sha256_hex s' = Some (hex_digest (fips_sha256 (concat [[0x61], [0x62, 0x63]])))"
  then show ?thesis using sha256_abc by simp
qed

lemma digest_abd:
  "hex_digest (fips_sha256 [0x61, 0x62, 0x64]) = ''a52d159f262b2c6ddb724a61840befc36eb30c88877a4030b65cbe86298449c9''"
proof (rule sha_stream_hex [OF sha_start_buf])
  fix s' assume "sha_feed (sha256_init sha_start) [[0x61, 0x62, 0x64]] = Some s'"
    "sha256_hex s' = Some (hex_digest (fips_sha256 (concat [[0x61, 0x62, 0x64]])))"
  then show ?thesis using sha256_abd by simp
qed

theorem sha256_correct_witness:
  "length (sh_buf sha_start) = 64 \<and>
   Option.bind (sha_feed (sha256_init sha_start) [[0x61], [0x62, 0x63]]) sha256_hex =
     Some (hex_digest (fips_sha256 [0x61, 0x62, 0x63]))"
  using sha256_correct [OF sha_start_buf, of "[[0x61], [0x62, 0x63]]"] by simp

end
