(* ===== verification/Wd_Manifest.thy ===== *)
theory Wd_Manifest
  imports Prelude
begin

text \<open>
  The two text files the launcher decides by (\<open>waydroid/launcher/waydroidd.c\<close>): the manifest with the
  pinned digests, and the stamp it leaves for an image it has verified. A file that cannot be opened
  is \<open>None\<close>. The functions of the C library the code uses on them (\<open>fgets\<close>, \<open>sscanf\<close> with \<open>%s\<close>,
  \<open>strchr\<close>, \<open>strcspn\<close>) are modelled at their buffer sizes.
\<close>

section \<open>The C library\<close>

abbreviation newline :: char where "newline \<equiv> CHR 0x0A"

definition isspace :: "char \<Rightarrow> bool" where
  "isspace c = (c = CHR '' '' \<or> c = CHR 0x09 \<or> c = CHR 0x0A \<or> c = CHR 0x0B \<or> c = CHR 0x0C \<or> c = CHR 0x0D)"

definition c_string :: "string \<Rightarrow> string" where
  "c_string cs = takeWhile (\<lambda>c. c \<noteq> CHR 0x00) cs"

text \<open>\<open>fgets\<close> with room for \<open>k\<close> characters: the line, with its newline if that was reached, and the rest.\<close>

fun fgets :: "nat \<Rightarrow> string \<Rightarrow> string \<times> string" where
  "fgets 0 cs = ([], cs)"
| "fgets (Suc k) [] = ([], [])"
| "fgets (Suc k) (c # cs) = (if c = newline then ([c], cs) else case fgets k cs of (l, r) \<Rightarrow> (c # l, r))"

text \<open>The conversion \<open>%ks\<close>.\<close>

definition scan_word :: "nat \<Rightarrow> string \<Rightarrow> (string \<times> string) option" where
  "scan_word k cs =
     (let cs = dropWhile isspace cs; w = take k (takeWhile (\<lambda>c. \<not> isspace c) cs)
      in if w = [] then None else Some (w, drop (length w) cs))"

lemma fgets_append: "fgets k cs = (l, r) \<Longrightarrow> cs = l @ r"
  by (induction k cs arbitrary: l r rule: fgets.induct) (auto split: if_splits prod.splits)

lemma fgets_progress: "0 < k \<Longrightarrow> cs \<noteq> [] \<Longrightarrow> fgets k cs = (l, r) \<Longrightarrow> length r < length cs"
  by (cases k; cases cs) (auto split: if_splits prod.splits dest: fgets_append)

section \<open>The manifest\<close>

definition pin_of_line :: "string \<Rightarrow> string \<Rightarrow> string option" where
  "pin_of_line name line =
     (let line = takeWhile (\<lambda>c. c \<noteq> CHR ''#'') (c_string line)
      in case scan_word 255 line of
           None \<Rightarrow> None
         | Some (n, r) \<Rightarrow>
             (case scan_word 127 r of
                None \<Rightarrow> None
              | Some (h, _) \<Rightarrow> if n = name \<and> length h = 64 then Some h else None))"

function find_pin :: "string \<Rightarrow> string \<Rightarrow> string option" where
  "find_pin name cs =
     (if cs = [] then None
      else case fgets 511 cs of (l, r) \<Rightarrow>
        (case pin_of_line name l of Some h \<Rightarrow> Some h | None \<Rightarrow> find_pin name r))"
  by pat_completeness auto
termination
  by (relation "measure (length \<circ> snd)") (auto dest!: sym [of "(_, _)"] intro: fgets_progress [of 511])

declare find_pin.simps [simp del]

definition manifest_pin :: "string option \<Rightarrow> string \<Rightarrow> string option" where
  "manifest_pin file name = (case file of None \<Rightarrow> None | Some cs \<Rightarrow> find_pin name cs)"

section \<open>The stamp\<close>

text \<open>\<open>struct stat\<close>, as far as it is used. The mode has the permission bits; the file type is \<open>st_reg\<close>.\<close>

record stat =
  st_dev :: u64
  st_ino :: u64
  st_size :: "64 word"
  st_mtim_sec :: "64 word"
  st_mtim_nsec :: "64 word"
  st_uid :: u32
  st_mode :: u32
  st_reg :: bool

definition stamp_text :: "stat \<Rightarrow> string \<Rightarrow> string" where
  "stamp_text st pin =
     to_string (unat (st_dev st)) @ '' '' @ to_string (unat (st_ino st)) @ '' '' @
     int_string (sint (st_size st)) @ '' '' @ int_string (sint (st_mtim_sec st)) @ '' '' @
     int_string (sint (st_mtim_nsec st)) @ '' '' @ pin"

definition stamp_matches :: "string option \<Rightarrow> stat \<Rightarrow> string \<Rightarrow> bool" where
  "stamp_matches file st pin =
     (case file of
        None \<Rightarrow> False
      | Some cs \<Rightarrow>
          let got = fst (fgets 255 cs)
          in got \<noteq> [] \<and> takeWhile (\<lambda>c. c \<noteq> newline) (c_string got) = take 255 (stamp_text st pin))"

definition stamp_write :: "stat \<Rightarrow> string \<Rightarrow> string" where
  "stamp_write st pin = stamp_text st pin @ [newline]"

section \<open>A stamp is read back as written\<close>

definition word_chars :: "string \<Rightarrow> bool" where
  "word_chars w = (\<forall>c \<in> set w. \<not> isspace c \<and> c \<noteq> CHR 0x00)"

lemma digit_chars: "of_char c \<in> {48..<58 :: nat} \<Longrightarrow> \<not> isspace c \<and> c \<noteq> CHR 0x00"
  by (auto simp: isspace_def)

lemma word_to_string [simp]: "word_chars (to_string n)"
  using to_string_digits digit_chars by (auto simp: word_chars_def)

lemma word_int_string [simp]: "word_chars (int_string i)"
  using word_to_string [of "nat (- i)"] word_to_string [of "nat i"] by (auto simp: int_string_def word_chars_def isspace_def)

lemma word_sep:
  assumes "word_chars v" "word_chars w"
  shows "v @ CHR '' '' # xs = w @ CHR '' '' # ys \<longleftrightarrow> v = w \<and> xs = ys"
proof
  assume eq: "v @ CHR '' '' # xs = w @ CHR '' '' # ys"
  have "takeWhile (\<lambda>c. \<not> isspace c) (u @ CHR '' '' # zs) = u" if "word_chars u" for u zs
    using that by (induction u) (auto simp: word_chars_def isspace_def)
  then have "v = w" using assms eq by metis
  with eq show "v = w \<and> xs = ys" by simp
qed simp

lemma stamp_text_inject:
  "stamp_text st pin = stamp_text st' pin' \<longleftrightarrow> st_dev st = st_dev st' \<and> st_ino st = st_ino st' \<and>
     st_size st = st_size st' \<and> st_mtim_sec st = st_mtim_sec st' \<and> st_mtim_nsec st = st_mtim_nsec st' \<and> pin = pin'"
  by (simp add: stamp_text_def word_sep) (metis unsigned_word_eqI signed_word_eqI)

lemma length_to_string_u64: "length (to_string (unat (w :: u64))) \<le> 20"
proof (rule length_to_string)
  have "unat w < 2 ^ LENGTH(64)" by (rule unsigned_less)
  then show "unat w < 10 ^ 20" by simp
qed simp

lemma length_int_string_s64: "length (int_string (sint (w :: 64 word))) \<le> 20"
proof -
  have "nat (- sint w) < 10 ^ 19" "nat (sint w) < 10 ^ 19"
    using sint_greater_eq [of w] sint_less [of w] by auto
  from this [THEN length_to_string] show ?thesis by (auto simp: int_string_def)
qed

lemma length_stamp_text: "length pin = 64 \<Longrightarrow> length (stamp_text st pin) < 255"
  using length_to_string_u64 [of "st_dev st"] length_to_string_u64 [of "st_ino st"]
    length_int_string_s64 [of "st_size st"] length_int_string_s64 [of "st_mtim_sec st"] length_int_string_s64 [of "st_mtim_nsec st"]
  by (simp add: stamp_text_def)

lemma fgets_line: "newline \<notin> set l \<Longrightarrow> length l < k \<Longrightarrow> fgets k (l @ newline # r) = (l @ [newline], r)"
proof (induction l arbitrary: k)
  case Nil
  then show ?case by (cases k) auto
next
  case (Cons c l)
  then show ?case by (cases k) auto
qed

lemma stamp_chars:
  assumes "word_chars pin" "c \<in> set (stamp_text st pin)"
  shows "c \<noteq> newline \<and> c \<noteq> CHR 0x00"
proof -
  have "\<forall>c \<in> set (stamp_text st pin). c = CHR '' '' \<or> \<not> isspace c \<and> c \<noteq> CHR 0x00"
    using assms(1) word_to_string word_int_string
    unfolding stamp_text_def word_chars_def set_append ball_Un by simp
  with assms(2) have "c = CHR '' '' \<or> \<not> isspace c \<and> c \<noteq> CHR 0x00" by blast
  then show ?thesis by (auto simp: isspace_def)
qed

lemma takeWhile_all_append: "\<forall>c \<in> set xs. P c \<Longrightarrow> \<not> P y \<Longrightarrow> takeWhile P (xs @ y # ys) = xs"
  by (induction xs) auto

lemma stamp_roundtrip:
  assumes "length pin = 64" "word_chars pin" "length pin' = 64"
  shows "stamp_matches (Some (stamp_write st pin)) st' pin' \<longleftrightarrow> stamp_text st pin = stamp_text st' pin'"
proof -
  have chars: "c \<noteq> newline \<and> c \<noteq> CHR 0x00" if "c \<in> set (stamp_text st pin)" for c
    using stamp_chars [OF assms(2) that] .
  have "fgets 255 (stamp_write st pin) = (stamp_text st pin @ [newline], [])"
    unfolding stamp_write_def using fgets_line [of "stamp_text st pin" 255 "[]"] chars length_stamp_text [OF assms(1), of st] by auto
  moreover have "c_string (stamp_text st pin @ [newline]) = stamp_text st pin @ [newline]"
    using chars by (auto simp: c_string_def takeWhile_eq_all_conv)
  moreover have "takeWhile (\<lambda>c. c \<noteq> newline) (stamp_text st pin @ [newline]) = stamp_text st pin"
    using chars by (intro takeWhile_all_append) auto
  moreover have "take 255 (stamp_text st' pin') = stamp_text st' pin'" using length_stamp_text [OF assms(3), of st'] by simp
  ultimately show ?thesis by (simp add: stamp_matches_def)
qed

section \<open>A manifest is read as written\<close>

definition entry_ok :: "string \<times> string \<Rightarrow> bool" where
  "entry_ok e = (case e of (n, h) \<Rightarrow> n \<noteq> [] \<and> h \<noteq> [] \<and> word_chars n \<and> word_chars h \<and>
     CHR ''#'' \<notin> set n \<and> CHR ''#'' \<notin> set h \<and> length n \<le> 255 \<and> length h \<le> 127)"

definition entry_line :: "string \<times> string \<Rightarrow> string" where
  "entry_line e = fst e @ CHR '' '' # snd e"

definition manifest_text :: "(string \<times> string) list \<Rightarrow> string" where
  "manifest_text es = concat (map (\<lambda>e. entry_line e @ [newline]) es)"

lemma word_takeWhile:
  "word_chars w \<Longrightarrow> isspace c \<Longrightarrow> takeWhile (\<lambda>c. \<not> isspace c) (w @ c # r) = w"
  by (rule takeWhile_all_append) (auto simp: word_chars_def)

lemma word_dropWhile: "word_chars w \<Longrightarrow> w \<noteq> [] \<Longrightarrow> dropWhile isspace (w @ r) = w @ r"
  by (cases w) (simp_all add: word_chars_def)

lemma isspace_blank [simp]: "isspace (CHR '' '')" "isspace newline"
  by (simp_all add: isspace_def)

lemma scan_word_word:
  "word_chars w \<Longrightarrow> w \<noteq> [] \<Longrightarrow> length w \<le> k \<Longrightarrow> isspace c \<Longrightarrow> scan_word k (w @ c # r) = Some (w, c # r)"
  by (cases k) (simp_all add: scan_word_def Let_def word_dropWhile word_takeWhile)

lemma scan_word_blank: "isspace c \<Longrightarrow> scan_word k (c # cs) = scan_word k cs"
  by (simp add: scan_word_def)

lemma pin_of_entry:
  assumes "entry_ok (n, h)"
  shows "pin_of_line name (entry_line (n, h) @ [newline]) = (if n = name \<and> length h = 64 then Some h else None)"
proof -
  have ok: "n \<noteq> []" "h \<noteq> []" "word_chars n" "word_chars h" "length n \<le> 255" "length h \<le> 127"
    "CHR ''#'' \<notin> set n" "CHR ''#'' \<notin> set h"
    using assms by (simp_all add: entry_ok_def)
  let ?l = "n @ CHR '' '' # h @ [newline]"
  have "\<forall>c \<in> set ?l. c \<noteq> CHR 0x00" using ok by (auto simp: word_chars_def)
  then have "c_string ?l = ?l" unfolding c_string_def by (rule takeWhile_eq_all_conv [THEN iffD2])
  moreover have "\<forall>c \<in> set ?l. c \<noteq> CHR ''#''" using ok by auto
  then have "takeWhile (\<lambda>c. c \<noteq> CHR ''#'') ?l = ?l" by (rule takeWhile_eq_all_conv [THEN iffD2])
  ultimately have "takeWhile (\<lambda>c. c \<noteq> CHR ''#'') (c_string ?l) = ?l" by simp
  moreover have "scan_word 255 ?l = Some (n, CHR '' '' # h @ [newline])" using ok by (intro scan_word_word) auto
  moreover have "scan_word 127 (CHR '' '' # h @ [newline]) = Some (h, [newline])"
    using ok scan_word_word [of h 127 newline "[]"] by (simp add: scan_word_blank)
  ultimately show ?thesis by (simp add: pin_of_line_def Let_def entry_line_def)
qed

lemma find_pin_line:
  assumes "newline \<notin> set l" "length l < 511"
  shows "find_pin name (l @ newline # r) =
    (case pin_of_line name (l @ [newline]) of Some h \<Rightarrow> Some h | None \<Rightarrow> find_pin name r)"
  using fgets_line [OF assms, of r] by (subst find_pin.simps) simp

lemma word_no_newline: "word_chars w \<Longrightarrow> newline \<notin> set w"
  using isspace_blank(2) by (auto simp only: word_chars_def)

lemma manifest_lookup:
  "\<forall>e \<in> set es. entry_ok e \<Longrightarrow>
   manifest_pin (Some (manifest_text es)) name = map_of (filter (\<lambda>e. length (snd e) = 64) es) name"
proof (induction es)
  case Nil
  show ?case by (simp add: manifest_pin_def manifest_text_def find_pin.simps)
next
  case (Cons e es)
  obtain n h where e: "e = (n, h)" by (cases e)
  have ok: "entry_ok (n, h)" using Cons.prems e by simp
  then have "newline \<notin> set n" "newline \<notin> set h" "length n \<le> 255" "length h \<le> 127"
    by (simp_all add: entry_ok_def word_no_newline)
  then have line: "newline \<notin> set (entry_line (n, h))" "length (entry_line (n, h)) < 511" by (simp_all add: entry_line_def)
  have "manifest_text (e # es) = entry_line (n, h) @ newline # manifest_text es" by (simp add: manifest_text_def e)
  then have "manifest_pin (Some (manifest_text (e # es))) name =
      (if n = name \<and> length h = 64 then Some h else manifest_pin (Some (manifest_text es)) name)"
    by (simp add: manifest_pin_def find_pin_line [OF line] pin_of_entry [OF ok])
  then show ?case using Cons.IH Cons.prems by (simp add: e)
qed

section \<open>What a pin looks like\<close>

lemma scan_word_chars: "scan_word k cs = Some (w, r) \<Longrightarrow> (\<forall>c \<in> set w. \<not> isspace c \<and> c \<in> set cs) \<and> set r \<subseteq> set cs"
  by (auto simp: scan_word_def Let_def split: if_splits
      dest!: in_set_takeD in_set_dropD set_takeWhileD dest: set_dropWhileD)

lemma pin_of_line_chars: "pin_of_line name line = Some h \<Longrightarrow> length h = 64 \<and> word_chars h"
proof -
  assume *: "pin_of_line name line = Some h"
  let ?l = "takeWhile (\<lambda>c. c \<noteq> CHR ''#'') (c_string line)"
  obtain n r r' where "scan_word 255 ?l = Some (n, r)" "scan_word 127 r = Some (h, r')" and len: "length h = 64"
    using * by (auto simp: pin_of_line_def Let_def split: option.splits if_splits)
  then have h: "\<forall>c \<in> set h. \<not> isspace c \<and> c \<in> set ?l" using scan_word_chars by blast
  have "c \<noteq> CHR 0x00" if "c \<in> set ?l" for c
    using that by (auto simp: c_string_def dest!: set_takeWhileD)
  with h len show ?thesis unfolding word_chars_def by blast
qed

lemma manifest_pin_chars: "manifest_pin file name = Some h \<Longrightarrow> length h = 64 \<and> word_chars h"
proof -
  have "find_pin name cs = Some h \<Longrightarrow> length h = 64 \<and> word_chars h" for cs
  proof (induction name cs rule: find_pin.induct)
    case (1 name cs)
    obtain l r where l: "fgets 511 cs = (l, r)" by fastforce
    show ?case
    proof (cases "pin_of_line name l")
      case None
      then show ?thesis using 1 l by (subst (asm) (2) find_pin.simps) (auto split: if_splits)
    next
      case (Some h')
      then show ?thesis using "1.prems" l pin_of_line_chars [OF Some]
        by (subst (asm) find_pin.simps) (auto split: if_splits)
    qed
  qed
  then show "manifest_pin file name = Some h \<Longrightarrow> length h = 64 \<and> word_chars h"
    by (auto simp: manifest_pin_def split: option.splits)
qed

end
