(* ===== verification/Wd_Image.thy ===== *)
theory Wd_Image
  imports Sha256 Wd_Manifest
begin

text \<open>
  Image verification in the container launcher (\<open>verify_image\<close> in \<open>waydroid/launcher/waydroidd.c\<close>), together
  with the unprivileged program that may own the directory the images lie in.

  \<^item> \<open>isys\<close> has the files by identity (\<open>iy_files\<close>, of which \<open>iy_next\<close> exist), the images directory,
    the descriptors open for writing, the stamps under \<open>run/verified\<close> and how far \<open>verify_image\<close> is. An
    inode number is a field of a file: it may be used again once the file is gone.
  \<^item> \<open>verify_step\<close> is one system call of \<open>verify_image\<close> with what the code does on its answer; the calls
    are those of the source, in order. A fault of the hash is \<open>V_Fault\<close>.
  \<^item> \<open>istep\<close> adds the other program: it creates, writes, renames and removes files, and changes their
    times and modes as their owner, but has no access to a file of root without write permission.
    The launcher may be killed at any point (\<open>i_exit\<close>).
    The kernel's part is the documented one of \<open>open\<close>, \<open>chown\<close>, \<open>chmod\<close> and \<open>fcntl(F_SETLEASE)\<close>.
\<close>

section \<open>State\<close>

abbreviation EXIT_IMG_BAD :: int where "EXIT_IMG_BAD \<equiv> 3"

abbreviation EXIT_IMG_MISSING :: int where "EXIT_IMG_MISSING \<equiv> 4"

record inode =
  f_data :: bytes
  f_ino :: u64
  f_uid :: u32
  f_mode :: u32
  f_mtim_sec :: "64 word"
  f_mtim_nsec :: "64 word"
  f_reg :: bool

datatype entry = E_File nat | E_Symlink

text \<open>Each state but the last four is about to make the call it is named after, for an image name and its pin.\<close>

datatype vproc = V_Open string string | V_Stat string string nat | V_Chown string string nat
  | V_Chmod string string nat | V_Lease string string nat | V_Read string string nat sha256 nat
  | V_Stamp string string nat | V_Done string nat | V_Exit int | V_Fault | V_Idle

record isys =
  iy_files :: "nat \<Rightarrow> inode"
  iy_next :: nat
  iy_dir :: "string \<Rightarrow> entry option"
  iy_writers :: "nat list"
  iy_stamps :: "string \<Rightarrow> string option"
  iy_proc :: vproc

text \<open>The manifest, the device the images are on, and \<open>g_verify_cmd\<close>.\<close>

record iconfig =
  ic_manifest :: "string option"
  ic_dev :: u64
  ic_verify :: bool

datatype sys_answer = Sys_Ok | Sys_Fail | Sys_Intr | Sys_Read nat

definition fstat :: "iconfig \<Rightarrow> inode \<Rightarrow> stat" where
  "fstat cf f =
     \<lparr>st_dev = ic_dev cf, st_ino = f_ino f, st_size = of_nat (length (f_data f)), st_mtim_sec = f_mtim_sec f,
      st_mtim_nsec = f_mtim_nsec f, st_uid = f_uid f, st_mode = f_mode f, st_reg = f_reg f\<rparr>"

section \<open>The program\<close>

definition img_fail :: "iconfig \<Rightarrow> int \<Rightarrow> isys \<Rightarrow> isys" where
  "img_fail cf code s = s\<lparr>iy_proc := V_Exit (if ic_verify cf then code else 1)\<rparr>"

definition verify_begin :: "iconfig \<Rightarrow> string \<Rightarrow> isys \<Rightarrow> isys" where
  "verify_begin cf name s =
     (case manifest_pin (ic_manifest cf) name of
        None \<Rightarrow> img_fail cf EXIT_IMG_BAD s
      | Some pin \<Rightarrow> s\<lparr>iy_proc := V_Open name pin\<rparr>)"

definition set_file :: "nat \<Rightarrow> (inode \<Rightarrow> inode) \<Rightarrow> isys \<Rightarrow> isys" where
  "set_file f g s = s\<lparr>iy_files := (iy_files s)(f := g (iy_files s f))\<rparr>"

text \<open>Write permission is the octal 0222, read permission 0444; the read buffer has a mebibyte.\<close>

definition unwritable :: "u32 \<Rightarrow> bool" where
  "unwritable mode = (mode AND 0x92 = 0)"

definition verify_open :: "iconfig \<Rightarrow> sys_answer \<Rightarrow> string \<Rightarrow> string \<Rightarrow> isys \<Rightarrow> isys" where
  "verify_open cf a name pin s =
     (case iy_dir s name of
        None \<Rightarrow> img_fail cf EXIT_IMG_MISSING s
      | Some E_Symlink \<Rightarrow> img_fail cf EXIT_IMG_BAD s
      | Some (E_File f) \<Rightarrow>
          if a = Sys_Fail then img_fail cf EXIT_IMG_BAD s else s\<lparr>iy_proc := V_Stat name pin f\<rparr>)"

definition verify_stat :: "iconfig \<Rightarrow> sys_answer \<Rightarrow> string \<Rightarrow> string \<Rightarrow> nat \<Rightarrow> isys \<Rightarrow> isys" where
  "verify_stat cf a name pin f s =
     (let st = fstat cf (iy_files s f)
      in if a = Sys_Fail \<or> \<not> st_reg st then img_fail cf EXIT_IMG_BAD s
         else if st_uid st = 0 \<and> unwritable (st_mode st) \<and> stamp_matches (iy_stamps s name) st pin
         then s\<lparr>iy_proc := V_Done name f\<rparr>
         else s\<lparr>iy_proc := V_Chown name pin f\<rparr>)"

definition read_chunk :: "iconfig \<Rightarrow> nat \<Rightarrow> string \<Rightarrow> string \<Rightarrow> nat \<Rightarrow> sha256 \<Rightarrow> nat \<Rightarrow> isys \<Rightarrow> isys" where
  "read_chunk cf n name pin f sh pos s =
     (let chunk = take n (drop pos (f_data (iy_files s f)))
      in if chunk \<noteq> [] then
           (case sha256_update sh chunk of
              None \<Rightarrow> s\<lparr>iy_proc := V_Fault\<rparr>
            | Some sh \<Rightarrow> s\<lparr>iy_proc := V_Read name pin f sh (pos + length chunk)\<rparr>)
         else
           (case sha256_hex sh of
              None \<Rightarrow> s\<lparr>iy_proc := V_Fault\<rparr>
            | Some hex \<Rightarrow>
                if hex \<noteq> pin then img_fail cf EXIT_IMG_BAD s else s\<lparr>iy_proc := V_Stamp name pin f\<rparr>))"

definition verify_read :: "iconfig \<Rightarrow> sys_answer \<Rightarrow> string \<Rightarrow> string \<Rightarrow> nat \<Rightarrow> sha256 \<Rightarrow> nat \<Rightarrow> isys \<Rightarrow> isys" where
  "verify_read cf a name pin f sh pos s =
     (case a of
        Sys_Intr \<Rightarrow> s
      | Sys_Fail \<Rightarrow> img_fail cf EXIT_IMG_BAD s
      | Sys_Read n \<Rightarrow> read_chunk cf (max 1 (min n 0x100000)) name pin f sh pos s
      | Sys_Ok \<Rightarrow> read_chunk cf 0x100000 name pin f sh pos s)"

text \<open>Writing the stamp may fail without notice; that is the answer \<open>Sys_Intr\<close> in the state \<open>V_Stamp\<close>.\<close>

fun vstep :: "iconfig \<Rightarrow> sys_answer \<Rightarrow> vproc \<Rightarrow> isys \<Rightarrow> isys" where
  "vstep cf a (V_Open name pin) s = verify_open cf a name pin s"
| "vstep cf a (V_Stat name pin f) s = verify_stat cf a name pin f s"
| "vstep cf a (V_Chown name pin f) s =
     (if a = Sys_Fail then img_fail cf EXIT_IMG_BAD s
      else (set_file f (f_uid_update (\<lambda>_. 0)) s)\<lparr>iy_proc := V_Chmod name pin f\<rparr>)"
| "vstep cf a (V_Chmod name pin f) s =
     (if a = Sys_Fail then img_fail cf EXIT_IMG_BAD s
      else (set_file f (f_mode_update (\<lambda>_. 0x124)) s)\<lparr>iy_proc := V_Lease name pin f\<rparr>)"
| "vstep cf a (V_Lease name pin f) s =
     (if a = Sys_Fail \<or> f \<in> set (iy_writers s) then img_fail cf EXIT_IMG_BAD s
      else s\<lparr>iy_proc := V_Read name pin f (sha256_init sha_start) 0\<rparr>)"
| "vstep cf a (V_Read name pin f sh pos) s = verify_read cf a name pin f sh pos s"
| "vstep cf a (V_Stamp name pin f) s =
     (if a = Sys_Fail then img_fail cf EXIT_IMG_BAD s
      else s\<lparr>iy_stamps := (if a = Sys_Intr then iy_stamps s
               else (iy_stamps s)(name \<mapsto> stamp_write (fstat cf (iy_files s f)) pin)),
             iy_proc := V_Done name f\<rparr>)"
| "vstep cf a p s = s"

definition verify_step :: "iconfig \<Rightarrow> sys_answer \<Rightarrow> isys \<Rightarrow> isys" where
  "verify_step cf a s = vstep cf a (iy_proc s) s"

fun ended :: "vproc \<Rightarrow> bool" where
  "ended (V_Done name f) = True"
| "ended (V_Exit code) = True"
| "ended V_Idle = True"
| "ended p = False"

section \<open>The other program\<close>

fun holds :: "vproc \<Rightarrow> nat \<Rightarrow> bool" where
  "holds (V_Stat n p f) g = (f = g)"
| "holds (V_Chown n p f) g = (f = g)"
| "holds (V_Chmod n p f) g = (f = g)"
| "holds (V_Lease n p f) g = (f = g)"
| "holds (V_Read n p f sh pos) g = (f = g)"
| "holds (V_Stamp n p f) g = (f = g)"
| "holds (V_Done n f) g = (f = g)"
| "holds p g = False"

definition in_use :: "isys \<Rightarrow> nat \<Rightarrow> bool" where
  "in_use s f \<longleftrightarrow> (\<exists>n. iy_dir s n = Some (E_File f)) \<or> f \<in> set (iy_writers s) \<or> holds (iy_proc s) f"

text \<open>\<open>reuse\<close>: the file system gives a new file the inode number of a file that is gone.\<close>

definition ino_free :: "bool \<Rightarrow> isys \<Rightarrow> u64 \<Rightarrow> bool" where
  "ino_free reuse s i \<longleftrightarrow> (\<forall>f < iy_next s. f_ino (iy_files s f) = i \<longrightarrow> reuse \<and> \<not> in_use s f)"

inductive istep :: "bool \<Rightarrow> iconfig \<Rightarrow> isys \<Rightarrow> isys \<Rightarrow> bool" for reuse cf where
  i_begin: "ended (iy_proc s) \<Longrightarrow> istep reuse cf s (verify_begin cf name s)"
| i_exit: "istep reuse cf s (s\<lparr>iy_proc := V_Idle\<rparr>)"
| i_step: "istep reuse cf s (verify_step cf a s)"
| i_create: "f_uid x \<noteq> 0 \<Longrightarrow> ino_free reuse s (f_ino x) \<Longrightarrow>
    istep reuse cf s (s\<lparr>iy_files := (iy_files s)(iy_next s := x), iy_next := iy_next s + 1,
      iy_dir := (iy_dir s)(n \<mapsto> E_File (iy_next s)),
      iy_writers := iy_next s # iy_writers s\<rparr>)"
| i_open: "iy_dir s n = Some (E_File f) \<Longrightarrow> f_uid (iy_files s f) \<noteq> 0 \<or> \<not> unwritable (f_mode (iy_files s f)) \<Longrightarrow>
    istep reuse cf s (s\<lparr>iy_writers := f # iy_writers s\<rparr>)"
| i_write: "f \<in> set (iy_writers s) \<Longrightarrow>
    istep reuse cf s (set_file f (\<lambda>x. x\<lparr>f_data := d, f_mtim_sec := t, f_mtim_nsec := u\<rparr>) s)"
| i_close: "istep reuse cf s (s\<lparr>iy_writers := remove1 f (iy_writers s)\<rparr>)"
| i_owner: "f < iy_next s \<Longrightarrow> f_uid (iy_files s f) \<noteq> 0 \<Longrightarrow>
    istep reuse cf s (set_file f (\<lambda>x. x\<lparr>f_mode := m, f_mtim_sec := t, f_mtim_nsec := u\<rparr>) s)"
| i_rename: "istep reuse cf s (s\<lparr>iy_dir := (iy_dir s)(n := None, n' := iy_dir s n)\<rparr>)"
| i_unlink: "istep reuse cf s (s\<lparr>iy_dir := (iy_dir s)(n := None)\<rparr>)"
| i_symlink: "istep reuse cf s (s\<lparr>iy_dir := (iy_dir s)(n \<mapsto> E_Symlink)\<rparr>)"
| i_link: "iy_dir s n = Some e \<Longrightarrow> istep reuse cf s (s\<lparr>iy_dir := (iy_dir s)(n' \<mapsto> e)\<rparr>)"

definition image_init :: isys where
  "image_init = \<lparr>iy_files = (\<lambda>_. \<lparr>f_data = [], f_ino = 0, f_uid = 0, f_mode = 0, f_mtim_sec = 0, f_mtim_nsec = 0, f_reg = True\<rparr>),
     iy_next = 0, iy_dir = (\<lambda>_. None), iy_writers = [], iy_stamps = (\<lambda>_. None), iy_proc = V_Idle\<rparr>"

section \<open>A sealed file stays as it is\<close>

definition sealed :: "isys \<Rightarrow> nat \<Rightarrow> string \<Rightarrow> bool" where
  "sealed s f pin \<longleftrightarrow> f < iy_next s \<and> f_uid (iy_files s f) = 0 \<and> unwritable (f_mode (iy_files s f)) \<and>
     f \<notin> set (iy_writers s) \<and> hex_digest (fips_sha256 (f_data (iy_files s f))) = pin"

lemma unwritable_0444 [simp]: "unwritable 0x124"
  by (simp add: unwritable_def)

text \<open>What a step of \<open>verify_image\<close> can do to the files: give one to root, or take its write permission.\<close>

lemma verify_step_frame:
  "iy_next (verify_step cf a s) = iy_next s \<and> iy_dir (verify_step cf a s) = iy_dir s \<and>
   iy_writers (verify_step cf a s) = iy_writers s"
  by (cases "iy_proc s") (auto simp: verify_step_def verify_open_def verify_stat_def verify_read_def read_chunk_def img_fail_def
      set_file_def Let_def split: option.split entry.split sys_answer.split)

lemma verify_step_file:
  "f_data (iy_files (verify_step cf a s) g) = f_data (iy_files s g) \<and>
   f_ino (iy_files (verify_step cf a s) g) = f_ino (iy_files s g) \<and>
   (f_uid (iy_files s g) = 0 \<longrightarrow> f_uid (iy_files (verify_step cf a s) g) = 0) \<and>
   (unwritable (f_mode (iy_files s g)) \<longrightarrow> unwritable (f_mode (iy_files (verify_step cf a s) g)))"
  by (cases "iy_proc s") (auto simp: verify_step_def verify_open_def verify_stat_def verify_read_def read_chunk_def img_fail_def
      set_file_def Let_def split: option.split entry.split sys_answer.split)

lemma verify_begin_frame:
  "iy_next (verify_begin cf n s) = iy_next s \<and> iy_dir (verify_begin cf n s) = iy_dir s \<and>
   iy_writers (verify_begin cf n s) = iy_writers s \<and> iy_files (verify_begin cf n s) = iy_files s \<and>
   iy_stamps (verify_begin cf n s) = iy_stamps s"
  by (simp add: verify_begin_def img_fail_def split: option.split)

lemma sealed_step: "istep reuse cf s t \<Longrightarrow> sealed s f pin \<Longrightarrow> sealed t f pin"
proof (induction rule: istep.induct)
  case (i_begin s n)
  then show ?case using verify_begin_frame [of cf n s] by (simp add: sealed_def)
next
  case (i_step s a)
  then show ?case using verify_step_frame [of cf a s] verify_step_file [of cf a s f] by (simp add: sealed_def)
qed (auto simp: sealed_def set_file_def dest: notin_set_remove1)

lemma sealed_run: "(istep reuse cf)\<^sup>*\<^sup>* s t \<Longrightarrow> sealed s f pin \<Longrightarrow> sealed t f pin"
  by (induction rule: rtranclp_induct) (auto intro: sealed_step)

section \<open>The invariant without reuse of inode numbers\<close>

definition inos_distinct :: "isys \<Rightarrow> bool" where
  "inos_distinct s \<longleftrightarrow> (\<forall>f g. f < iy_next s \<longrightarrow> g < iy_next s \<longrightarrow> f_ino (iy_files s f) = f_ino (iy_files s g) \<longrightarrow> f = g)"

definition dir_ok :: "isys \<Rightarrow> bool" where
  "dir_ok s \<longleftrightarrow> (\<forall>n f. iy_dir s n = Some (E_File f) \<longrightarrow> f < iy_next s) \<and> (\<forall>f \<in> set (iy_writers s). f < iy_next s)"

definition stamp_ok :: "isys \<Rightarrow> string \<Rightarrow> bool" where
  "stamp_ok s text \<longleftrightarrow> (\<exists>f st pin. text = stamp_write st pin \<and> length pin = 64 \<and> word_chars pin \<and>
     st_ino st = f_ino (iy_files s f) \<and> sealed s f pin)"

text \<open>What \<open>verify_image\<close> has established at each point.\<close>

fun proc_ok :: "iconfig \<Rightarrow> isys \<Rightarrow> vproc \<Rightarrow> bool" where
  "proc_ok cf s (V_Open n pin) \<longleftrightarrow> manifest_pin (ic_manifest cf) n = Some pin"
| "proc_ok cf s (V_Stat n pin f) \<longleftrightarrow> manifest_pin (ic_manifest cf) n = Some pin \<and> f < iy_next s"
| "proc_ok cf s (V_Chown n pin f) \<longleftrightarrow> manifest_pin (ic_manifest cf) n = Some pin \<and> f < iy_next s"
| "proc_ok cf s (V_Chmod n pin f) \<longleftrightarrow> manifest_pin (ic_manifest cf) n = Some pin \<and> f < iy_next s \<and>
     f_uid (iy_files s f) = 0"
| "proc_ok cf s (V_Lease n pin f) \<longleftrightarrow> manifest_pin (ic_manifest cf) n = Some pin \<and> f < iy_next s \<and>
     f_uid (iy_files s f) = 0 \<and> unwritable (f_mode (iy_files s f))"
| "proc_ok cf s (V_Read n pin f sh pos) \<longleftrightarrow> manifest_pin (ic_manifest cf) n = Some pin \<and>
     sealed s f (hex_digest (fips_sha256 (f_data (iy_files s f)))) \<and> tracked (take pos (f_data (iy_files s f))) sh"
| "proc_ok cf s (V_Stamp n pin f) \<longleftrightarrow> manifest_pin (ic_manifest cf) n = Some pin \<and> sealed s f pin"
| "proc_ok cf s (V_Done n f) \<longleftrightarrow> (\<exists>pin. manifest_pin (ic_manifest cf) n = Some pin \<and> sealed s f pin)"
| "proc_ok cf s V_Fault \<longleftrightarrow> False"
| "proc_ok cf s p \<longleftrightarrow> True"

definition image_inv :: "iconfig \<Rightarrow> isys \<Rightarrow> bool" where
  "image_inv cf s \<longleftrightarrow> inos_distinct s \<and> dir_ok s \<and> (\<forall>n text. iy_stamps s n = Some text \<longrightarrow> stamp_ok s text) \<and>
     proc_ok cf s (iy_proc s)"

text \<open>What survives every step.\<close>

definition evolves :: "isys \<Rightarrow> isys \<Rightarrow> bool" where
  "evolves s t \<longleftrightarrow> iy_next s \<le> iy_next t \<and>
     (\<forall>f < iy_next s. f_ino (iy_files t f) = f_ino (iy_files s f) \<and>
        (f_uid (iy_files s f) = 0 \<longrightarrow> f_uid (iy_files t f) = 0 \<and>
          (unwritable (f_mode (iy_files s f)) \<longrightarrow> unwritable (f_mode (iy_files t f)))) \<and>
        (\<forall>pin. sealed s f pin \<longrightarrow> sealed t f pin \<and> f_data (iy_files t f) = f_data (iy_files s f)))"

lemma istep_evolves: "istep reuse cf s t \<Longrightarrow> evolves s t"
proof -
  assume step: "istep reuse cf s t"
  have "iy_next s \<le> iy_next t \<and> (\<forall>f < iy_next s. f_ino (iy_files t f) = f_ino (iy_files s f) \<and>
      (f_uid (iy_files s f) = 0 \<longrightarrow> f_uid (iy_files t f) = 0 \<and>
        (unwritable (f_mode (iy_files s f)) \<longrightarrow> unwritable (f_mode (iy_files t f)))) \<and>
      (f \<notin> set (iy_writers s) \<longrightarrow> f_data (iy_files t f) = f_data (iy_files s f)))"
    using step
  proof (induction rule: istep.induct)
    case (i_begin s n)
    then show ?case using verify_begin_frame [of cf n s] by simp
  next
    case (i_step s a)
    then show ?case using verify_step_frame [of cf a s] verify_step_file [of cf a s] by simp
  qed (auto simp: set_file_def)
  then show ?thesis using sealed_step [OF step] by (auto simp: evolves_def sealed_def)
qed

lemma evolves_stamp: "evolves s t \<Longrightarrow> stamp_ok s text \<Longrightarrow> stamp_ok t text"
proof -
  assume e: "evolves s t" and "stamp_ok s text"
  then obtain f st pin where "text = stamp_write st pin" "length pin = 64" "word_chars pin"
    "st_ino st = f_ino (iy_files s f)" and sealed: "sealed s f pin" by (auto simp: stamp_ok_def)
  moreover have "f < iy_next s" using sealed by (simp add: sealed_def)
  then have "sealed t f pin" "f_ino (iy_files t f) = f_ino (iy_files s f)" using e sealed by (auto simp: evolves_def)
  ultimately show "stamp_ok t text" unfolding stamp_ok_def by (metis (no_types))
qed

lemma evolves_proc: "evolves s t \<Longrightarrow> proc_ok cf s p \<Longrightarrow> proc_ok cf t p"
proof (cases p)
  case (V_Read n pin f sh pos)
  assume e: "evolves s t" and "proc_ok cf s p"
  then have *: "sealed s f (hex_digest (fips_sha256 (f_data (iy_files s f))))" using V_Read by simp
  then have "f < iy_next s" by (simp add: sealed_def)
  with e * have "sealed t f (hex_digest (fips_sha256 (f_data (iy_files s f))))" "f_data (iy_files t f) = f_data (iy_files s f)"
    by (auto simp: evolves_def)
  with V_Read \<open>proc_ok cf s p\<close> show ?thesis by simp
next
  case (V_Stamp n pin f)
  assume "evolves s t" "proc_ok cf s p"
  then show ?thesis using V_Stamp by (auto simp: evolves_def sealed_def)
next
  case (V_Done n f)
  assume "evolves s t" "proc_ok cf s p"
  then show ?thesis using V_Done by (auto simp: evolves_def sealed_def)
qed (auto simp: evolves_def)

lemma distinct_cong:
  "iy_next t = iy_next s \<Longrightarrow> (\<And>f. f_ino (iy_files t f) = f_ino (iy_files s f)) \<Longrightarrow> inos_distinct s \<Longrightarrow> inos_distinct t"
  by (simp only: inos_distinct_def)

lemma distinct_create:
  assumes "inos_distinct s" "ino_free False s (f_ino x)"
  shows "inos_distinct (s\<lparr>iy_files := (iy_files s)(iy_next s := x), iy_next := iy_next s + 1, iy_dir := d, iy_writers := w\<rparr>)"
proof -
  have free: "f_ino (iy_files s f) \<noteq> f_ino x" if "f < iy_next s" for f using assms(2) that by (auto simp: ino_free_def)
  have old: "f = g" if "f < iy_next s" "g < iy_next s" "f_ino (iy_files s f) = f_ino (iy_files s g)" for f g
    using assms(1) that unfolding inos_distinct_def by blast
  show ?thesis unfolding inos_distinct_def
  proof (intro allI impI, simp)
    fix f g
    assume fg: "f < Suc (iy_next s)" "g < Suc (iy_next s)"
      and ino: "f_ino (if f = iy_next s then x else iy_files s f) = f_ino (if g = iy_next s then x else iy_files s g)"
    then consider "f = iy_next s" "g = iy_next s" | "f = iy_next s" "g < iy_next s" | "f < iy_next s" "g = iy_next s"
      | "f < iy_next s" "g < iy_next s" by linarith
    then show "f = g"
      by cases (use free old ino in \<open>auto split: if_splits\<close>)
  qed
qed

lemma step_distinct:
  assumes "istep False cf s t" "inos_distinct s"
  shows "inos_distinct t"
  using assms
proof (induction rule: istep.induct)
  case (i_begin s n)
  show ?case by (rule distinct_cong [OF _ _ i_begin(2)]) (simp_all add: verify_begin_frame)
next
  case (i_exit s)
  show ?case by (rule distinct_cong [OF _ _ i_exit(1)]) simp_all
next
  case (i_step s a)
  show ?case by (rule distinct_cong [OF _ _ i_step]) (simp_all add: verify_step_frame verify_step_file)
next
  case (i_create x s n)
  show ?case by (rule distinct_create [OF i_create(3,2)])
next
  case (i_open s n f)
  show ?case by (rule distinct_cong [OF _ _ i_open(3)]) simp_all
next
  case (i_write f s d t u)
  show ?case by (rule distinct_cong [OF _ _ i_write(2)]) (simp_all add: set_file_def)
next
  case (i_close s f)
  show ?case by (rule distinct_cong [OF _ _ i_close]) simp_all
next
  case (i_owner f s m t u)
  show ?case by (rule distinct_cong [OF _ _ i_owner(3)]) (simp_all add: set_file_def)
next
  case (i_rename s n n')
  show ?case by (rule distinct_cong [OF _ _ i_rename]) simp_all
next
  case (i_unlink s n)
  show ?case by (rule distinct_cong [OF _ _ i_unlink]) simp_all
next
  case (i_symlink s n)
  show ?case by (rule distinct_cong [OF _ _ i_symlink]) simp_all
next
  case (i_link s n e n')
  show ?case by (rule distinct_cong [OF _ _ i_link(2)]) simp_all
qed

lemma step_dir: "istep reuse cf s t \<Longrightarrow> dir_ok s \<Longrightarrow> dir_ok t"
proof (induction rule: istep.induct)
  case (i_begin s n)
  then show ?case using verify_begin_frame [of cf n s] by (simp add: dir_ok_def)
next
  case (i_step s a)
  then show ?case using verify_step_frame [of cf a s] by (simp add: dir_ok_def)
next
  case (i_create x s n)
  then show ?case by (auto simp: dir_ok_def less_Suc_eq)
next
  case (i_close s f)
  then show ?case using set_remove1_subset [of f "iy_writers s"] by (auto simp: dir_ok_def)
next
  case (i_link s n e n')
  then show ?case by (auto simp: dir_ok_def)
qed (simp_all add: dir_ok_def set_file_def)

section \<open>The invariant is kept\<close>

text \<open>A stamp that matches is that of the file itself, as long as inode numbers are not used again.\<close>

lemma stamp_match_sealed:
  assumes "inos_distinct s" "stamp_ok s text" "stamp_matches (Some text) (fstat cf (iy_files s f)) pin"
    "length pin = 64" "f < iy_next s"
  shows "sealed s f pin"
proof -
  from assms(2) obtain g st pin' where tx: "text = stamp_write st pin'" and pin': "length pin' = 64" "word_chars pin'"
    and ino: "st_ino st = f_ino (iy_files s g)" and sealed: "sealed s g pin'" by (auto simp: stamp_ok_def)
  have "stamp_text st pin' = stamp_text (fstat cf (iy_files s f)) pin"
    using assms(3) stamp_roundtrip [OF pin' assms(4)] by (simp add: tx)
  then have "f_ino (iy_files s g) = f_ino (iy_files s f)" "pin' = pin"
    using ino by (simp_all add: stamp_text_inject fstat_def)
  moreover have "g < iy_next s" using sealed by (simp add: sealed_def)
  ultimately show ?thesis using assms(1,5) sealed unfolding inos_distinct_def by blast
qed

lemma step_open:
  "dir_ok s \<Longrightarrow> proc_ok cf s (V_Open n pin) \<Longrightarrow>
   proc_ok cf (verify_open cf a n pin s) (iy_proc (verify_open cf a n pin s))"
  by (auto simp: verify_open_def img_fail_def dir_ok_def split: option.split entry.split)

lemma step_stat:
  assumes "image_inv cf s" "proc_ok cf s (V_Stat n pin f)"
  shows "proc_ok cf (verify_stat cf a n pin f s) (iy_proc (verify_stat cf a n pin f s))"
proof -
  let ?st = "fstat cf (iy_files s f)"
  have pin: "manifest_pin (ic_manifest cf) n = Some pin" and f: "f < iy_next s" using assms(2) by simp_all
  have "sealed s f pin" if m: "stamp_matches (iy_stamps s n) ?st pin"
  proof -
    from m obtain x where x: "iy_stamps s n = Some x" by (auto simp: stamp_matches_def split: option.splits)
    with assms(1) have "stamp_ok s x" "inos_distinct s" by (auto simp: image_inv_def)
    with stamp_match_sealed m x manifest_pin_chars [OF pin] f show ?thesis by metis
  qed
  then show ?thesis using pin f by (auto simp: verify_stat_def Let_def img_fail_def sealed_def)
qed

lemma step_chunk:
  assumes ok: "proc_ok cf s (V_Read n pin f sh pos)" and k: "0 < k"
  shows "proc_ok cf (read_chunk cf k n pin f sh pos s) (iy_proc (read_chunk cf k n pin f sh pos s))"
proof -
  let ?d = "f_data (iy_files s f)"
  let ?c = "take k (drop pos ?d)"
  have pin: "manifest_pin (ic_manifest cf) n = Some pin" and sealed: "sealed s f (hex_digest (fips_sha256 ?d))"
    and tr: "tracked (take pos ?d) sh" using ok by simp_all
  show ?thesis
  proof (cases "?c = []")
    case True
    then have "take pos ?d = ?d" using k by simp
    with tr have hex: "sha256_hex sh = Some (hex_digest (fips_sha256 ?d))" by (metis sha256_hex_tracked)
    show ?thesis using True hex pin sealed
      by (cases "hex_digest (fips_sha256 ?d) = pin") (simp_all add: read_chunk_def img_fail_def sealed_def)
  next
    case False
    obtain sh' where sh': "sha256_update sh ?c = Some sh'" "tracked (take pos ?d @ ?c) sh'"
      using tr by (rule sha256_update_tracked)
    have "take (pos + length ?c) ?d = take pos ?d @ ?c" by (simp add: take_add min_def)
    with sh' False pin sealed show ?thesis
      by (simp add: read_chunk_def sealed_def)
  qed
qed

lemma step_read:
  assumes "proc_ok cf s (V_Read n pin f sh pos)" "iy_proc s = V_Read n pin f sh pos"
  shows "proc_ok cf (verify_read cf a n pin f sh pos s) (iy_proc (verify_read cf a n pin f sh pos s))"
  using assms step_chunk [OF assms(1)]
  by (cases a) (simp_all add: verify_read_def img_fail_def)

lemma step_stamps:
  "iy_stamps (verify_step cf a s) = iy_stamps s \<or>
   (\<exists>n pin f. iy_proc s = V_Stamp n pin f \<and>
      iy_stamps (verify_step cf a s) = (iy_stamps s)(n \<mapsto> stamp_write (fstat cf (iy_files s f)) pin))"
  by (cases "iy_proc s") (auto simp: verify_step_def verify_open_def verify_stat_def verify_read_def read_chunk_def
      img_fail_def set_file_def Let_def split: option.split entry.split sys_answer.split)

lemma step_proc:
  assumes inv: "image_inv cf s"
  shows "proc_ok cf (verify_step cf a s) (iy_proc (verify_step cf a s))"
proof -
  have ok: "proc_ok cf s (iy_proc s)" and dir: "dir_ok s" using inv by (simp_all add: image_inv_def)
  show ?thesis
  proof (cases "iy_proc s")
    case (V_Open n pin)
    then show ?thesis using step_open [OF dir] ok by (simp add: verify_step_def)
  next
    case (V_Stat n pin f)
    then show ?thesis using step_stat [OF inv] ok by (simp add: verify_step_def)
  next
    case (V_Read n pin f sh pos)
    then show ?thesis using step_read ok by (simp add: verify_step_def)
  next
    case (V_Lease n pin f)
    then show ?thesis using ok sha256_init_tracked [of sha_start]
      by (simp add: verify_step_def img_fail_def sealed_def sha_start_def)
  next
    case (V_Stamp n pin f)
    then show ?thesis using ok by (auto simp: verify_step_def img_fail_def sealed_def)
  next
    case (V_Done n f)
    then show ?thesis using ok by (auto simp: verify_step_def)
  next
    case V_Fault
    then show ?thesis using ok by simp
  qed (use ok in \<open>simp_all add: verify_step_def img_fail_def set_file_def\<close>)
qed

lemma step_inv:
  assumes step: "istep False cf s t" and inv: "image_inv cf s"
  shows "image_inv cf t"
proof -
  have ev: "evolves s t" by (rule istep_evolves [OF step])
  have keep: "proc_ok cf t (iy_proc t)" if "iy_proc t = iy_proc s"
    using evolves_proc [OF ev] inv that by (simp add: image_inv_def)
  have "proc_ok cf t (iy_proc t)"
    using step
  proof cases
    case (i_begin name)
    then show ?thesis by (simp add: verify_begin_def img_fail_def split: option.split)
  next
    case i_exit
    then show ?thesis by simp
  next
    case (i_step a)
    then show ?thesis using step_proc [OF inv] by simp
  qed (rule keep, simp add: set_file_def)+
  moreover have "stamp_ok t x" if x: "iy_stamps t n = Some x" for n x
  proof -
    have old: "stamp_ok t x" if "iy_stamps s n = Some x"
      using evolves_stamp [OF ev] inv that by (auto simp: image_inv_def)
    have "iy_stamps t = iy_stamps s \<or> (\<exists>n pin f. iy_proc s = V_Stamp n pin f \<and>
        iy_stamps t = (iy_stamps s)(n \<mapsto> stamp_write (fstat cf (iy_files s f)) pin))"
      using step by cases (simp_all add: verify_begin_frame step_stamps set_file_def)
    then show ?thesis
    proof
      assume "iy_stamps t = iy_stamps s"
      with x old show ?thesis by simp
    next
      assume "\<exists>n pin f. iy_proc s = V_Stamp n pin f \<and>
        iy_stamps t = (iy_stamps s)(n \<mapsto> stamp_write (fstat cf (iy_files s f)) pin)"
      then obtain m pin f where p: "iy_proc s = V_Stamp m pin f"
        and t: "iy_stamps t = (iy_stamps s)(m \<mapsto> stamp_write (fstat cf (iy_files s f)) pin)" by blast
      have pin: "manifest_pin (ic_manifest cf) m = Some pin" and sealed: "sealed s f pin"
        using inv p by (simp_all add: image_inv_def)
      have "stamp_ok s (stamp_write (fstat cf (iy_files s f)) pin)"
        unfolding stamp_ok_def using sealed manifest_pin_chars [OF pin] by (metis fstat_def stat.select_convs(2))
      then show ?thesis using x old t evolves_stamp [OF ev] by (auto split: if_splits)
    qed
  qed
  ultimately show ?thesis using step_distinct [OF step] step_dir [OF step] inv by (simp add: image_inv_def)
qed

lemma reach_image_inv: "(istep False cf)\<^sup>*\<^sup>* image_init s \<Longrightarrow> image_inv cf s"
proof (induction rule: rtranclp_induct)
  case base
  show ?case by (simp add: image_inv_def image_init_def inos_distinct_def dir_ok_def)
next
  case (step s t)
  then show ?case by (simp add: step_inv)
qed

text \<open>
  C13: An image \<open>verify_image\<close> returns is the pinned one, and stays it. As long as inode numbers are not
  used again, and whatever a program without privileges does to the files before, during and after: the
  file behind the descriptor has exactly the digest the manifest pins for its name, from then on.
\<close>

theorem image_verified:
  assumes "(istep False cf)\<^sup>*\<^sup>* image_init s" "iy_proc s = V_Done name f" "(istep False cf)\<^sup>*\<^sup>* s t"
  shows "manifest_pin (ic_manifest cf) name = Some (hex_digest (fips_sha256 (f_data (iy_files t f))))"
proof -
  obtain pin where pin: "manifest_pin (ic_manifest cf) name = Some pin" "sealed s f pin"
    using reach_image_inv [OF assms(1)] assms(2) by (auto simp: image_inv_def)
  from sealed_run [OF assms(3) pin(2)] pin(1) show ?thesis by (simp add: sealed_def)
qed

section \<open>Undisturbed verification\<close>

text \<open>\<open>verify_run cf k s\<close>: the first \<open>k\<close> calls, all of which succeed.\<close>

definition verify_run :: "iconfig \<Rightarrow> nat \<Rightarrow> isys \<Rightarrow> isys" where
  "verify_run cf k s = (verify_step cf Sys_Ok ^^ k) s"

lemma verify_run_add: "verify_run cf (k + l) s = verify_run cf l (verify_run cf k s)"
  by (simp add: verify_run_def funpow_add [symmetric] add.commute flip: comp_apply [of "_ ^^ _"])

lemma verify_run_Suc: "verify_run cf (Suc k) s = verify_run cf k (verify_step cf Sys_Ok s)"
  by (simp add: verify_run_def funpow_swap1)

definition read_result :: "iconfig \<Rightarrow> string \<Rightarrow> string \<Rightarrow> nat \<Rightarrow> isys \<Rightarrow> isys" where
  "read_result cf name pin f s =
     (if hex_digest (fips_sha256 (f_data (iy_files s f))) = pin then s\<lparr>iy_proc := V_Stamp name pin f\<rparr>
      else img_fail cf EXIT_IMG_BAD s)"

lemma read_all:
  assumes "tracked (take pos (f_data (iy_files s f))) sh"
  shows "\<exists>k. verify_run cf k (s\<lparr>iy_proc := V_Read name pin f sh pos\<rparr>) = read_result cf name pin f s"
  using assms
proof (induction "length (f_data (iy_files s f)) - pos" arbitrary: pos sh rule: less_induct)
  case less
  let ?d = "f_data (iy_files s f)" and ?s = "\<lambda>sh pos. s\<lparr>iy_proc := V_Read name pin f sh pos\<rparr>"
  let ?c = "take 0x100000 (drop pos ?d)"
  show ?case
  proof (cases "?c = []")
    case True
    then have "take pos ?d = ?d" by simp
    with less.prems have "sha256_hex sh = Some (hex_digest (fips_sha256 ?d))" by (metis sha256_hex_tracked)
    then have "verify_run cf 1 (?s sh pos) = read_result cf name pin f s" using True
      by (simp add: verify_run_def verify_step_def verify_read_def read_chunk_def read_result_def img_fail_def)
    then show ?thesis by blast
  next
    case False
    obtain sh' where sh': "sha256_update sh ?c = Some sh'" "tracked (take pos ?d @ ?c) sh'"
      using less.prems by (rule sha256_update_tracked)
    let ?p = "pos + length ?c"
    have step: "verify_step cf Sys_Ok (?s sh pos) = ?s sh' ?p"
      using False sh' by (simp add: verify_step_def verify_read_def read_chunk_def)
    have "take ?p ?d = take pos ?d @ ?c" by (simp add: take_add min_def)
    with sh' have "tracked (take ?p ?d) sh'" by simp
    moreover have "0 < length ?c" "pos < length ?d" using False by auto
    then have "length ?d - ?p < length ?d - pos" by linarith
    ultimately obtain k where "verify_run cf k (?s sh' ?p) = read_result cf name pin f s" using less.hyps by blast
    then have "verify_run cf (Suc k) (?s sh pos) = read_result cf name pin f s" by (simp only: verify_run_Suc step)
    then show ?thesis by blast
  qed
qed

text \<open>The file as \<open>verify_image\<close> leaves it, whether it accepts it or not.\<close>

definition adopted :: "nat \<Rightarrow> isys \<Rightarrow> isys" where
  "adopted f s = set_file f (\<lambda>x. x\<lparr>f_uid := 0, f_mode := 0x124\<rparr>) s"

definition verify_result :: "iconfig \<Rightarrow> string \<Rightarrow> string \<Rightarrow> nat \<Rightarrow> isys \<Rightarrow> isys" where
  "verify_result cf name pin f s =
     (let t = adopted f s
      in if hex_digest (fips_sha256 (f_data (iy_files s f))) = pin
         then t\<lparr>iy_stamps := (iy_stamps t)(name \<mapsto> stamp_write (fstat cf (iy_files t f)) pin), iy_proc := V_Done name f\<rparr>
         else img_fail cf EXIT_IMG_BAD t)"

lemma verify_completes:
  assumes "iy_proc s = V_Open name pin" "iy_dir s name = Some (E_File f)" "f_reg (iy_files s f)"
    "f_uid (iy_files s f) \<noteq> 0" "f \<notin> set (iy_writers s)"
  obtains k where "verify_run cf k s = verify_result cf name pin f s"
proof -
  let ?t = "adopted f s"
  have start: "verify_run cf 5 s = ?t\<lparr>iy_proc := V_Read name pin f (sha256_init sha_start) 0\<rparr>"
    using assms by (simp add: verify_run_def eval_nat_numeral verify_step_def verify_open_def verify_stat_def fstat_def
      adopted_def set_file_def)
  have "tracked (take 0 (f_data (iy_files ?t f))) (sha256_init sha_start)"
    by (simp add: sha256_init_tracked sha_start_def)
  then obtain k where read: "verify_run cf k (?t\<lparr>iy_proc := V_Read name pin f (sha256_init sha_start) 0\<rparr>) =
      read_result cf name pin f ?t" using read_all by blast
  have data: "f_data (iy_files ?t f) = f_data (iy_files s f)" by (simp add: adopted_def set_file_def)
  have "verify_run cf 1 (read_result cf name pin f ?t) = verify_result cf name pin f s"
    by (simp add: verify_run_def verify_step_def read_result_def verify_result_def data Let_def img_fail_def)
  with start read have "verify_run cf (5 + (k + 1)) s = verify_result cf name pin f s"
    by (simp only: verify_run_add)
  then show ?thesis by (rule that)
qed

text \<open>
  Verification ends, with the right answer. An image that is not root's yet and that nobody has open for
  writing is accepted after finitely many calls if its digest is the pinned one, and refused with the
  code for a bad image otherwise.
\<close>

lemma image_verify_returns:
  assumes "iy_proc s = V_Open name pin" "iy_dir s name = Some (E_File f)" "f_reg (iy_files s f)"
    "f_uid (iy_files s f) \<noteq> 0" "f \<notin> set (iy_writers s)"
  shows "\<exists>k. verify_run cf k s = verify_result cf name pin f s"
  using verify_completes [OF assms] by blast

section \<open>A stamp that outlives its file\<close>

definition good_image :: bytes where "good_image = [0x61, 0x62, 0x63]"

definition bad_image :: bytes where "bad_image = [0x61, 0x62, 0x64]"

definition sample_pin :: string where
  "sample_pin = ''ba7816bf8f01cfea414140de5dae2223b00361a396177a9cb410ff61f20015ad''"

definition sample_config :: iconfig where
  "sample_config = \<lparr>ic_manifest = Some (manifest_text [(''system.img'', sample_pin)]), ic_dev = 7, ic_verify = True\<rparr>"

definition sample_file :: "bytes \<Rightarrow> inode" where
  "sample_file d = \<lparr>f_data = d, f_ino = 12, f_uid = 20010, f_mode = 0x1A4, f_mtim_sec = 100, f_mtim_nsec = 5, f_reg = True\<rparr>"

lemma sample_manifest: "manifest_pin (ic_manifest sample_config) ''system.img'' = Some sample_pin"
proof -
  have "entry_ok (''system.img'', sample_pin)" by (simp add: entry_ok_def word_chars_def isspace_def sample_pin_def)
  then show ?thesis using manifest_lookup [of "[(''system.img'', sample_pin)]" "''system.img''"]
    by (simp add: sample_config_def) (simp add: sample_pin_def)
qed

lemma good_digest: "hex_digest (fips_sha256 good_image) = sample_pin"
  by (simp only: good_image_def sample_pin_def digest_abc)

lemma bad_digest: "hex_digest (fips_sha256 bad_image) \<noteq> sample_pin"
  by (simp add: bad_image_def sample_pin_def digest_abd)

definition publish :: "string \<Rightarrow> inode \<Rightarrow> isys \<Rightarrow> isys" where
  "publish n x s = s\<lparr>iy_files := (iy_files s)(iy_next s := x), iy_next := iy_next s + 1,
     iy_dir := (iy_dir s)(n \<mapsto> E_File (iy_next s))\<rparr>"

lemma publish_run:
  assumes "f_uid x \<noteq> 0" "ino_free reuse s (f_ino x)"
  shows "(istep reuse cf)\<^sup>*\<^sup>* s (publish n x s)"
proof -
  let ?t = "s\<lparr>iy_files := (iy_files s)(iy_next s := x), iy_next := iy_next s + 1,
      iy_dir := (iy_dir s)(n \<mapsto> E_File (iy_next s)), iy_writers := iy_next s # iy_writers s\<rparr>"
  have "istep reuse cf s ?t" using assms by (rule i_create)
  moreover have "istep reuse cf ?t (?t\<lparr>iy_writers := remove1 (iy_next s) (iy_writers ?t)\<rparr>)" by (rule i_close)
  moreover have "?t\<lparr>iy_writers := remove1 (iy_next s) (iy_writers ?t)\<rparr> = publish n x s" by (simp add: publish_def)
  ultimately show ?thesis by (metis (no_types) converse_rtranclp_into_rtranclp rtranclp.rtrancl_refl)
qed

lemma verify_run_steps: "(istep reuse cf)\<^sup>*\<^sup>* s (verify_run cf k s)"
  by (induction k) (auto simp: verify_run_def intro: rtranclp.rtrancl_into_rtrancl i_step)

lemma verify_call_run:
  assumes "ended (iy_proc s)" "manifest_pin (ic_manifest cf) name = Some pin" "iy_dir s name = Some (E_File f)"
    "f_reg (iy_files s f)" "f_uid (iy_files s f) \<noteq> 0" "f \<notin> set (iy_writers s)"
  shows "(istep reuse cf)\<^sup>*\<^sup>* s (verify_result cf name pin f s)"
proof -
  let ?s = "s\<lparr>iy_proc := V_Open name pin\<rparr>"
  have begin_call: "istep reuse cf s ?s" using i_begin [OF assms(1), of reuse cf name] assms(2) by (simp add: verify_begin_def)
  obtain k where "verify_run cf k ?s = verify_result cf name pin f ?s"
    by (rule verify_completes [of ?s name pin f cf]) (simp_all add: assms)
  moreover have "verify_result cf name pin f ?s = verify_result cf name pin f s"
    by (simp add: verify_result_def adopted_def set_file_def img_fail_def Let_def)
  ultimately have "(istep reuse cf)\<^sup>*\<^sup>* ?s (verify_result cf name pin f s)" using verify_run_steps by metis
  with begin_call show ?thesis by (rule converse_rtranclp_into_rtranclp)
qed

definition good_published :: isys where
  "good_published = publish ''system.img'' (sample_file good_image) image_init"

definition good_verified :: isys where
  "good_verified = verify_result sample_config ''system.img'' sample_pin 0 good_published"

definition swapped :: isys where
  "swapped = publish ''system.img'' (sample_file bad_image)
     (good_verified\<lparr>iy_dir := (iy_dir good_verified)(''system.img'' := None), iy_proc := V_Idle\<rparr>)"

definition refused :: isys where
  "refused = verify_result sample_config ''system.img'' sample_pin 1 swapped"

lemma good_verified_run: "(istep reuse sample_config)\<^sup>*\<^sup>* image_init good_verified"
proof -
  have "(istep reuse sample_config)\<^sup>*\<^sup>* image_init good_published" unfolding good_published_def
    by (rule publish_run) (simp_all add: sample_file_def ino_free_def image_init_def)
  also have "(istep reuse sample_config)\<^sup>*\<^sup>* good_published good_verified" unfolding good_verified_def
    by (rule verify_call_run) (simp_all add: sample_manifest good_published_def publish_def image_init_def sample_file_def)
  finally show ?thesis .
qed

definition root_file :: "bytes \<Rightarrow> inode" where
  "root_file d = (sample_file d)\<lparr>f_uid := 0, f_mode := 0x124\<rparr>"

lemma good_verified_done: "iy_proc good_verified = V_Done ''system.img'' 0"
  and good_verified_rest: "iy_next good_verified = 1" "iy_writers good_verified = []"
    "iy_files good_verified 0 = root_file good_image" "iy_dir good_verified n = (if n = ''system.img'' then Some (E_File 0) else None)"
    "iy_stamps good_verified ''system.img'' = Some (stamp_write (fstat sample_config (root_file good_image)) sample_pin)"
  by (simp_all add: good_verified_def good_published_def publish_def verify_result_def adopted_def set_file_def Let_def
      sample_file_def image_init_def root_file_def good_digest)

definition good_unlinked :: isys where
  "good_unlinked = good_verified\<lparr>iy_dir := (iy_dir good_verified)(''system.img'' := None)\<rparr>"

theorem image_verified_witness:
  "(istep False sample_config)\<^sup>*\<^sup>* image_init good_verified \<and> iy_proc good_verified = V_Done ''system.img'' 0 \<and>
   (istep False sample_config)\<^sup>*\<^sup>* good_verified good_unlinked \<and>
   manifest_pin (ic_manifest sample_config) ''system.img'' =
     Some (hex_digest (fips_sha256 (f_data (iy_files good_unlinked 0))))"
proof -
  have "istep False sample_config good_verified good_unlinked" unfolding good_unlinked_def by (rule i_unlink)
  then have run: "(istep False sample_config)\<^sup>*\<^sup>* good_verified good_unlinked" by blast
  show ?thesis
    using image_verified [OF good_verified_run good_verified_done run] good_verified_run good_verified_done run by blast
qed

definition good_opened :: isys where
  "good_opened = good_published\<lparr>iy_proc := V_Open ''system.img'' sample_pin\<rparr>"

lemma swapped_run: "(istep True sample_config)\<^sup>*\<^sup>* good_verified swapped"
proof -
  let ?v = "good_verified\<lparr>iy_dir := (iy_dir good_verified)(''system.img'' := None), iy_proc := V_Idle\<rparr>"
  have unlink: "istep True sample_config good_verified good_unlinked" unfolding good_unlinked_def by (rule i_unlink)
  have "istep True sample_config good_unlinked (good_unlinked\<lparr>iy_proc := V_Idle\<rparr>)"
    by (rule i_exit)
  then have exit: "istep True sample_config good_unlinked ?v" by (simp add: good_unlinked_def)
  have free: "ino_free True ?v (f_ino (sample_file bad_image))"
    by (auto simp: ino_free_def in_use_def good_verified_rest split: if_splits)
  have "(istep True sample_config)\<^sup>*\<^sup>* ?v swapped" unfolding swapped_def
    by (rule publish_run [OF _ free]) (simp add: sample_file_def)
  with exit have "(istep True sample_config)\<^sup>*\<^sup>* good_unlinked swapped" by (rule converse_rtranclp_into_rtranclp)
  with unlink show ?thesis by (rule converse_rtranclp_into_rtranclp)
qed

lemma swapped_state:
  "iy_proc swapped = V_Idle" "iy_writers swapped = []" "iy_dir swapped ''system.img'' = Some (E_File 1)"
  "iy_files swapped 1 = sample_file bad_image" "iy_stamps swapped = iy_stamps good_verified"
  by (simp_all add: swapped_def publish_def good_verified_rest)

lemma refused_run: "(istep True sample_config)\<^sup>*\<^sup>* swapped refused"
  unfolding refused_def by (rule verify_call_run) (simp_all only: sample_manifest swapped_state, simp_all add: sample_file_def)

lemma refused_state:
  "iy_proc refused = V_Exit EXIT_IMG_BAD" "iy_dir refused ''system.img'' = Some (E_File 1)"
  "iy_files refused 1 = root_file bad_image"
  "iy_stamps refused ''system.img'' = Some (stamp_write (fstat sample_config (root_file good_image)) sample_pin)"
proof -
  have "hex_digest (fips_sha256 (f_data (iy_files swapped 1))) \<noteq> sample_pin"
    using bad_digest by (simp only: swapped_state) (simp add: sample_file_def)
  then have eq: "refused = img_fail sample_config EXIT_IMG_BAD (adopted 1 swapped)"
    by (simp only: refused_def verify_result_def Let_def if_False)
  have "ic_verify sample_config" by (simp add: sample_config_def)
  then show "iy_proc refused = V_Exit EXIT_IMG_BAD" by (simp add: eq img_fail_def)
  show "iy_dir refused ''system.img'' = Some (E_File 1)" "iy_files refused 1 = root_file bad_image"
    "iy_stamps refused ''system.img'' = Some (stamp_write (fstat sample_config (root_file good_image)) sample_pin)"
    using swapped_state good_verified_rest(5)
    by (simp_all add: eq img_fail_def adopted_def set_file_def root_file_def)
qed

text \<open>The stamp of the good image is also the stamp of the bad one: inode number, size and time are the same.\<close>

lemma stamp_of_bad:
  "stamp_matches (iy_stamps refused ''system.img'') (fstat sample_config (iy_files refused 1)) sample_pin"
proof -
  have "length sample_pin = 64" "word_chars sample_pin"
    using manifest_pin_chars [OF sample_manifest] by auto
  moreover have "stamp_text (fstat sample_config (root_file good_image)) sample_pin =
      stamp_text (fstat sample_config (root_file bad_image)) sample_pin"
    by (simp add: fstat_def root_file_def sample_file_def good_image_def bad_image_def)
  ultimately show ?thesis using stamp_roundtrip by (simp only: refused_state)
qed


end
