(* ===== verification/Wd_Start.thy ===== *)
theory Wd_Start
  imports Wd_Image
begin

text \<open>
  The start of the container (\<open>main\<close>, \<open>loop_attach\<close> and \<open>loop_hold_autoclear\<close> in
  \<open>waydroid/launcher/waydroidd.c\<close>): which file ends up behind which loop device, over any number of starts and
  kills, while the other program of \<open>istep\<close> works on the directory of the images.

  \<^item> \<open>lsys\<close> adds to \<open>isys\<close> how far \<open>main\<close> is, with the descriptors and devices it has, and the file behind
    each loop device.
  \<^item> A device keeps its file when the launcher is gone until the kernel clears it (\<open>l_clear\<close>), because the
    mounts of the container may live on for a while.
  \<^item> What the scan of \<open>/sys/block\<close> finds is an argument: a device counts as found when the kernel names the
    path asked for as its backing file, that is, when the file it has is the one at that path now.
\<close>

section \<open>State\<close>

text \<open>The descriptors and devices \<open>main\<close> holds are files and device numbers.\<close>

datatype phase = M_Off | M_System | M_Vendor nat | M_AttachSystem nat nat | M_AttachVendor nat nat | M_Run nat nat

record lsys =
  ls_sys :: isys
  ls_phase :: phase
  ls_loops :: "nat \<Rightarrow> nat option"

datatype scan_answer = Scan_Found nat | Scan_Free nat | Scan_Fail

section \<open>Attaching\<close>

definition backing_is :: "lsys \<Rightarrow> nat \<Rightarrow> string \<Rightarrow> bool" where
  "backing_is s i name =
     (case ls_loops s i of None \<Rightarrow> False | Some g \<Rightarrow> iy_dir (ls_sys s) name = Some (E_File g))"

definition loop_attach :: "string \<Rightarrow> nat \<Rightarrow> scan_answer \<Rightarrow> lsys \<Rightarrow> nat option \<times> lsys" where
  "loop_attach name vfd a s =
     (case a of
        Scan_Found i \<Rightarrow> if backing_is s i name then (Some i, s) else (None, s)
      | Scan_Free i \<Rightarrow>
          if ls_loops s i = None then (Some i, s\<lparr>ls_loops := (ls_loops s)(i \<mapsto> vfd)\<rparr>) else (None, s)
      | Scan_Fail \<Rightarrow> (None, s))"

definition start_verify :: "iconfig \<Rightarrow> string \<Rightarrow> phase \<Rightarrow> lsys \<Rightarrow> lsys" where
  "start_verify cf name p s = s\<lparr>ls_sys := verify_begin cf name (ls_sys s), ls_phase := p\<rparr>"

definition launcher_dies :: "lsys \<Rightarrow> lsys" where
  "launcher_dies s = s\<lparr>ls_sys := (ls_sys s)\<lparr>iy_proc := V_Idle\<rparr>, ls_phase := M_Off\<rparr>"

text \<open>One step of \<open>main\<close> after its checks; \<open>a\<close> answers a call of \<open>verify_image\<close>, \<open>b\<close> the scan.\<close>

definition main_step :: "iconfig \<Rightarrow> sys_answer \<Rightarrow> scan_answer \<Rightarrow> lsys \<Rightarrow> lsys" where
  "main_step cf a b s =
     (case ls_phase s of
        M_Off \<Rightarrow> start_verify cf ''system.img'' M_System s
      | M_System \<Rightarrow>
          (case iy_proc (ls_sys s) of
             V_Done _ f \<Rightarrow> start_verify cf ''vendor.img'' (M_Vendor f) s
           | V_Exit _ \<Rightarrow> launcher_dies s
           | _ \<Rightarrow> s\<lparr>ls_sys := verify_step cf a (ls_sys s)\<rparr>)
      | M_Vendor f \<Rightarrow>
          (case iy_proc (ls_sys s) of
             V_Done _ g \<Rightarrow> s\<lparr>ls_phase := M_AttachSystem f g\<rparr>
           | V_Exit _ \<Rightarrow> launcher_dies s
           | _ \<Rightarrow> s\<lparr>ls_sys := verify_step cf a (ls_sys s)\<rparr>)
      | M_AttachSystem f g \<Rightarrow>
          (case loop_attach ''system.img'' f b s of
             (None, s) \<Rightarrow> launcher_dies s
           | (Some i, s) \<Rightarrow> s\<lparr>ls_phase := M_AttachVendor i g\<rparr>)
      | M_AttachVendor i g \<Rightarrow>
          (case loop_attach ''vendor.img'' g b s of
             (None, s) \<Rightarrow> launcher_dies s
           | (Some j, s) \<Rightarrow> s\<lparr>ls_phase := M_Run i j\<rparr>)
      | M_Run i j \<Rightarrow> s)"

inductive lstep :: "iconfig \<Rightarrow> lsys \<Rightarrow> lsys \<Rightarrow> bool" for cf where
  l_main: "lstep cf s (main_step cf a b s)"
| l_other: "istep False cf (ls_sys s) t \<Longrightarrow> iy_proc t = iy_proc (ls_sys s) \<Longrightarrow> lstep cf s (s\<lparr>ls_sys := t\<rparr>)"
| l_kill: "lstep cf s (launcher_dies s)"
| l_clear: "ls_phase s = M_Off \<Longrightarrow> lstep cf s (s\<lparr>ls_loops := (ls_loops s)(i := None)\<rparr>)"

definition launcher_init :: lsys where
  "launcher_init = \<lparr>ls_sys = image_init, ls_phase = M_Off, ls_loops = (\<lambda>_. None)\<rparr>"

section \<open>Only verified files are attached\<close>

definition pinned :: "iconfig \<Rightarrow> isys \<Rightarrow> nat \<Rightarrow> bool" where
  "pinned cf s f \<longleftrightarrow> (\<exists>name pin. manifest_pin (ic_manifest cf) name = Some pin \<and> sealed s f pin)"

fun phase_ok :: "iconfig \<Rightarrow> isys \<Rightarrow> (nat \<Rightarrow> nat option) \<Rightarrow> phase \<Rightarrow> bool" where
  "phase_ok cf s l M_Off \<longleftrightarrow> iy_proc s = V_Idle"
| "phase_ok cf s l M_System \<longleftrightarrow> True"
| "phase_ok cf s l (M_Vendor f) \<longleftrightarrow> pinned cf s f"
| "phase_ok cf s l (M_AttachSystem f g) \<longleftrightarrow> pinned cf s f \<and> pinned cf s g"
| "phase_ok cf s l (M_AttachVendor i g) \<longleftrightarrow> l i \<noteq> None \<and> pinned cf s g"
| "phase_ok cf s l (M_Run i j) \<longleftrightarrow> l i \<noteq> None \<and> l j \<noteq> None"

definition launcher_ok :: "iconfig \<Rightarrow> isys \<Rightarrow> (nat \<Rightarrow> nat option) \<Rightarrow> phase \<Rightarrow> bool" where
  "launcher_ok cf s l p \<longleftrightarrow> image_inv cf s \<and> phase_ok cf s l p \<and> (\<forall>i f. l i = Some f \<longrightarrow> pinned cf s f)"

abbreviation launcher_inv :: "iconfig \<Rightarrow> lsys \<Rightarrow> bool" where
  "launcher_inv cf s \<equiv> launcher_ok cf (ls_sys s) (ls_loops s) (ls_phase s)"

lemma pinned_step: "istep reuse cf s t \<Longrightarrow> pinned cf s f \<Longrightarrow> pinned cf t f"
  using sealed_step by (fastforce simp: pinned_def)

text \<open>A step of the files, after which \<open>main\<close> is at \<open>q\<close>.\<close>

lemma ok_move:
  "launcher_ok cf s l p \<Longrightarrow> istep False cf s t \<Longrightarrow> phase_ok cf t l q \<Longrightarrow> launcher_ok cf t l q"
  unfolding launcher_ok_def by (blast intro: pinned_step step_inv)

lemma phase_ok_step:
  "phase_ok cf s l p \<Longrightarrow> istep False cf s t \<Longrightarrow> p \<noteq> M_Off \<or> iy_proc t = V_Idle \<Longrightarrow> phase_ok cf t l p"
  by (cases p) (auto intro: pinned_step)

lemma ok_step:
  "launcher_ok cf s l p \<Longrightarrow> istep False cf s t \<Longrightarrow> p \<noteq> M_Off \<or> iy_proc t = V_Idle \<Longrightarrow> launcher_ok cf t l p"
  by (rule ok_move, assumption+, rule phase_ok_step) (simp_all add: launcher_ok_def)

lemma ok_dies: "launcher_inv cf s \<Longrightarrow> launcher_inv cf (launcher_dies s)"
  using ok_move [OF _ i_exit] by (simp add: launcher_dies_def)

lemma ok_verify:
  "launcher_inv cf s \<Longrightarrow> ended (iy_proc (ls_sys s)) \<Longrightarrow> phase_ok cf (ls_sys s) (ls_loops s) p \<Longrightarrow> p \<noteq> M_Off \<Longrightarrow>
     launcher_inv cf (start_verify cf name p s)"
  using ok_move [OF _ i_begin] phase_ok_step [OF _ i_begin] by (simp add: start_verify_def)

lemma ok_call: "launcher_inv cf s \<Longrightarrow> ls_phase s \<noteq> M_Off \<Longrightarrow> launcher_inv cf (s\<lparr>ls_sys := verify_step cf a (ls_sys s)\<rparr>)"
  using ok_step [OF _ i_step] by simp

lemma done_pinned: "launcher_inv cf s \<Longrightarrow> iy_proc (ls_sys s) = V_Done name f \<Longrightarrow> pinned cf (ls_sys s) f"
  by (auto simp: launcher_ok_def image_inv_def pinned_def)

lemma loop_attach_frame:
  assumes "loop_attach name f b s = (r, t)"
  shows "ls_sys t = ls_sys s" "ls_phase t = ls_phase s" "r = Some i \<Longrightarrow> ls_loops t i \<noteq> None"
    "ls_loops s k \<noteq> None \<Longrightarrow> ls_loops t k \<noteq> None" "ls_loops t k = Some g \<Longrightarrow> ls_loops s k = Some g \<or> g = f"
  using assms by (auto simp: loop_attach_def backing_is_def split: scan_answer.splits if_splits option.splits)

lemma ok_attach:
  assumes "launcher_inv cf s" "pinned cf (ls_sys s) f" "loop_attach name f b s = (r, t)" "phase_ok cf (ls_sys s) (ls_loops t) p"
  shows "launcher_ok cf (ls_sys t) (ls_loops t) p"
  using assms loop_attach_frame [OF assms(3)] by (simp add: launcher_ok_def) blast

lemma main_step_inv: "launcher_inv cf s \<Longrightarrow> launcher_inv cf (main_step cf a b s)"
proof (cases "ls_phase s")
  assume inv: "launcher_inv cf s"
  {
    case M_Off
    then have "ended (iy_proc (ls_sys s))" using inv by (simp add: launcher_ok_def)
    with inv M_Off show ?thesis using ok_verify [of cf s M_System] by (simp add: main_step_def)
  next
    case M_System
    with inv show ?thesis using done_pinned [OF inv] ok_call [OF inv] ok_dies [OF inv] ok_verify [OF inv]
      by (simp add: main_step_def split: vproc.split)
  next
    case (M_Vendor f)
    have "launcher_ok cf (ls_sys s) (ls_loops s) (M_AttachSystem f g)" if "iy_proc (ls_sys s) = V_Done n g" for n g
      using inv done_pinned [OF inv that] M_Vendor by (simp add: launcher_ok_def)
    with inv M_Vendor show ?thesis using ok_call [OF inv] ok_dies [OF inv] by (simp add: main_step_def split: vproc.split)
  next
    case (M_AttachSystem f g)
    obtain r t where att: "loop_attach ''system.img'' f b s = (r, t)" by fastforce
    have pin: "pinned cf (ls_sys s) f" "pinned cf (ls_sys s) g" using inv M_AttachSystem by (auto simp: launcher_ok_def)
    have "launcher_inv cf t" using ok_attach [OF inv pin(1) att] loop_attach_frame [OF att] pin M_AttachSystem by simp
    moreover have "launcher_ok cf (ls_sys t) (ls_loops t) (M_AttachVendor i g)" if "r = Some i" for i
      using ok_attach [OF inv pin(1) att] loop_attach_frame(3) [OF att that] pin by simp
    ultimately show ?thesis using M_AttachSystem att ok_dies by (simp add: main_step_def split: option.split)
  next
    case (M_AttachVendor i g)
    obtain r t where att: "loop_attach ''vendor.img'' g b s = (r, t)" by fastforce
    have pin: "pinned cf (ls_sys s) g" "ls_loops s i \<noteq> None" using inv M_AttachVendor by (auto simp: launcher_ok_def)
    have "launcher_inv cf t" using ok_attach [OF inv pin(1) att] loop_attach_frame [OF att] pin M_AttachVendor by simp
    moreover have "launcher_ok cf (ls_sys t) (ls_loops t) (M_Run i j)" if "r = Some j" for j
      using ok_attach [OF inv pin(1) att] loop_attach_frame(3) [OF att that] loop_attach_frame(4) [OF att pin(2)] by simp
    ultimately show ?thesis using M_AttachVendor att ok_dies by (simp add: main_step_def split: option.split)
  next
    case (M_Run i j)
    with inv show ?thesis by (simp add: main_step_def)
  }
qed

lemma lstep_inv: "lstep cf s t \<Longrightarrow> launcher_inv cf s \<Longrightarrow> launcher_inv cf t"
proof (induction rule: lstep.induct)
  case (l_other s t)
  then have "ls_phase s \<noteq> M_Off \<or> iy_proc t = V_Idle" by (auto simp: launcher_ok_def)
  with l_other show ?case by (auto intro: ok_step)
next
  case (l_clear s i)
  then show ?case by (auto simp: launcher_ok_def)
qed (auto intro: main_step_inv ok_dies)

lemma reach_launcher_inv: "(lstep cf)\<^sup>*\<^sup>* launcher_init s \<Longrightarrow> launcher_inv cf s"
proof (induction rule: rtranclp_induct)
  case base
  have "image_inv cf image_init" using reach_image_inv by blast
  then show ?case by (simp add: launcher_init_def launcher_ok_def) (simp add: image_init_def)
qed (auto intro: lstep_inv)


section \<open>A run\<close>

definition vendor_pin :: string where
  "vendor_pin = ''a52d159f262b2c6ddb724a61840befc36eb30c88877a4030b65cbe86298449c9''"

definition two_config :: iconfig where
  "two_config = \<lparr>ic_manifest = Some (manifest_text [(''system.img'', sample_pin), (''vendor.img'', vendor_pin)]),
     ic_dev = 7, ic_verify = True\<rparr>"

lemma two_manifest:
  "manifest_pin (ic_manifest two_config) ''system.img'' = Some sample_pin"
  "manifest_pin (ic_manifest two_config) ''vendor.img'' = Some vendor_pin"
proof -
  let ?es = "[(''system.img'', sample_pin), (''vendor.img'', vendor_pin)]"
  have "\<forall>e \<in> set ?es. entry_ok e"
    by (simp add: entry_ok_def word_chars_def isspace_def sample_pin_def vendor_pin_def)
  moreover have "length sample_pin = 64" "length vendor_pin = 64" by (simp_all add: sample_pin_def vendor_pin_def)
  ultimately show "manifest_pin (ic_manifest two_config) ''system.img'' = Some sample_pin"
    "manifest_pin (ic_manifest two_config) ''vendor.img'' = Some vendor_pin"
    using manifest_lookup [of ?es] by (simp_all add: two_config_def)
qed

lemma vendor_digest: "hex_digest (fips_sha256 bad_image) = vendor_pin"
  by (simp only: bad_image_def vendor_pin_def digest_abd)

lemma main_runs_verify:
  assumes "ls_phase s = M_System \<or> ls_phase s = M_Vendor f"
  shows "(lstep cf)\<^sup>*\<^sup>* s (s\<lparr>ls_sys := verify_run cf k (ls_sys s)\<rparr>)"
proof (induction k)
  case (Suc k)
  let ?t = "s\<lparr>ls_sys := verify_run cf k (ls_sys s)\<rparr>"
  have turn: "verify_run cf (Suc k) (ls_sys s) = verify_step cf Sys_Ok (ls_sys ?t)" by (simp add: verify_run_def)
  show ?case
  proof (cases "ended (iy_proc (ls_sys ?t))")
    case True
    then have "verify_step cf Sys_Ok (ls_sys ?t) = ls_sys ?t"
      by (cases "iy_proc (ls_sys ?t)") (simp_all add: verify_step_def)
    then show ?thesis using Suc turn by simp
  next
    case False
    then have "main_step cf Sys_Ok Scan_Fail ?t = ?t\<lparr>ls_sys := verify_step cf Sys_Ok (ls_sys ?t)\<rparr>"
      using assms by (cases "iy_proc (ls_sys ?t)") (auto simp: main_step_def)
    then have "lstep cf ?t (s\<lparr>ls_sys := verify_run cf (Suc k) (ls_sys s)\<rparr>)"
      using l_main [of cf ?t Sys_Ok Scan_Fail] turn by simp
    with Suc show ?thesis by (rule rtranclp.rtrancl_into_rtrancl)
  qed
qed (simp add: verify_run_def)

lemma main_verifies:
  assumes "ls_phase s = M_System \<or> ls_phase s = M_Vendor h" "iy_proc (ls_sys s) = V_Open name pin"
    "iy_dir (ls_sys s) name = Some (E_File f)" "f_reg (iy_files (ls_sys s) f)" "f_uid (iy_files (ls_sys s) f) \<noteq> 0"
    "f \<notin> set (iy_writers (ls_sys s))"
  shows "(lstep cf)\<^sup>*\<^sup>* s (s\<lparr>ls_sys := verify_result cf name pin f (ls_sys s)\<rparr>)"
  using verify_completes [OF assms(2-)] main_runs_verify [OF assms(1)] by metis

lemma main_knows:
  assumes "ls_phase s = M_System \<or> ls_phase s = M_Vendor h" "iy_proc (ls_sys s) = V_Open name pin"
    "iy_dir (ls_sys s) name = Some (E_File f)" "f_reg (iy_files (ls_sys s) f)" "f_uid (iy_files (ls_sys s) f) = 0"
    "unwritable (f_mode (iy_files (ls_sys s) f))"
    "iy_stamps (ls_sys s) name = Some (stamp_write (fstat cf (iy_files (ls_sys s) f)) pin)"
    "manifest_pin (ic_manifest cf) name = Some pin"
  shows "(lstep cf)\<^sup>*\<^sup>* s (s\<lparr>ls_sys := (ls_sys s)\<lparr>iy_proc := V_Done name f\<rparr>\<rparr>)"
proof -
  have "stamp_matches (iy_stamps (ls_sys s) name) (fstat cf (iy_files (ls_sys s) f)) pin"
    using stamp_roundtrip manifest_pin_chars [OF assms(8)] by (simp add: assms(7))
  then have "verify_run cf 2 (ls_sys s) = (ls_sys s)\<lparr>iy_proc := V_Done name f\<rparr>"
    using assms by (simp add: verify_run_def eval_nat_numeral verify_step_def verify_open_def verify_stat_def Let_def)
      (simp add: fstat_def)
  then show ?thesis using main_runs_verify [OF assms(1), of cf 2] by metis
qed

lemma other_moves:
  "istep False cf i t \<Longrightarrow> iy_proc t = iy_proc i \<Longrightarrow> lstep cf (s\<lparr>ls_sys := i\<rparr>) (s\<lparr>ls_sys := t\<rparr>)"
  using l_other [of cf "s\<lparr>ls_sys := i\<rparr>" t] by simp

lemma publish_lstep:
  assumes "f_uid x \<noteq> 0" "ino_free False i (f_ino x)"
  shows "(lstep cf)\<^sup>*\<^sup>* (s\<lparr>ls_sys := i\<rparr>) (s\<lparr>ls_sys := publish n x i\<rparr>)"
proof -
  let ?t = "i\<lparr>iy_files := (iy_files i)(iy_next i := x), iy_next := iy_next i + 1,
      iy_dir := (iy_dir i)(n \<mapsto> E_File (iy_next i)), iy_writers := iy_next i # iy_writers i\<rparr>"
  have "istep False cf ?t (publish n x i)" using i_close [of False cf ?t "iy_next i"] by (simp add: publish_def)
  then have "lstep cf (s\<lparr>ls_sys := ?t\<rparr>) (s\<lparr>ls_sys := publish n x i\<rparr>)" by (rule other_moves) (simp add: publish_def)
  moreover have "lstep cf (s\<lparr>ls_sys := i\<rparr>) (s\<lparr>ls_sys := ?t\<rparr>)" by (rule other_moves [OF i_create [OF assms]]) simp
  ultimately show ?thesis by (meson converse_rtranclp_into_rtranclp r_into_rtranclp)
qed

definition vendor_file :: inode where
  "vendor_file = (sample_file bad_image)\<lparr>f_ino := 13\<rparr>"

definition both :: "inode \<Rightarrow> inode \<Rightarrow> (string \<Rightarrow> string option) \<Rightarrow> vproc \<Rightarrow> isys" where
  "both x y st p =
     \<lparr>iy_files = (iy_files image_init)(0 := x, 1 := y), iy_next = 2,
      iy_dir = [''system.img'' \<mapsto> E_File 0, ''vendor.img'' \<mapsto> E_File 1], iy_writers = [], iy_stamps = st, iy_proc = p\<rparr>"

lemma both_published:
  "publish ''vendor.img'' vendor_file (publish ''system.img'' (sample_file good_image) image_init) =
     both (sample_file good_image) vendor_file Map.empty V_Idle"
  by (simp add: both_def publish_def image_init_def)

text \<open>A state of the run: the files, where \<open>main\<close> is, and the devices.\<close>

definition at :: "inode \<Rightarrow> inode \<Rightarrow> (string \<Rightarrow> string option) \<Rightarrow> vproc \<Rightarrow> phase \<Rightarrow> (nat \<Rightarrow> nat option) \<Rightarrow> lsys" where
  "at x y st p ph l = \<lparr>ls_sys = both x y st p, ls_phase = ph, ls_loops = l\<rparr>"

definition root_vendor :: inode where
  "root_vendor = vendor_file\<lparr>f_uid := 0, f_mode := 0x124\<rparr>"

definition system_stamp :: "string \<Rightarrow> string option" where
  "system_stamp = [''system.img'' \<mapsto> stamp_write (fstat two_config (root_file good_image)) sample_pin]"

definition both_stamps :: "string \<Rightarrow> string option" where
  "both_stamps = system_stamp(''vendor.img'' \<mapsto> stamp_write (fstat two_config root_vendor) vendor_pin)"

lemma published_run:
  "(lstep cf)\<^sup>*\<^sup>* launcher_init (at (sample_file good_image) vendor_file Map.empty V_Idle M_Off Map.empty)"
proof -
  let ?i = "publish ''system.img'' (sample_file good_image) image_init"
  have "(lstep cf)\<^sup>*\<^sup>* (launcher_init\<lparr>ls_sys := image_init\<rparr>) (launcher_init\<lparr>ls_sys := ?i\<rparr>)"
    by (rule publish_lstep) (simp_all add: sample_file_def ino_free_def image_init_def)
  moreover have "launcher_init\<lparr>ls_sys := image_init\<rparr> = launcher_init" by (simp add: launcher_init_def)
  moreover have "(lstep cf)\<^sup>*\<^sup>* (launcher_init\<lparr>ls_sys := ?i\<rparr>) (launcher_init\<lparr>ls_sys := publish ''vendor.img'' vendor_file ?i\<rparr>)"
    by (rule publish_lstep) (simp_all add: vendor_file_def sample_file_def ino_free_def publish_def image_init_def)
  moreover have "launcher_init\<lparr>ls_sys := publish ''vendor.img'' vendor_file ?i\<rparr> =
      at (sample_file good_image) vendor_file Map.empty V_Idle M_Off Map.empty"
    unfolding both_published at_def launcher_init_def by simp
  ultimately show ?thesis by (simp only: rtranclp_trans)
qed

lemma begins_system:
  "lstep two_config (at x y st V_Idle M_Off l) (at x y st (V_Open ''system.img'' sample_pin) M_System l)"
  using l_main [of two_config "at x y st V_Idle M_Off l" Sys_Ok Scan_Fail]
  by (simp add: main_step_def at_def start_verify_def verify_begin_def two_manifest both_def)

lemma begins_vendor:
  "lstep two_config (at x y st (V_Done ''system.img'' 0) M_System l) (at x y st (V_Open ''vendor.img'' vendor_pin) (M_Vendor 0) l)"
  using l_main [of two_config "at x y st (V_Done ''system.img'' 0) M_System l" Sys_Ok Scan_Fail]
  by (simp add: main_step_def at_def start_verify_def verify_begin_def two_manifest both_def)

lemma begins_attach:
  "lstep two_config (at x y st (V_Done ''vendor.img'' 1) (M_Vendor 0) l) (at x y st (V_Done ''vendor.img'' 1) (M_AttachSystem 0 1) l)"
  using l_main [of two_config "at x y st (V_Done ''vendor.img'' 1) (M_Vendor 0) l" Sys_Ok Scan_Fail]
  by (simp add: main_step_def at_def both_def)

lemma verifies_system:
  "(lstep two_config)\<^sup>*\<^sup>* (at (sample_file good_image) vendor_file Map.empty (V_Open ''system.img'' sample_pin) M_System l)
     (at (root_file good_image) vendor_file system_stamp (V_Done ''system.img'' 0) M_System l)"
proof -
  let ?s = "at (sample_file good_image) vendor_file Map.empty (V_Open ''system.img'' sample_pin) M_System l"
  have "(lstep two_config)\<^sup>*\<^sup>* ?s (?s\<lparr>ls_sys := verify_result two_config ''system.img'' sample_pin 0 (ls_sys ?s)\<rparr>)"
    by (rule main_verifies) (simp_all add: at_def both_def sample_file_def)
  moreover have "f_data (sample_file good_image) = good_image" by (simp add: sample_file_def)
  then have "verify_result two_config ''system.img'' sample_pin 0 (ls_sys ?s) =
      both (root_file good_image) vendor_file system_stamp (V_Done ''system.img'' 0)"
    by (simp add: at_def both_def verify_result_def adopted_def set_file_def good_digest system_stamp_def root_file_def fun_upd_twist)
  ultimately show ?thesis by (simp add: at_def)
qed

lemma verifies_vendor:
  "(lstep two_config)\<^sup>*\<^sup>* (at x vendor_file system_stamp (V_Open ''vendor.img'' vendor_pin) (M_Vendor 0) l)
     (at x root_vendor both_stamps (V_Done ''vendor.img'' 1) (M_Vendor 0) l)"
proof -
  let ?s = "at x vendor_file system_stamp (V_Open ''vendor.img'' vendor_pin) (M_Vendor 0) l"
  have "(lstep two_config)\<^sup>*\<^sup>* ?s (?s\<lparr>ls_sys := verify_result two_config ''vendor.img'' vendor_pin 1 (ls_sys ?s)\<rparr>)"
    by (rule main_verifies [of _ 0]) (simp_all add: at_def both_def vendor_file_def sample_file_def)
  moreover have "f_data vendor_file = bad_image" by (simp add: vendor_file_def sample_file_def)
  then have "verify_result two_config ''vendor.img'' vendor_pin 1 (ls_sys ?s) =
      both x root_vendor both_stamps (V_Done ''vendor.img'' 1)"
    by (simp add: at_def both_def verify_result_def adopted_def set_file_def vendor_digest both_stamps_def root_vendor_def)
  ultimately show ?thesis by (simp add: at_def)
qed

abbreviation images_at :: "vproc \<Rightarrow> phase \<Rightarrow> (nat \<Rightarrow> nat option) \<Rightarrow> lsys" where
  "images_at \<equiv> at (root_file good_image) root_vendor both_stamps"

lemma attaches_new:
  "l i = None \<Longrightarrow> lstep cf (at x y st p (M_AttachSystem f g) l) (at x y st p (M_AttachVendor i g) (l(i \<mapsto> f)))"
  "l j = None \<Longrightarrow> lstep cf (at x y st p (M_AttachVendor i g) l) (at x y st p (M_Run i j) (l(j \<mapsto> g)))"
  using l_main [of cf "at x y st p (M_AttachSystem f g) l" Sys_Ok "Scan_Free i"]
    l_main [of cf "at x y st p (M_AttachVendor i g) l" Sys_Ok "Scan_Free j"]
  by (simp_all add: main_step_def at_def loop_attach_def)

lemma run_step: "(lstep cf)\<^sup>*\<^sup>* s t \<Longrightarrow> lstep cf t u \<Longrightarrow> (lstep cf)\<^sup>*\<^sup>* s u"
  by (rule rtranclp.rtrancl_into_rtrancl)

lemma run_more: "(lstep cf)\<^sup>*\<^sup>* s t \<Longrightarrow> (lstep cf)\<^sup>*\<^sup>* t u \<Longrightarrow> (lstep cf)\<^sup>*\<^sup>* s u"
  by (rule rtranclp_trans)

definition first_run :: lsys where
  "first_run = images_at (V_Done ''vendor.img'' 1) (M_Run 0 1) [0 \<mapsto> 0, 1 \<mapsto> 1]"

lemma first_start: "(lstep two_config)\<^sup>*\<^sup>* launcher_init first_run"
proof -
  note r = published_run [of two_config]
  note r = run_more [OF run_step [OF r begins_system] verifies_system]
  note r = run_step [OF run_more [OF run_step [OF r begins_vendor] verifies_vendor] begins_attach]
  note r = run_step [OF run_step [OF r attaches_new(1) [of Map.empty 0]] attaches_new(2) [of "[0 \<mapsto> 0]" 1]]
  then show ?thesis by (simp add: first_run_def)
qed

lemma first_run_files:
  "f_data (iy_files (ls_sys first_run) 0) = good_image" "f_data (iy_files (ls_sys first_run) 1) = bad_image"
  by (simp_all add: first_run_def at_def both_def root_file_def root_vendor_def vendor_file_def sample_file_def)


section \<open>The images can be exchanged\<close>

lemma starts_again:
  "(lstep two_config)\<^sup>*\<^sup>* first_run (images_at (V_Done ''vendor.img'' 1) (M_AttachSystem 0 1) [0 \<mapsto> 0, 1 \<mapsto> 1])"
proof -
  let ?l = "[0 \<mapsto> 0, 1 \<mapsto> 1]"
  have r: "(lstep two_config)\<^sup>*\<^sup>* first_run (images_at V_Idle M_Off ?l)"
    using l_kill [of two_config first_run] by (simp add: first_run_def launcher_dies_def at_def both_def)
  let ?s = "images_at (V_Open ''system.img'' sample_pin) M_System ?l"
  have "(lstep two_config)\<^sup>*\<^sup>* ?s (?s\<lparr>ls_sys := (ls_sys ?s)\<lparr>iy_proc := V_Done ''system.img'' 0\<rparr>\<rparr>)"
    by (rule main_knows) (simp_all add: two_manifest at_def both_def root_file_def sample_file_def both_stamps_def system_stamp_def)
  then have "(lstep two_config)\<^sup>*\<^sup>* ?s (images_at (V_Done ''system.img'' 0) M_System ?l)" by (simp add: at_def both_def)
  note r = run_step [OF run_more [OF run_step [OF r begins_system] this] begins_vendor]
  let ?s = "images_at (V_Open ''vendor.img'' vendor_pin) (M_Vendor 0) ?l"
  have "(lstep two_config)\<^sup>*\<^sup>* ?s (?s\<lparr>ls_sys := (ls_sys ?s)\<lparr>iy_proc := V_Done ''vendor.img'' 1\<rparr>\<rparr>)"
    by (rule main_knows [of _ 0])
      (simp_all add: two_manifest at_def both_def root_vendor_def vendor_file_def sample_file_def both_stamps_def)
  then have "(lstep two_config)\<^sup>*\<^sup>* ?s (images_at (V_Done ''vendor.img'' 1) (M_Vendor 0) ?l)" by (simp add: at_def both_def)
  then show ?thesis by (rule run_step [OF run_more [OF r] begins_attach])
qed


end
