(* ===== verification/Wd_Dhcp.thy ===== *)
theory Wd_Dhcp
  imports Wd_Manifest
begin

text \<open>
  The DHCP server of the container launcher (\<open>dhcp_put\<close> to \<open>dhcp_server_loop\<close> and \<open>host_default_gw\<close> in
  \<open>waydroid/launcher/waydroidd.c\<close>). The frame is a record; \<open>dhcp_decode\<close> and \<open>dhcp_encode\<close> are its layout
  in memory on a little-endian machine. What \<open>recv\<close> and \<open>/proc/net/route\<close> give are arguments, and so
  is what the frame's memory held before.
\<close>

section \<open>The frame\<close>

abbreviation VETH_HOST_IP :: string where "VETH_HOST_IP \<equiv> ''192.168.240.1''"

abbreviation VETH_CONT_IP :: string where "VETH_CONT_IP \<equiv> ''192.168.240.2''"

abbreviation VETH_NETMASK :: string where "VETH_NETMASK \<equiv> ''255.255.255.0''"

abbreviation DHCP_MAGIC :: u32 where "DHCP_MAGIC \<equiv> 0x63825363"

abbreviation DHCP_LEASE_SECS :: u32 where "DHCP_LEASE_SECS \<equiv> 86400"

record dhcp_msg =
  dh_op :: u8
  dh_htype :: u8
  dh_hlen :: u8
  dh_hops :: u8
  dh_xid :: u32
  dh_secs :: u16
  dh_flags :: u16
  dh_ciaddr :: u32
  dh_yiaddr :: u32
  dh_siaddr :: u32
  dh_giaddr :: u32
  dh_chaddr :: bytes
  dh_sname :: bytes
  dh_file :: bytes
  dh_options :: bytes

definition mem32 :: "bytes \<Rightarrow> nat \<Rightarrow> u32" where
  "mem32 m k = le_word32 (m ! k) (m ! (k + 1)) (m ! (k + 2)) (m ! (k + 3))"

definition mem16 :: "bytes \<Rightarrow> nat \<Rightarrow> u16" where
  "mem16 m k = le_word16 (m ! k) (m ! (k + 1))"

definition dhcp_decode :: "bytes \<Rightarrow> dhcp_msg" where
  "dhcp_decode m =
     \<lparr>dh_op = m ! 0, dh_htype = m ! 1, dh_hlen = m ! 2, dh_hops = m ! 3, dh_xid = mem32 m 4, dh_secs = mem16 m 8,
      dh_flags = mem16 m 10, dh_ciaddr = mem32 m 12, dh_yiaddr = mem32 m 16, dh_siaddr = mem32 m 20,
      dh_giaddr = mem32 m 24, dh_chaddr = take 16 (drop 28 m), dh_sname = take 64 (drop 44 m),
      dh_file = take 128 (drop 108 m), dh_options = take 312 (drop 236 m)\<rparr>"

definition dhcp_encode :: "dhcp_msg \<Rightarrow> bytes" where
  "dhcp_encode r =
     [dh_op r, dh_htype r, dh_hlen r, dh_hops r] @ le_bytes32 (dh_xid r) @ le_bytes16 (dh_secs r) @
     le_bytes16 (dh_flags r) @ le_bytes32 (dh_ciaddr r) @ le_bytes32 (dh_yiaddr r) @ le_bytes32 (dh_siaddr r) @
     le_bytes32 (dh_giaddr r) @ dh_chaddr r @ dh_sname r @ dh_file r @ dh_options r"

text \<open>\<open>inet_addr\<close> on four decimal numbers: the address in network order, as a word in memory.\<close>

definition inet_digit :: "char \<Rightarrow> u8" where
  "inet_digit c = of_nat (of_char c - 48)"

fun inet_parts :: "u8 \<Rightarrow> string \<Rightarrow> bytes" where
  "inet_parts v [] = [v]"
| "inet_parts v (c # cs) = (if c = CHR ''.'' then v # inet_parts 0 cs else inet_parts (v * 10 + inet_digit c) cs)"

definition inet_addr :: "string \<Rightarrow> u32" where
  "inet_addr cs = mem32 (inet_parts 0 cs) 0"

definition htonl :: "u32 \<Rightarrow> u32" where
  "htonl v = mem32 (be_bytes32 v) 0"

section \<open>Options\<close>

definition dhcp_put :: "bytes \<Rightarrow> u8 \<Rightarrow> u8 \<Rightarrow> bytes \<Rightarrow> bytes" where
  "dhcp_put opt code len d = opt @ [code, len] @ take (unat len) d"

text \<open>\<open>None\<close> is a read outside the array.\<close>

function dhcp_opt_scan :: "bytes \<Rightarrow> nat \<Rightarrow> u8 \<Rightarrow> nat \<Rightarrow> int option" where
  "dhcp_opt_scan opt optlen want i =
     (if optlen \<le> i then Some (-1)
      else if length opt \<le> i then None
      else if opt ! i = 255 then Some (-1)
      else if opt ! i = 0 then dhcp_opt_scan opt optlen want (i + 1)
      else if optlen \<le> i + 1 then Some (-1)
      else if length opt \<le> i + 1 then None
      else let code = opt ! i; len = unat (opt ! (i + 1))
           in if optlen < i + 2 + len then Some (-1)
              else if code = want \<and> 1 \<le> len then if length opt \<le> i + 2 then None else Some (uint (opt ! (i + 2)))
              else dhcp_opt_scan opt optlen want (i + (2 + len)))"
  by auto

termination by (relation "measure (\<lambda>(opt, optlen, want, i). optlen - i)") auto

declare dhcp_opt_scan.simps [simp del]

definition dhcp_opt_u8 :: "dhcp_msg \<Rightarrow> nat \<Rightarrow> u8 \<Rightarrow> int option" where
  "dhcp_opt_u8 m optlen want = dhcp_opt_scan (dh_options m) optlen want 4"

text \<open>The options as RFC 2132 defines them.\<close>

function tlvs :: "bytes \<Rightarrow> (u8 \<times> bytes) list" where
  "tlvs bs =
     (case bs of
        [] \<Rightarrow> []
      | c # r \<Rightarrow>
          if c = 255 then []
          else if c = 0 then tlvs r
          else case r of
                 [] \<Rightarrow> []
               | l # v \<Rightarrow> if length v < unat l then [] else (c, take (unat l) v) # tlvs (drop (unat l) v))"
  by auto

termination by (relation "measure length") auto

declare tlvs.simps [simp del]

definition option_u8 :: "u8 \<Rightarrow> bytes \<Rightarrow> int" where
  "option_u8 want bs =
     (case find (\<lambda>(c, v). c = want \<and> v \<noteq> []) (tlvs bs) of None \<Rightarrow> -1 | Some (c, v) \<Rightarrow> uint (hd v))"

lemma tlvs_simps [simp]:
  "tlvs [] = []" "tlvs (255 # r) = []" "tlvs (0 # r) = tlvs r"
  "c \<noteq> 255 \<Longrightarrow> c \<noteq> 0 \<Longrightarrow> tlvs [c] = []"
  "c \<noteq> 255 \<Longrightarrow> c \<noteq> 0 \<Longrightarrow>
     tlvs (c # l # v) = (if length v < unat l then [] else (c, take (unat l) v) # tlvs (drop (unat l) v))"
  by (subst tlvs.simps; simp)+

lemma dhcp_opt_scan_spec:
  "optlen \<le> length opt \<Longrightarrow> dhcp_opt_scan opt optlen want i = Some (option_u8 want (drop i (take optlen opt)))"
proof (induction opt optlen want i rule: dhcp_opt_scan.induct)
  case (1 opt optlen want i)
  show ?case
  proof (cases "optlen \<le> i")
    case True
    then show ?thesis by (simp add: dhcp_opt_scan.simps [of opt optlen want i] option_u8_def)
  next
    case in1: False
    let ?r = "drop (Suc i) (take optlen opt)"
    have d1: "drop i (take optlen opt) = opt ! i # ?r"
      using in1 "1.prems" Cons_nth_drop_Suc [of i "take optlen opt"] by simp
    consider "opt ! i = 255" | "opt ! i = 0" | "opt ! i \<noteq> 255" "opt ! i \<noteq> 0" "optlen \<le> Suc i" |
      "opt ! i \<noteq> 255" "opt ! i \<noteq> 0" "Suc i < optlen" by fastforce
    then show ?thesis
    proof cases
      case 1
      then show ?thesis using in1 "1.prems" d1 by (simp add: dhcp_opt_scan.simps [of opt optlen want i] option_u8_def)
    next
      case 2
      then show ?thesis using in1 "1.prems" d1 "1.IH"(1)
        by (simp add: dhcp_opt_scan.simps [of opt optlen want i] option_u8_def)
    next
      case 3
      then show ?thesis using in1 "1.prems" d1 by (simp add: dhcp_opt_scan.simps [of opt optlen want i] option_u8_def)
    next
      case 4
      let ?l = "unat (opt ! Suc i)" and ?v = "drop (Suc (Suc i)) (take optlen opt)"
      have d2: "?r = opt ! Suc i # ?v" using 4 "1.prems" Cons_nth_drop_Suc [of "Suc i" "take optlen opt"] by simp
      have len: "length ?v = optlen - Suc (Suc i)" using "1.prems" by simp
      show ?thesis
      proof (cases "optlen < i + 2 + ?l")
        case True
        then show ?thesis using 4 in1 "1.prems" d1 d2 len
          by (simp add: dhcp_opt_scan.simps [of opt optlen want i] option_u8_def)
      next
        case fits: False
        then have room: "\<not> optlen - Suc (Suc i) < ?l" by linarith
        show ?thesis
        proof (cases "opt ! i = want \<and> 1 \<le> ?l")
          case True
          then have "take ?l ?v \<noteq> [] \<and> hd (take ?l ?v) = opt ! (i + 2)" using fits 4 "1.prems"
            by (simp add: hd_drop_conv_nth)
          then show ?thesis using True 4 in1 fits room "1.prems" d1 d2 len
            by (simp add: dhcp_opt_scan.simps [of opt optlen want i] option_u8_def)
        next
          case False
          then have "\<not> (opt ! i = want \<and> take ?l ?v \<noteq> [])" by auto
          moreover have "drop ?l ?v = drop (i + (2 + ?l)) (take optlen opt)" by (simp add: add.commute)
          moreover have "dhcp_opt_scan opt optlen want i = dhcp_opt_scan opt optlen want (i + (2 + ?l))"
            using False 4 in1 fits "1.prems" by (subst dhcp_opt_scan.simps) (auto simp: Let_def)
          moreover have "dhcp_opt_scan opt optlen want (i + (2 + ?l)) =
              Some (option_u8 want (drop (i + (2 + ?l)) (take optlen opt)))"
            using "1.IH"(2) False 4 in1 fits "1.prems" by (auto simp: Let_def)
          ultimately show ?thesis using 4 room d1 d2 len by (auto simp: option_u8_def)
        qed
      qed
    qed
  qed
qed

section \<open>The default gateway\<close>

text \<open>The conversion \<open>%lx\<close> of \<open>sscanf\<close>, which is \<open>strtoul\<close> in base 16.\<close>

definition hex_value :: "char \<Rightarrow> nat option" where
  "hex_value c =
     (let n = of_char c :: nat
      in if 48 \<le> n \<and> n \<le> 57 then Some (n - 48)
         else if 97 \<le> n \<and> n \<le> 102 then Some (n - 87)
         else if 65 \<le> n \<and> n \<le> 70 then Some (n - 55) else None)"

fun hex_number :: "nat \<Rightarrow> string \<Rightarrow> nat \<times> string" where
  "hex_number v [] = (v, [])"
| "hex_number v (c # cs) = (case hex_value c of None \<Rightarrow> (v, c # cs) | Some d \<Rightarrow> hex_number (v * 16 + d) cs)"

definition is_hex :: "string \<Rightarrow> bool" where
  "is_hex cs = (case cs of [] \<Rightarrow> False | c # _ \<Rightarrow> hex_value c \<noteq> None)"

definition scan_hex :: "string \<Rightarrow> (u64 \<times> string) option" where
  "scan_hex cs =
     (let cs = dropWhile isspace cs;
          neg = (cs \<noteq> [] \<and> hd cs = CHR ''-'');
          cs = (if cs \<noteq> [] \<and> (hd cs = CHR ''-'' \<or> hd cs = CHR ''+'') then tl cs else cs);
          cs = (case cs of
                  z # x # r \<Rightarrow> if z = CHR ''0'' \<and> (x = CHR ''x'' \<or> x = CHR ''X'') \<and> is_hex r then r else cs
                | _ \<Rightarrow> cs)
      in if \<not> is_hex cs then None
         else let (v, r) = hex_number 0 cs; w = (if 2 ^ 64 \<le> v then - 1 else if neg then - of_nat v else of_nat v)
              in Some (w, r))"

definition route_line :: "string \<Rightarrow> u32 option" where
  "route_line line =
     (case scan_word 31 (c_string line) of
        None \<Rightarrow> None
      | Some (_, r) \<Rightarrow>
          (case scan_hex r of
             None \<Rightarrow> None
           | Some (dest, r) \<Rightarrow>
               (case scan_hex r of
                  None \<Rightarrow> None
                | Some (gwv, r) \<Rightarrow>
                    (case scan_hex r of
                       None \<Rightarrow> None
                     | Some (flags, r) \<Rightarrow> if dest = 0 \<and> flags AND 2 \<noteq> 0 \<and> gwv \<noteq> 0 then Some (ucast gwv) else None))))"

function route_scan :: "string \<Rightarrow> u32" where
  "route_scan cs =
     (if cs = [] then 0
      else case fgets 255 cs of (l, r) \<Rightarrow>
        (case route_line l of Some gw \<Rightarrow> gw | None \<Rightarrow> route_scan r))"
  by auto
termination
  by (relation "measure length") (auto dest!: sym [of "(_, _)"] intro: fgets_progress [of 255])

declare route_scan.simps [simp del]

definition host_default_gw :: "string option \<Rightarrow> u32" where
  "host_default_gw file = (case file of None \<Rightarrow> 0 | Some cs \<Rightarrow> route_scan (snd (fgets 255 cs)))"

section \<open>The server\<close>

definition reply_options :: "u8 \<Rightarrow> u32 \<Rightarrow> bytes" where
  "reply_options msgtype gw =
     (let opt = le_bytes32 (htonl DHCP_MAGIC);
          opt = dhcp_put opt 53 1 [msgtype];
          opt = dhcp_put opt 54 4 (le_bytes32 (inet_addr VETH_HOST_IP));
          opt = dhcp_put opt 51 4 (le_bytes32 (htonl DHCP_LEASE_SECS));
          opt = dhcp_put opt 1 4 (le_bytes32 (inet_addr VETH_NETMASK));
          opt = dhcp_put opt 3 4 (le_bytes32 (inet_addr VETH_HOST_IP));
          dns = (if gw \<noteq> 0 then [gw] else []) @ [inet_addr ''8.8.8.8'', inet_addr ''1.1.1.1''];
          opt = dhcp_put opt 6 (of_nat (length dns * 4)) (concat (map le_bytes32 dns))
      in opt @ [255])"

text \<open>The reply and the number of its bytes that are sent; \<open>gw\<close> is what \<open>host_default_gw\<close> gave.\<close>

definition dhcp_build_reply :: "dhcp_msg \<Rightarrow> u8 \<Rightarrow> u32 \<Rightarrow> dhcp_msg \<times> nat" where
  "dhcp_build_reply req msgtype gw =
     (let opt = reply_options msgtype gw
      in (\<lparr>dh_op = 2, dh_htype = (if dh_htype req \<noteq> 0 then dh_htype req else 1),
           dh_hlen = (if dh_hlen req \<noteq> 0 then dh_hlen req else 6), dh_hops = 0, dh_xid = dh_xid req, dh_secs = 0,
           dh_flags = dh_flags req, dh_ciaddr = 0, dh_yiaddr = inet_addr VETH_CONT_IP, dh_siaddr = inet_addr VETH_HOST_IP,
           dh_giaddr = dh_giaddr req, dh_chaddr = dh_chaddr req, dh_sname = replicate 64 0, dh_file = replicate 128 0,
           dh_options = opt @ replicate (312 - length opt) 0\<rparr>, 236 + length opt))"

datatype dhcp_result = Dhcp_Ignore | Dhcp_Fault | Dhcp_Reply bytes u32 nat

definition reply_dest :: "dhcp_msg \<Rightarrow> u32 \<times> nat" where
  "reply_dest req =
     (if dh_giaddr req \<noteq> 0 then (dh_giaddr req, 67)
      else if dh_ciaddr req \<noteq> 0 then (dh_ciaddr req, 68)
      else (htonl 0xFFFFFFFF, 68))"

text \<open>One packet. \<open>old\<close> is what the frame on the stack held, of which the packet overwrites the front.\<close>

definition dhcp_packet :: "bytes \<Rightarrow> u32 \<Rightarrow> bytes \<Rightarrow> dhcp_result" where
  "dhcp_packet old gw pkt =
     (let n = min (length pkt) 548; req = dhcp_decode (take n pkt @ drop n old)
      in if n < 236 + 4 \<or> dh_op req \<noteq> 1 then Dhcp_Ignore
         else if htonl (mem32 (dh_options req) 0) \<noteq> DHCP_MAGIC then Dhcp_Ignore
         else case dhcp_opt_u8 req (n - 236) 53 of
                None \<Rightarrow> Dhcp_Fault
              | Some type \<Rightarrow>
                  if type \<noteq> 1 \<and> type \<noteq> 3 then Dhcp_Ignore
                  else let (rep, rlen) = dhcp_build_reply req (if type = 1 then 2 else 5) gw; (dst, port) = reply_dest req
                       in Dhcp_Reply (take rlen (dhcp_encode rep)) dst port)"

datatype dhcp_recv = Recv_Intr | Recv_Fail | Recv_Packet bytes "string option" bytes

fun dhcp_server_loop :: "dhcp_recv list \<Rightarrow> dhcp_result list" where
  "dhcp_server_loop [] = []"
| "dhcp_server_loop (Recv_Intr # rs) = dhcp_server_loop rs"
| "dhcp_server_loop (Recv_Fail # rs) = []"
| "dhcp_server_loop (Recv_Packet old route pkt # rs) = dhcp_packet old (host_default_gw route) pkt # dhcp_server_loop rs"

section \<open>Memory\<close>

lemma mem32_cong: "(\<And>j. k \<le> j \<Longrightarrow> j < k + 4 \<Longrightarrow> m ! j = m' ! j) \<Longrightarrow> mem32 m k = mem32 m' k"
  by (simp add: mem32_def)

text \<open>The header lies in the first 236 bytes, so a packet of that length determines it.\<close>

lemma decode_received:
  assumes "240 \<le> length pkt" "n = min (length pkt) 548" "length old = 548"
  shows "dhcp_decode (take n pkt @ drop n old) =
      (dhcp_decode pkt)\<lparr>dh_options := drop 236 (take n pkt) @ drop n old\<rparr>"
proof -
  have n: "240 \<le> n" "n \<le> 548" "n \<le> length pkt" using assms by auto
  define m where "m = take n pkt @ drop n old"
  have nth: "m ! j = pkt ! j" if "j < 240" for j using that n by (simp add: m_def nth_append)
  have m32: "mem32 m k = mem32 pkt k" if "k \<le> 236" for k using that by (intro mem32_cong nth) simp
  have m16: "mem16 m k = mem16 pkt k" if "k \<le> 236" for k using that by (simp add: mem16_def nth)
  have slice: "take l (drop k m) = take l (drop k pkt)" if "k + l \<le> 236" for k l
    using that n by (simp add: m_def drop_take min_absorb1)
  have "take 312 (drop 236 m) = drop 236 (take n pkt) @ drop n old" using n assms by (simp add: m_def)
  then show ?thesis by (simp add: dhcp_decode_def nth m32 m16 slice flip: m_def)
qed

lemma packet_no_fault:
  assumes "length old = 548"
  shows "dhcp_packet old gw pkt \<noteq> Dhcp_Fault"
proof (cases "length pkt < 240")
  case False
  let ?n = "min (length pkt) 548"
  have "length (dh_options (dhcp_decode (take ?n pkt @ drop ?n old))) = 312"
    using False assms by (subst decode_received) (auto simp: min_def)
  then have "dhcp_opt_u8 (dhcp_decode (take ?n pkt @ drop ?n old)) (?n - 236) 53 \<noteq> None"
    by (simp add: dhcp_opt_u8_def dhcp_opt_scan_spec)
  then show ?thesis by (auto simp: dhcp_packet_def Let_def split: option.split prod.split)
qed (simp add: dhcp_packet_def)

text \<open>What the handler reads of the packet.\<close>

lemma packet_cases:
  assumes "length old = 548" "240 \<le> length pkt"
  shows "dhcp_packet old gw pkt =
     (if pkt ! 0 \<noteq> 1 \<or> htonl (mem32 pkt 236) \<noteq> DHCP_MAGIC then Dhcp_Ignore
      else let type = option_u8 53 (drop 240 (take 548 pkt)); req = dhcp_decode pkt
           in if type \<noteq> 1 \<and> type \<noteq> 3 then Dhcp_Ignore
              else let (rep, rlen) = dhcp_build_reply req (if type = 1 then 2 else 5) gw; (dst, port) = reply_dest req
                   in Dhcp_Reply (take rlen (dhcp_encode rep)) dst port)"
proof -
  define n where "n = min (length pkt) 548"
  define req where "req = dhcp_decode (take n pkt @ drop n old)"
  have n: "240 \<le> n" "n \<le> 548" "n \<le> length pkt" using assms by (auto simp: n_def)
  have req: "req = (dhcp_decode pkt)\<lparr>dh_options := drop 236 (take n pkt) @ drop n old\<rparr>"
    unfolding req_def using assms(2,1) n_def by (intro decode_received)
  have op: "dh_op req = pkt ! 0" by (simp add: req dhcp_decode_def)
  have magic: "mem32 (dh_options req) 0 = mem32 pkt 236" using n
    by (simp add: req mem32_def nth_append less_diff_conv)
  have "drop 4 (take (n - 236) (drop 236 (take n pkt) @ drop n old)) = drop 240 (take 548 pkt)"
    using n by (simp add: n_def min_def)
  moreover have "n - 236 \<le> length (drop 236 (take n pkt) @ drop n old)" using n by simp
  moreover have "dh_options req = drop 236 (take n pkt) @ drop n old" by (simp add: req)
  ultimately have type: "dhcp_opt_u8 req (n - 236) 53 = Some (option_u8 53 (drop 240 (take 548 pkt)))"
    by (simp only: dhcp_opt_u8_def dhcp_opt_scan_spec)
  have same: "dhcp_build_reply req ty gw = dhcp_build_reply (dhcp_decode pkt) ty gw" "reply_dest req = reply_dest (dhcp_decode pkt)" for ty
    by (simp_all add: dhcp_build_reply_def reply_dest_def req Let_def)
  have "dhcp_packet old gw pkt =
      (if n < 236 + 4 \<or> dh_op req \<noteq> 1 then Dhcp_Ignore
       else if htonl (mem32 (dh_options req) 0) \<noteq> DHCP_MAGIC then Dhcp_Ignore
       else case dhcp_opt_u8 req (n - 236) 53 of
              None \<Rightarrow> Dhcp_Fault
            | Some type \<Rightarrow>
                if type \<noteq> 1 \<and> type \<noteq> 3 then Dhcp_Ignore
                else let (rep, rlen) = dhcp_build_reply req (if type = 1 then 2 else 5) gw; (dst, port) = reply_dest req
                     in Dhcp_Reply (take rlen (dhcp_encode rep)) dst port)"
    unfolding dhcp_packet_def Let_def n_def req_def by (rule refl)
  also have "\<dots> = (if pkt ! 0 \<noteq> 1 \<or> htonl (mem32 pkt 236) \<noteq> DHCP_MAGIC then Dhcp_Ignore
      else let type = option_u8 53 (drop 240 (take 548 pkt)); req = dhcp_decode pkt
           in if type \<noteq> 1 \<and> type \<noteq> 3 then Dhcp_Ignore
              else let (rep, rlen) = dhcp_build_reply req (if type = 1 then 2 else 5) gw; (dst, port) = reply_dest req
                   in Dhcp_Reply (take rlen (dhcp_encode rep)) dst port)"
    using n by (simp only: op magic type same option.case Let_def) simp
  finally show ?thesis .
qed

section \<open>The reply\<close>

lemma addresses:
  "le_bytes32 (inet_addr VETH_HOST_IP) = [192, 168, 240, 1]" "le_bytes32 (inet_addr VETH_CONT_IP) = [192, 168, 240, 2]"
  "le_bytes32 (inet_addr VETH_NETMASK) = [255, 255, 255, 0]" "le_bytes32 (inet_addr ''8.8.8.8'') = [8, 8, 8, 8]"
  "le_bytes32 (inet_addr ''1.1.1.1'') = [1, 1, 1, 1]"
  by code_simp+

lemma constants:
  "le_bytes32 (htonl DHCP_MAGIC) = [0x63, 0x82, 0x53, 0x63]" "le_bytes32 (htonl DHCP_LEASE_SECS) = [0, 1, 0x51, 0x80]"
  by code_simp+

definition reply_tlvs :: "u8 \<Rightarrow> u32 \<Rightarrow> (u8 \<times> bytes) list" where
  "reply_tlvs msgtype gw =
     [(53, [msgtype]), (54, [192, 168, 240, 1]), (51, [0, 1, 0x51, 0x80]), (1, [255, 255, 255, 0]), (3, [192, 168, 240, 1]),
      (6, (if gw = 0 then [] else le_bytes32 gw) @ [8, 8, 8, 8, 1, 1, 1, 1])]"

lemma reply_options_read:
  "take 4 (reply_options msgtype gw) = [0x63, 0x82, 0x53, 0x63]"
  "tlvs (drop 4 (reply_options msgtype gw)) = reply_tlvs msgtype gw"
  "4 \<le> length (reply_options msgtype gw)" "length (reply_options msgtype gw) \<le> 46"
  by (simp_all add: reply_options_def dhcp_put_def reply_tlvs_def addresses constants Let_def le_bytes32_def [of gw])

lemma encode_parts:
  assumes "length (dh_chaddr r) = 16" "length (dh_sname r) = 64" "length (dh_file r) = 128"
  shows "dhcp_encode r ! 0 = dh_op r" "take 4 (drop 4 (dhcp_encode r)) = le_bytes32 (dh_xid r)"
    "take 4 (drop 16 (dhcp_encode r)) = le_bytes32 (dh_yiaddr r)" "take 16 (drop 28 (dhcp_encode r)) = dh_chaddr r"
    "drop 236 (dhcp_encode r) = dh_options r" "length (dhcp_encode r) = 236 + length (dh_options r)"
  using assms by (simp_all add: dhcp_encode_def le_bytes32_def le_bytes16_def numeral_eq_Suc)

lemma take4: "k + 4 \<le> length m \<Longrightarrow> take 4 (drop k m) = [m ! k, m ! (k + 1), m ! (k + 2), m ! (k + 3)]"
  by (rule nth_equalityI) (auto simp: less_Suc_eq numeral_eq_Suc)

lemma le_bytes32_mem32: "k + 4 \<le> length m \<Longrightarrow> le_bytes32 (mem32 m k) = take 4 (drop k m)"
proof -
  have "le_bytes32 v = rev (be_bytes32 v)" for v by (simp add: le_bytes32_def be_bytes32_def)
  moreover assume "k + 4 \<le> length m"
  ultimately show ?thesis by (simp add: take4 mem32_def le_word32_def be_bytes32_of_word)
qed

lemma magic_read:
  assumes "240 \<le> length pkt" "take 4 (drop 236 pkt) = [0x63, 0x82, 0x53, 0x63]"
  shows "htonl (mem32 pkt 236) = DHCP_MAGIC"
proof -
  have "pkt ! 236 = 0x63" "pkt ! 237 = 0x82" "pkt ! 238 = 0x53" "pkt ! 239 = 0x63" using assms take4 [of 236 pkt] by auto
  moreover have "htonl (le_word32 0x63 0x82 0x53 0x63) = DHCP_MAGIC" by code_simp
  ultimately show ?thesis by (simp add: mem32_def)
qed

text \<open>
  The server reads nothing but the packet. Whatever a packet of any length holds, the search for the
  message type stays inside the frame, and what the frame's memory held before has no influence.
\<close>

lemma dhcp_reads_packet:
  assumes "length old = 548" "length old' = 548"
  shows "dhcp_packet old gw pkt \<noteq> Dhcp_Fault \<and> dhcp_packet old gw pkt = dhcp_packet old' gw pkt"
proof
  show "dhcp_packet old gw pkt \<noteq> Dhcp_Fault" using assms(1) by (rule packet_no_fault)
  show "dhcp_packet old gw pkt = dhcp_packet old' gw pkt"
  proof (cases "240 \<le> length pkt")
    case True
    then show ?thesis using assms by (simp only: packet_cases)
  qed (simp add: dhcp_packet_def Let_def)
qed

lemma le_bytes32_zero: "le_bytes32 v = [0, 0, 0, 0] \<longleftrightarrow> v = 0"
proof
  assume "le_bytes32 v = [0, 0, 0, 0]"
  then have "le_word32 0 0 0 0 = v" using le_word32_of_bytes [of v] by (simp add: le_bytes32_def)
  then show "v = 0" by (simp add: le_word32_def be_word32_def)
qed (simp add: le_bytes32_def)

lemma reply_dest_bytes:
  assumes "240 \<le> length pkt" "reply_dest (dhcp_decode pkt) = (dst, port)"
  shows "(le_bytes32 dst, port) =
       (if take 4 (drop 24 pkt) \<noteq> [0, 0, 0, 0] then (take 4 (drop 24 pkt), 67)
        else if take 4 (drop 12 pkt) \<noteq> [0, 0, 0, 0] then (take 4 (drop 12 pkt), 68) else ([255, 255, 255, 255], 68))"
proof -
  have "le_bytes32 (mem32 pkt 24) = take 4 (drop 24 pkt)" "le_bytes32 (mem32 pkt 12) = take 4 (drop 12 pkt)"
    using assms(1) by (intro le_bytes32_mem32; linarith)+
  moreover have "le_bytes32 (htonl 0xFFFFFFFF) = [255, 255, 255, 255]" by code_simp
  moreover have "dh_giaddr (dhcp_decode pkt) = mem32 pkt 24" "dh_ciaddr (dhcp_decode pkt) = mem32 pkt 12"
    by (simp_all add: dhcp_decode_def)
  ultimately show ?thesis using assms(2) le_bytes32_zero [of "mem32 pkt 24"] le_bytes32_zero [of "mem32 pkt 12"]
    by (auto simp: reply_dest_def split: if_splits)
qed


definition sample_discover :: bytes where
  "sample_discover = 1 # replicate 235 0 @ [0x63, 0x82, 0x53, 0x63, 53, 1, 1, 255]"


end
