(* ===== verification/Wd_Netlink.thy ===== *)
theory Wd_Netlink
  imports Prelude
begin

text \<open>
  The routing netlink messages of the container launcher (\<open>nla_put\<close> to \<open>veth_create\<close> and
  \<open>nl_find_uplink_default\<close> to \<open>uplink_router_loop\<close> in \<open>waydroid/launcher/waydroidd.c\<close>).

  \<^item> A message under construction is its header fields and the bytes behind them; \<open>nlmsg_len\<close> is their
    number. The buffer was cleared, so padding is zero.
  \<^item> A dump is read from a buffer of which the kernel filled the first \<open>n\<close> bytes, with the arithmetic of
    \<open>NLMSG_OK\<close>, \<open>NLMSG_NEXT\<close>, \<open>RTA_OK\<close> and \<open>RTA_NEXT\<close>. A read outside the buffer is \<open>None\<close>.
  \<^item> \<open>nl_encode\<close> is the kernel's layout of a message, \<open>attrs\<close> the documented reading of attributes.
\<close>

section \<open>Writing a message\<close>

abbreviation IFLA_IFNAME :: u16 where "IFLA_IFNAME \<equiv> 3"
abbreviation IFLA_LINKINFO :: u16 where "IFLA_LINKINFO \<equiv> 18"
abbreviation IFLA_NET_NS_PID :: u16 where "IFLA_NET_NS_PID \<equiv> 19"
abbreviation IFLA_INFO_KIND :: u16 where "IFLA_INFO_KIND \<equiv> 1"
abbreviation IFLA_INFO_DATA :: u16 where "IFLA_INFO_DATA \<equiv> 2"
abbreviation VETH_INFO_PEER :: u16 where "VETH_INFO_PEER \<equiv> 1"
abbreviation RTM_NEWLINK :: u16 where "RTM_NEWLINK \<equiv> 16"
abbreviation RTM_DELLINK :: u16 where "RTM_DELLINK \<equiv> 17"
abbreviation RTM_NEWROUTE :: u16 where "RTM_NEWROUTE \<equiv> 24"
abbreviation RTM_DELROUTE :: u16 where "RTM_DELROUTE \<equiv> 25"
abbreviation RTA_OIF :: u16 where "RTA_OIF \<equiv> 4"
abbreviation RTA_GATEWAY :: u16 where "RTA_GATEWAY \<equiv> 5"
abbreviation RTA_PRIORITY :: u16 where "RTA_PRIORITY \<equiv> 6"
abbreviation RTA_TABLE :: u16 where "RTA_TABLE \<equiv> 15"

record nlmsg =
  nm_type :: u16
  nm_flags :: u16
  nm_seq :: u32
  nm_body :: bytes

definition align4 :: "nat \<Rightarrow> nat" where
  "align4 n = (n + 3) div 4 * 4"

definition pad4 :: "bytes \<Rightarrow> bytes" where
  "pad4 b = b @ replicate (align4 (length b) - length b) 0"

definition nla_put :: "u16 \<Rightarrow> bytes \<Rightarrow> nlmsg \<Rightarrow> nlmsg" where
  "nla_put type data nh =
     nh\<lparr>nm_body := pad4 (pad4 (nm_body nh) @ le_bytes16 (of_nat (4 + length data)) @ le_bytes16 type @ data)\<rparr>"

text \<open>The nest is the offset of its attribute behind the header.\<close>

definition nla_nest_start :: "u16 \<Rightarrow> nlmsg \<Rightarrow> nlmsg \<times> nat" where
  "nla_nest_start type nh =
     (nh\<lparr>nm_body := pad4 (nm_body nh) @ le_bytes16 4 @ le_bytes16 type\<rparr>, length (pad4 (nm_body nh)))"

definition nla_nest_end :: "nat \<Rightarrow> nlmsg \<Rightarrow> nlmsg" where
  "nla_nest_end nest nh =
     nh\<lparr>nm_body := take nest (nm_body nh) @ le_bytes16 (of_nat (length (nm_body nh) - nest)) @ drop (nest + 2) (nm_body nh)\<rparr>"

definition c_bytes :: "string \<Rightarrow> bytes" where
  "c_bytes cs = map of_char cs @ [0]"

definition veth_delete_msg :: nlmsg where
  "veth_delete_msg = nla_put IFLA_IFNAME (c_bytes ''wdb0'')
     \<lparr>nm_type = RTM_DELLINK, nm_flags = 0x5, nm_seq = 1, nm_body = replicate 16 0\<rparr>"

definition veth_create_msg :: "u32 \<Rightarrow> nlmsg" where
  "veth_create_msg pid =
     (let nh = \<lparr>nm_type = RTM_NEWLINK, nm_flags = 0x605, nm_seq = 1, nm_body = replicate 16 0\<rparr>;
          nh = nla_put IFLA_IFNAME (c_bytes ''wdb0'') nh;
          (nh, linkinfo) = nla_nest_start IFLA_LINKINFO nh;
          nh = nla_put IFLA_INFO_KIND (c_bytes ''veth'') nh;
          (nh, infodata) = nla_nest_start IFLA_INFO_DATA nh;
          (nh, peer) = nla_nest_start VETH_INFO_PEER nh;
          nh = nh\<lparr>nm_body := nm_body nh @ replicate 16 0\<rparr>;
          nh = nla_put IFLA_IFNAME (c_bytes ''eth0'') nh;
          nh = nla_put IFLA_NET_NS_PID (le_bytes32 pid) nh
      in nla_nest_end linkinfo (nla_nest_end infodata (nla_nest_end peer nh)))"

text \<open>The acknowledgement: \<open>None\<close> is a failed \<open>sendto\<close> or \<open>recv\<close>, otherwise the bytes received.\<close>

definition ack_ok :: "int list \<Rightarrow> bytes option \<Rightarrow> bool" where
  "ack_ok accepted r =
     (case r of
        None \<Rightarrow> False
      | Some b \<Rightarrow>
          36 \<le> length b \<and> le_word16 (b ! 4) (b ! 5) = 2 \<and>
          sint (le_word32 (b ! 16) (b ! 17) (b ! 18) (b ! 19)) \<in> set accepted)"

text \<open>The messages sent and the result; 0, \<open>-EEXIST\<close> and, for a route, \<open>-ESRCH\<close> are taken as success.\<close>

definition veth_create :: "u32 \<Rightarrow> bytes option \<Rightarrow> nlmsg list \<times> int" where
  "veth_create pid r = ([veth_delete_msg, veth_create_msg pid], if ack_ok [0, -17] r then 0 else -1)"

definition main_default_msg :: "u16 \<Rightarrow> u16 \<Rightarrow> u32 \<Rightarrow> u32 \<Rightarrow> nlmsg" where
  "main_default_msg type flags gw oif =
     (let nh = \<lparr>nm_type = type, nm_flags = 0x5 OR flags, nm_seq = 2, nm_body = [2, 0, 0, 0, 254, 4, 0, 1, 0, 0, 0, 0]\<rparr>;
          nh = nla_put RTA_GATEWAY (le_bytes32 gw) nh
      in if 0 < sint oif then nla_put RTA_OIF (le_bytes32 oif) nh else nh)"

definition nl_main_default :: "u16 \<Rightarrow> u16 \<Rightarrow> u32 \<Rightarrow> u32 \<Rightarrow> bytes option \<Rightarrow> nlmsg \<times> int" where
  "nl_main_default type flags gw oif r = (main_default_msg type flags gw oif, if ack_ok [0, -17, -3] r then 0 else -1)"

section \<open>Reading a dump\<close>

definition peek8 :: "bytes \<Rightarrow> nat \<Rightarrow> u8 option" where
  "peek8 b k = (if k < length b then Some (b ! k) else None)"

definition peek16 :: "bytes \<Rightarrow> nat \<Rightarrow> u16 option" where
  "peek16 b k = (if k + 1 < length b then Some (le_word16 (b ! k) (b ! (k + 1))) else None)"

definition peek32 :: "bytes \<Rightarrow> nat \<Rightarrow> u32 option" where
  "peek32 b k = (if k + 3 < length b then Some (le_word32 (b ! k) (b ! (k + 1)) (b ! (k + 2)) (b ! (k + 3))) else None)"

record rtattrs =
  ra_gw :: u32
  ra_oif :: u32
  ra_table :: u32
  ra_metric :: u32

definition set_attr :: "u16 \<Rightarrow> u32 \<Rightarrow> rtattrs \<Rightarrow> rtattrs" where
  "set_attr type v a =
     (if type = RTA_GATEWAY then a\<lparr>ra_gw := v\<rparr> else if type = RTA_OIF then a\<lparr>ra_oif := v\<rparr>
      else if type = RTA_TABLE then a\<lparr>ra_table := v\<rparr> else if type = RTA_PRIORITY then a\<lparr>ra_metric := v\<rparr> else a)"

definition wanted_attr :: "u16 \<Rightarrow> bool" where
  "wanted_attr type = (type \<in> {RTA_GATEWAY, RTA_OIF, RTA_TABLE, RTA_PRIORITY})"

text \<open>The loop over the attributes from offset \<open>k\<close>, with \<open>rtl\<close> bytes left.\<close>

function read_attrs :: "bytes \<Rightarrow> nat \<Rightarrow> nat \<Rightarrow> rtattrs \<Rightarrow> rtattrs option" where
  "read_attrs b k rtl a =
     (if rtl < 4 then Some a
      else Option.bind (peek16 b k) (\<lambda>len.
        if unat len < 4 \<or> rtl < unat len then Some a
        else Option.bind (peek16 b (k + 2)) (\<lambda>type. Option.bind (if wanted_attr type then peek32 b (k + 4) else Some 0) (\<lambda>v.
          read_attrs b (k + align4 (unat len)) (rtl - align4 (unat len)) (set_attr type v a)))))"
  by auto

termination
  by (relation "measure (\<lambda>(b, k, rtl, a). rtl)") (auto simp: align4_def)

declare read_attrs.simps [simp del]

record best =
  be_gw :: u32
  be_oif :: u32
  be_metric :: u32
  be_found :: bool

definition better :: "rtattrs \<Rightarrow> best \<Rightarrow> best" where
  "better a s =
     (if ra_gw a = 0 \<or> ra_table a = 254 then s
      else if ra_metric a < be_metric s
      then \<lparr>be_gw = ra_gw a, be_oif = ra_oif a, be_metric = ra_metric a, be_found = True\<rparr> else s)"

definition read_route :: "bytes \<Rightarrow> nat \<Rightarrow> nat \<Rightarrow> best \<Rightarrow> best option" where
  "read_route b k len s =
     Option.bind (peek8 b (k + 16)) (\<lambda>family. Option.bind (peek8 b (k + 17)) (\<lambda>dst_len.
     Option.bind (peek8 b (k + 23)) (\<lambda>type. Option.bind (peek8 b (k + 20)) (\<lambda>table.
       if family \<noteq> 2 \<or> dst_len \<noteq> 0 \<or> type \<noteq> 1 then Some s
       else map_option (\<lambda>a. better a s)
              (read_attrs b (k + 28) (len - 28) \<lparr>ra_gw = 0, ra_oif = 0, ra_table = ucast table, ra_metric = 0\<rparr>)))))"

text \<open>The loop over the messages; the flag is \<open>done\<close>.\<close>

function read_messages :: "bytes \<Rightarrow> nat \<Rightarrow> nat \<Rightarrow> best \<Rightarrow> (best \<times> bool) option" where
  "read_messages b k n s =
     (if n < 16 then Some (s, False)
      else Option.bind (peek32 b k) (\<lambda>len.
        if unat len < 16 \<or> n < unat len then Some (s, False)
        else Option.bind (peek16 b (k + 4)) (\<lambda>type. if type = 3 \<or> type = 2 then Some (s, True)
        else Option.bind (if type \<noteq> RTM_NEWROUTE then Some s else read_route b k (unat len) s) (\<lambda>s.
          read_messages b (k + align4 (unat len)) (n - align4 (unat len)) s))))"
  by auto

termination
  by (relation "measure (\<lambda>(b, k, n, s). n)") (auto simp: align4_def)

declare read_messages.simps [simp del]

text \<open>Each answer of \<open>recv\<close> is the buffer and \<open>n\<close>; no answer, or \<open>n = 0\<close>, ends the loop.\<close>

fun read_dump :: "(bytes \<times> nat) list \<Rightarrow> best \<Rightarrow> best option" where
  "read_dump [] s = Some s"
| "read_dump ((b, n) # rs) s =
     (if n = 0 then Some s
      else Option.bind (read_messages b 0 n s) (\<lambda>(s, fin). if fin then Some s else read_dump rs s))"

definition nl_find_uplink_default :: "(bytes \<times> nat) list \<Rightarrow> (u32 \<times> u32) option option" where
  "nl_find_uplink_default rs =
     map_option (\<lambda>s. if be_found s then Some (be_gw s, be_oif s) else None)
       (read_dump rs \<lparr>be_gw = 0, be_oif = 0, be_metric = 0xFFFFFFFF, be_found = False\<rparr>)"

text \<open>
  One turn of the uplink router: the message it sends, if any, and what it remembers. Deleting the copy
  on exit sends the other message for the route found then.
\<close>

definition uplink_router_turn ::
  "(bytes \<times> nat) list \<Rightarrow> bytes option \<Rightarrow> u32 \<times> u32 \<Rightarrow> (nlmsg option \<times> (u32 \<times> u32)) option" where
  "uplink_router_turn rs ack seen =
     map_option (\<lambda>found.
       case found of
         None \<Rightarrow> (None, seen)
       | Some (gw, oif) \<Rightarrow>
           let (msg, rc) = nl_main_default RTM_NEWROUTE 0x500 gw oif ack
           in (Some msg, if rc = 0 then (gw, oif) else seen))
       (nl_find_uplink_default rs)"

definition nl_del_main_default :: "(bytes \<times> nat) list \<Rightarrow> bytes option \<Rightarrow> nlmsg option option" where
  "nl_del_main_default rs ack =
     map_option (map_option (\<lambda>(gw, oif). fst (nl_main_default RTM_DELROUTE 0 gw oif ack))) (nl_find_uplink_default rs)"

section \<open>What the kernel sends\<close>

definition attr_encode :: "u16 \<times> bytes \<Rightarrow> bytes" where
  "attr_encode a = pad4 (le_bytes16 (of_nat (4 + length (snd a))) @ le_bytes16 (fst a) @ snd a)"

definition attr_ok :: "u16 \<times> bytes \<Rightarrow> bool" where
  "attr_ok a = (length (snd a) + 4 < 2 ^ 16 \<and> (wanted_attr (fst a) \<longrightarrow> length (snd a) = 4))"

definition nl_encode :: "u16 \<Rightarrow> bytes \<Rightarrow> bytes" where
  "nl_encode type body = pad4 (le_bytes32 (of_nat (16 + length body)) @ le_bytes16 type @ replicate 10 0 @ body)"

record route =
  rt_family :: u8
  rt_dst_len :: u8
  rt_type :: u8
  rt_table :: u8
  rt_attrs :: "(u16 \<times> bytes) list"

definition route_body :: "route \<Rightarrow> bytes" where
  "route_body r = [rt_family r, rt_dst_len r, 0, 0, rt_table r, 0, 0, rt_type r, 0, 0, 0, 0] @ concat (map attr_encode (rt_attrs r))"

datatype dump_msg = Dm_Route route | Dm_Other u16 bytes

fun dump_encode :: "dump_msg \<Rightarrow> bytes" where
  "dump_encode (Dm_Route r) = nl_encode RTM_NEWROUTE (route_body r)"
| "dump_encode (Dm_Other type body) = nl_encode type body"

fun dump_ok :: "dump_msg \<Rightarrow> bool" where
  "dump_ok (Dm_Route r) = (list_all attr_ok (rt_attrs r) \<and> length (route_body r) + 16 < 2 ^ 32)"
| "dump_ok (Dm_Other type body) = (type \<noteq> 2 \<and> type \<noteq> 3 \<and> type \<noteq> RTM_NEWROUTE \<and> length body + 16 < 2 ^ 32)"

definition attr_value :: "bytes \<Rightarrow> u32" where
  "attr_value v = le_word32 (v ! 0) (v ! 1) (v ! 2) (v ! 3)"

definition apply_attr :: "u16 \<times> bytes \<Rightarrow> rtattrs \<Rightarrow> rtattrs" where
  "apply_attr a = set_attr (fst a) (attr_value (snd a))"

definition route_attrs :: "route \<Rightarrow> rtattrs" where
  "route_attrs r = fold apply_attr (rt_attrs r) \<lparr>ra_gw = 0, ra_oif = 0, ra_table = ucast (rt_table r), ra_metric = 0\<rparr>"

text \<open>The default routes that count: IPv4, unicast, with a gateway, in another table than \<open>main\<close>.\<close>

definition uplink :: "route \<Rightarrow> bool" where
  "uplink r \<longleftrightarrow> rt_family r = 2 \<and> rt_dst_len r = 0 \<and> rt_type r = 1 \<and> ra_gw (route_attrs r) \<noteq> 0 \<and>
     ra_table (route_attrs r) \<noteq> 254"

section \<open>Reading what was sent\<close>

lemma align4_ge: "n \<le> align4 n"
  by (simp add: align4_def)

lemma length_pad4 [simp]: "length (pad4 b) = align4 (length b)"
  using align4_ge [of "length b"] by (simp add: pad4_def)

lemma align4_idem [simp]: "align4 (align4 n) = align4 n"
  by (simp add: align4_def)

lemma align4_add: "align4 m = m \<Longrightarrow> align4 (m + n) = m + align4 n"
proof -
  assume "align4 m = m"
  then obtain q where "m = 4 * q" by (metis align4_def mult.commute)
  moreover have "(4 * q + (n + 3)) div 4 = q + (n + 3) div 4" by simp
  ultimately show ?thesis by (simp add: align4_def add.assoc)
qed

lemma attr_encode_eq:
  "l = 4 + length v \<Longrightarrow>
     attr_encode (t, v) = le_bytes16 (of_nat l) @ le_bytes16 t @ v @ replicate (align4 l - l) 0"
  by (simp add: attr_encode_def pad4_def numeral_eq_Suc)

lemma drop_after: "drop k b = x @ y \<Longrightarrow> length x = n \<Longrightarrow> drop (k + n) b = y"
  by (metis add.commute append_eq_conv_conj drop_drop)

lemma peek8_drop: "drop k b = x # r \<Longrightarrow> peek8 b k = Some x"
  by (metis drop_eq_Nil2 hd_drop_conv_nth leI list.distinct(1) list.sel(1) peek8_def)

lemma drop_nth: "drop k b = xs \<Longrightarrow> j < length xs \<Longrightarrow> k + j < length b \<and> b ! (k + j) = xs ! j"
  by auto

lemma peek16_drop: "drop k b = x # y # r \<Longrightarrow> peek16 b k = Some (le_word16 x y)"
  using drop_nth [of k b "x # y # r" 0] drop_nth [of k b "x # y # r" 1] by (simp add: peek16_def)

lemma peek32_drop: "drop k b = x # y # z # w # r \<Longrightarrow> peek32 b k = Some (le_word32 x y z w)"
  using drop_nth [of k b "x # y # z # w # r" 0] drop_nth [of k b "x # y # z # w # r" 1]
    drop_nth [of k b "x # y # z # w # r" 2] drop_nth [of k b "x # y # z # w # r" 3] by (simp add: peek32_def)

lemma read_attrs_encoded:
  assumes "drop k b = concat (map attr_encode as) @ post" "list_all attr_ok as"
  shows "read_attrs b k (length (concat (map attr_encode as))) a = Some (fold apply_attr as a)"
  using assms
proof (induction as arbitrary: k a)
  case Nil
  then show ?case by (simp add: read_attrs.simps)
next
  case (Cons x as)
  obtain t v where x: "x = (t, v)" by fastforce
  let ?rest = "concat (map attr_encode as) @ post"
  define l where "l = 4 + length v"
  define p where "p = replicate (align4 l - l) (0 :: u8)"
  have ok: "l < 2 ^ 16" "wanted_attr t \<Longrightarrow> length v = 4" using Cons.prems x by (auto simp: attr_ok_def l_def)
  have at: "drop k b = le_bytes16 (of_nat l) @ le_bytes16 t @ v @ p @ ?rest"
    using Cons.prems(1) by (simp add: x attr_encode_eq [OF l_def] p_def)
  have len: "peek16 b k = Some (of_nat l)"
    using at peek16_drop [of k b] by (simp add: le_bytes16_def le_word16_of_bytes)
  have "drop (k + 2) b = le_bytes16 t @ v @ p @ ?rest" using drop_after [OF at] by simp
  then have type: "peek16 b (k + 2) = Some t" using peek16_drop [of "k + 2" b] by (simp add: le_bytes16_def le_word16_of_bytes)
  have "drop (k + 4) b = v @ p @ ?rest" by (rule drop_after [of k b "le_bytes16 (of_nat l) @ le_bytes16 t"]) (simp_all add: at)
  moreover have "v = [v ! 0, v ! 1, v ! 2, v ! 3]" if "length v = 4"
    using that by (intro nth_equalityI) (auto simp: less_Suc_eq numeral_eq_Suc)
  ultimately have val: "peek32 b (k + 4) = Some (attr_value v)" if "wanted_attr t"
    using ok(2) [OF that] peek32_drop [of "k + 4" b "v ! 0" "v ! 1" "v ! 2" "v ! 3" "p @ ?rest"]
    by (simp add: attr_value_def)
  have un: "unat (of_nat l :: u16) = l" using ok by (simp add: unat_of_nat take_bit_nat_eq_self)
  have "length p = align4 l - l" by (simp add: p_def)
  then have whole: "length (concat (map attr_encode (x # as))) = align4 l + length (concat (map attr_encode as))"
    using align4_ge [of l] by (simp add: x attr_encode_eq [OF l_def]) (simp add: l_def)
  have "length (le_bytes16 (of_nat l) @ le_bytes16 t @ v @ p) = align4 l"
    using align4_ge [of l] \<open>length p = _\<close> by (simp add: l_def)
  then have rest: "drop (k + align4 l) b = ?rest" by (rule drop_after [rotated]) (simp add: at)
  have "set_attr t w a = apply_attr x a" if "(if wanted_attr t then peek32 b (k + 4) else Some 0) = Some w" for w
    using val that by (auto simp: apply_attr_def x set_attr_def wanted_attr_def split: if_splits)
  then obtain w where w: "(if wanted_attr t then peek32 b (k + 4) else Some 0) = Some w" "set_attr t w a = apply_attr x a"
    using val by fastforce
  have "4 \<le> l" by (simp add: l_def)
  then have "read_attrs b k (align4 l + length (concat (map attr_encode as))) a = Some (fold apply_attr (x # as) a)"
    using align4_ge [of l] w Cons.IH [OF rest, of "apply_attr x a"] Cons.prems(2)
    by (subst read_attrs.simps) (simp add: len type un del: add_2_eq_Suc add_2_eq_Suc')
  then show ?case unfolding whole .
qed

lemma peek8_at: "drop k b = x @ y # z \<Longrightarrow> length x = n \<Longrightarrow> peek8 b (k + n) = Some y"
  by (rule peek8_drop, rule drop_after)

lemma read_route_encoded:
  assumes "drop k b = h @ route_body r @ post" "length h = 16" "list_all attr_ok (rt_attrs r)"
  shows "read_route b k (16 + length (route_body r)) s = Some (if uplink r then better (route_attrs r) s else s)"
proof -
  let ?as = "concat (map attr_encode (rt_attrs r))"
  have at: "drop k b = h @ [rt_family r, rt_dst_len r, 0, 0, rt_table r, 0, 0, rt_type r, 0, 0, 0, 0] @ ?as @ post"
    using assms(1) by (simp add: route_body_def)
  have "peek8 b (k + 16) = Some (rt_family r)" by (rule peek8_at [of k b h]) (use at assms(2) in auto)
  moreover have "peek8 b (k + 17) = Some (rt_dst_len r)" by (rule peek8_at [of k b "h @ [rt_family r]"]) (use at assms(2) in auto)
  moreover have "peek8 b (k + 20) = Some (rt_table r)"
    by (rule peek8_at [of k b "h @ [rt_family r, rt_dst_len r, 0, 0]"]) (use at assms(2) in auto)
  moreover have "peek8 b (k + 23) = Some (rt_type r)"
    by (rule peek8_at [of k b "h @ [rt_family r, rt_dst_len r, 0, 0, rt_table r, 0, 0]"]) (use at assms(2) in auto)
  moreover have "drop (k + 28) b = ?as @ post"
    by (rule drop_after [of k b "h @ [rt_family r, rt_dst_len r, 0, 0, rt_table r, 0, 0, rt_type r, 0, 0, 0, 0]"])
      (use at assms(2) in auto)
  note read_attrs_encoded [OF this assms(3)]
  moreover have "16 + length (route_body r) - 28 = length ?as" by (simp add: route_body_def)
  ultimately show ?thesis
    by (auto simp: read_route_def uplink_def better_def simp flip: route_attrs_def)
qed

definition dump_step :: "dump_msg \<Rightarrow> best \<Rightarrow> best" where
  "dump_step m s = (case m of Dm_Route r \<Rightarrow> if uplink r then better (route_attrs r) s else s | Dm_Other _ _ \<Rightarrow> s)"

fun dump_type :: "dump_msg \<Rightarrow> u16" where
  "dump_type (Dm_Route r) = RTM_NEWROUTE"
| "dump_type (Dm_Other type body) = type"

fun dump_body :: "dump_msg \<Rightarrow> bytes" where
  "dump_body (Dm_Route r) = route_body r"
| "dump_body (Dm_Other type body) = body"

lemma dump_encode_eq: "dump_encode m = nl_encode (dump_type m) (dump_body m)"
  by (cases m) auto

lemma nl_encode_eq:
  "nl_encode type body = le_bytes32 (of_nat (16 + length body)) @ le_bytes16 type @ replicate 10 0 @ body @
     replicate (align4 (16 + length body) - (16 + length body)) 0"
  by (simp add: nl_encode_def pad4_def)

lemma length_nl_encode: "length (nl_encode type body) = align4 (16 + length body)"
  by (simp add: nl_encode_def)

text \<open>The header of a message at the front of the rest of the buffer.\<close>

lemma nl_header:
  assumes "drop k b = nl_encode type body @ post" "length body + 16 < 2 ^ 32"
  shows "peek32 b k = Some (of_nat (16 + length body))" "peek16 b (k + 4) = Some type"
    "unat (of_nat (16 + length body) :: u32) = 16 + length body" "drop (k + align4 (16 + length body)) b = post"
proof -
  let ?v = "of_nat (16 + length body) :: u32"
  have "drop k b = le_bytes32 ?v @ le_bytes16 type @ replicate 10 0 @ body @
      replicate (align4 (16 + length body) - (16 + length body)) 0 @ post"
    using assms(1) by (simp only: nl_encode_eq append_assoc)
  note at = this
  show "peek32 b k = Some ?v" using peek32_drop [of k b] at by (simp add: le_bytes32_def le_word32_of_bytes)
  have "drop (k + 4) b = le_bytes16 type @ replicate 10 0 @ body @
      replicate (align4 (16 + length body) - (16 + length body)) 0 @ post"
    by (rule drop_after [OF at]) simp
  then show "peek16 b (k + 4) = Some type" using peek16_drop [of "k + 4" b] by (simp add: le_bytes16_def le_word16_of_bytes)
  show "unat ?v = 16 + length body" using assms(2) by (simp add: unat_of_nat take_bit_nat_eq_self del: of_nat_add)
  show "drop (k + align4 (16 + length body)) b = post" using assms(1) by (rule drop_after) (rule length_nl_encode)
qed

lemma read_message_encoded:
  assumes "drop k b = dump_encode m @ post" "dump_ok m" "length (dump_encode m) \<le> n"
  shows "read_messages b k n s = read_messages b (k + length (dump_encode m)) (n - length (dump_encode m)) (dump_step m s)"
proof -
  let ?l = "16 + length (dump_body m)"
  have body: "length (dump_body m) + 16 < 2 ^ 32" using assms(2) by (cases m) auto
  note head = nl_header [OF assms(1) [unfolded dump_encode_eq] body]
  have len: "length (dump_encode m) = align4 ?l" by (simp add: dump_encode_eq length_nl_encode)
  have type: "dump_type m \<noteq> 2" "dump_type m \<noteq> 3" using assms(2) by (cases m; simp)+
  have step: "(if dump_type m \<noteq> RTM_NEWROUTE then Some s else read_route b k ?l s) = Some (dump_step m s)"
  proof (cases m)
    case (Dm_Route r)
    have "drop k b = (le_bytes32 (of_nat ?l) @ le_bytes16 RTM_NEWROUTE @ replicate 10 0) @ route_body r @
        replicate (align4 ?l - ?l) 0 @ post"
      using assms(1) by (simp only: dump_encode_eq nl_encode_eq Dm_Route dump_type.simps dump_body.simps append_assoc)
    then have "read_route b k (16 + length (route_body r)) s = Some (if uplink r then better (route_attrs r) s else s)"
      by (rule read_route_encoded) (use assms(2) Dm_Route in auto)
    then show ?thesis by (simp add: Dm_Route dump_step_def)
  next
    case (Dm_Other type body)
    then show ?thesis using assms(2) by (simp add: dump_step_def)
  qed
  have "?l \<le> n" using assms(3) align4_ge [of ?l] len by linarith
  then have "read_messages b k n s = read_messages b (k + align4 ?l) (n - align4 ?l) (dump_step m s)"
    using head type step by (subst read_messages.simps) (auto split: if_splits simp del: of_nat_add)
  then show ?thesis by (simp only: len)
qed

lemma read_messages_encoded:
  assumes "drop k b = concat (map dump_encode ms) @ post" "list_all dump_ok ms"
  shows "read_messages b k (length (concat (map dump_encode ms)) + n) s =
     read_messages b (k + length (concat (map dump_encode ms))) n (fold dump_step ms s)"
  using assms
proof (induction ms arbitrary: k s)
  case (Cons m ms)
  let ?l = "length (dump_encode m)" and ?r = "length (concat (map dump_encode ms))"
  have at: "drop k b = dump_encode m @ concat (map dump_encode ms) @ post" using Cons.prems(1) by simp
  have "read_messages b k (?l + (?r + n)) s = read_messages b (k + ?l) (?l + (?r + n) - ?l) (dump_step m s)"
    using Cons.prems(2) by (intro read_message_encoded [OF at]) auto
  also have "\<dots> = read_messages b (k + ?l) (?r + n) (dump_step m s)" by simp
  also have "\<dots> = read_messages b (k + ?l + ?r) n (fold dump_step ms (dump_step m s))"
    using Cons.prems(2) drop_after [OF at] by (intro Cons.IH) auto
  finally show ?case by (simp add: add.assoc)
qed simp

definition batch :: "dump_msg list \<Rightarrow> bytes \<times> nat" where
  "batch ms = (let b = concat (map dump_encode ms) in (b, length b))"

definition last_batch :: "dump_msg list \<Rightarrow> bytes \<times> nat" where
  "last_batch ms = (let b = concat (map dump_encode ms) @ nl_encode 3 [0, 0, 0, 0] in (b, length b))"

lemma read_batch:
  assumes "list_all dump_ok ms"
  shows "read_messages (fst (batch ms)) 0 (snd (batch ms)) s = Some (fold dump_step ms s, False)"
  using read_messages_encoded [of 0 "concat (map dump_encode ms)" ms "[]" 0] assms
  by (simp add: batch_def Let_def read_messages.simps [of _ _ 0])

lemma read_last_batch:
  assumes "list_all dump_ok ms"
  shows "read_messages (fst (last_batch ms)) 0 (snd (last_batch ms)) s = Some (fold dump_step ms s, True)"
proof -
  let ?m = "concat (map dump_encode ms)" and ?d = "nl_encode 3 [0, 0, 0, 0]"
  have "drop (length ?m) (?m @ ?d) = ?d @ []" by simp
  note head = nl_header [OF this]
  have "length ?d = 20" unfolding length_nl_encode by (simp add: align4_def)
  moreover have "read_messages (?m @ ?d) (length ?m) 20 (fold dump_step ms s) = Some (fold dump_step ms s, True)"
    using head by (subst read_messages.simps) simp
  ultimately show ?thesis using read_messages_encoded [of 0 "?m @ ?d" ms ?d "length ?d"] assms by (simp add: last_batch_def Let_def)
qed

lemma read_dump_encoded:
  assumes "list_all (\<lambda>ms. ms \<noteq> [] \<and> list_all dump_ok ms) mss" "list_all dump_ok ms"
  shows "read_dump (map batch mss @ last_batch ms # rs) s = Some (fold dump_step (concat mss @ ms) s)"
  using assms(1)
proof (induction mss arbitrary: s)
  case Nil
  obtain b n where b: "last_batch ms = (b, n)" by fastforce
  have "n \<noteq> 0" using b by (auto simp: last_batch_def Let_def length_nl_encode align4_def)
  then show ?case using read_last_batch [OF assms(2)] b by simp
next
  case (Cons m mss)
  obtain b n where b: "batch m = (b, n)" by fastforce
  obtain x where "x \<in> set m" using Cons.prems by (cases m) auto
  moreover have "0 < length (dump_encode x)" using align4_ge [of "16 + length (dump_body x)"]
    by (simp add: dump_encode_eq length_nl_encode)
  ultimately have "n \<noteq> 0" using b by (auto simp: batch_def Let_def)
  then show ?case using read_batch [of m s] Cons b by simp
qed

section \<open>The chosen route\<close>

text \<open>The routes of a dump.\<close>

definition dump_routes :: "dump_msg list \<Rightarrow> route list" where
  "dump_routes ms = [r. Dm_Route r \<leftarrow> ms, uplink r]"

definition chosen :: "route list \<Rightarrow> best \<Rightarrow> bool" where
  "chosen rs s \<longleftrightarrow> (\<forall>r \<in> set rs. be_metric s \<le> ra_metric (route_attrs r)) \<and>
     (if be_found s
      then \<exists>r \<in> set rs. route_attrs r = \<lparr>ra_gw = be_gw s, ra_oif = be_oif s, ra_table = ra_table (route_attrs r),
             ra_metric = be_metric s\<rparr>
      else be_metric s = 0xFFFFFFFF)"

lemma chosen_step: "chosen rs s \<Longrightarrow> uplink r \<Longrightarrow> chosen (rs @ [r]) (better (route_attrs r) s)"
  by (auto simp: chosen_def better_def uplink_def split: if_splits)

lemma u32_max: "0xFFFFFFFF \<le> (x :: u32) \<Longrightarrow> x = 0xFFFFFFFF"
proof -
  have max: "(0xFFFFFFFF :: u32) = - 1" by simp
  show "0xFFFFFFFF \<le> x \<Longrightarrow> x = 0xFFFFFFFF" unfolding max by (rule word_order.extremum_uniqueI)
qed

lemma chosen_fold: "chosen rs s \<Longrightarrow> chosen (rs @ dump_routes ms) (fold dump_step ms s)"
proof (induction ms arbitrary: rs s)
  case (Cons m ms)
  show ?case
  proof (cases m)
    case (Dm_Route r)
    then show ?thesis using Cons.IH [OF chosen_step [OF Cons.prems, of r]] Cons.IH [OF Cons.prems]
      by (simp add: dump_step_def dump_routes_def)
  qed (use Cons.IH [OF Cons.prems] in \<open>simp add: dump_step_def dump_routes_def\<close>)
qed (simp add: dump_routes_def)


definition sample_route :: route where
  "sample_route = \<lparr>rt_family = 2, rt_dst_len = 0, rt_type = 1, rt_table = 100,
     rt_attrs = [(RTA_GATEWAY, [192, 168, 1, 1]), (RTA_OIF, [9, 0, 0, 0]), (RTA_PRIORITY, [100, 0, 0, 0])]\<rparr>"

lemma sample_route_attrs:
  "route_attrs sample_route = \<lparr>ra_gw = 0x0101A8C0, ra_oif = 9, ra_table = 100, ra_metric = 100\<rparr>"
  by code_simp


section \<open>The virtual link\<close>

text \<open>Attributes as their receiver reads them.\<close>

function attrs :: "bytes \<Rightarrow> (u16 \<times> bytes) list" where
  "attrs b =
     (case b of
        l0 # l1 # t0 # t1 # r \<Rightarrow>
          let len = unat (le_word16 l0 l1)
          in if len < 4 \<or> length b < len then []
             else (le_word16 t0 t1, take (len - 4) r) # attrs (drop (align4 len) b)
      | _ \<Rightarrow> [])"
  by auto

termination
  by (relation "measure length") (auto simp: align4_def)

declare attrs.simps [simp del]

lemma attrs_encode:
  assumes "length (snd a) + 4 < 2 ^ 16"
  shows "attrs (attr_encode a @ rest) = a # attrs rest"
proof -
  obtain t v where a: "a = (t, v)" by fastforce
  define l where "l = 4 + length v"
  have l: "l < 2 ^ 16" "4 \<le> l" "l - 4 = length v" using assms a by (auto simp: l_def)
  have un: "unat (of_nat l :: u16) = l" using l by (simp add: unat_of_nat take_bit_nat_eq_self)
  let ?b = "attr_encode a @ rest"
  have at: "?b = ucast (of_nat l :: u16) # ucast (drop_bit 8 (of_nat l :: u16)) # ucast t # ucast (drop_bit 8 t) #
      v @ replicate (align4 l - l) 0 @ rest"
    by (simp add: a attr_encode_eq [OF l_def] le_bytes16_def)
  have len: "length (attr_encode a) = align4 l" by (simp add: a attr_encode_def l_def numeral_eq_Suc)
  then have "l \<le> length ?b" "drop (align4 l) ?b = rest" using align4_ge [of l] by auto
  then have "attrs ?b = (t, v) # attrs rest"
    by (subst attrs.simps) (use at l un in \<open>simp add: le_word16_of_bytes Let_def\<close>)
  then show ?thesis by (simp add: a)
qed

lemma pad4_aligned: "align4 (length b) = length b \<Longrightarrow> pad4 b = b"
  by (simp add: pad4_def)

lemma pad4_append: "align4 (length b) = length b \<Longrightarrow> pad4 (b @ c) = b @ pad4 c"
  by (simp add: pad4_def align4_add)

text \<open>On an aligned message every writer appends.\<close>

lemma nla_put_body:
  "align4 (length b) = length b \<Longrightarrow> nla_put t d (nh\<lparr>nm_body := b\<rparr>) = nh\<lparr>nm_body := b @ attr_encode (t, d)\<rparr>"
  by (simp add: nla_put_def pad4_aligned pad4_append attr_encode_def)

lemma nla_nest_start_body:
  "align4 (length b) = length b \<Longrightarrow>
     nla_nest_start t (nh\<lparr>nm_body := b\<rparr>) = (nh\<lparr>nm_body := b @ le_bytes16 4 @ le_bytes16 t\<rparr>, length b)"
  by (simp add: nla_nest_start_def pad4_aligned)

lemma nla_nest_end_body:
  assumes "align4 (length c) = length c" "length b = k"
  shows "nla_nest_end k (nh\<lparr>nm_body := b @ le_bytes16 4 @ le_bytes16 t @ c\<rparr>) = nh\<lparr>nm_body := b @ attr_encode (t, c)\<rparr>"
proof -
  have "align4 (4 + length c) = 4 + length c" using assms(1) align4_add [of 4 "length c"] by (simp add: align4_def)
  then have "attr_encode (t, c) = le_bytes16 (of_nat (4 + length c)) @ le_bytes16 t @ c"
    using attr_encode_eq [OF refl, of t c] by simp
  moreover have "drop (k + 2) (b @ le_bytes16 4 @ le_bytes16 t @ c) = le_bytes16 t @ c" using assms(2) by (simp add: le_bytes16_def)
  moreover have "length (b @ le_bytes16 4 @ le_bytes16 t @ c) - k = 4 + length c" using assms(2) by simp
  ultimately show ?thesis using assms(2) by (simp add: nla_nest_end_def del: drop_append of_nat_add)
qed

definition veth_peer :: "u32 \<Rightarrow> bytes" where
  "veth_peer pid = replicate 16 0 @ attr_encode (IFLA_IFNAME, c_bytes ''eth0'') @ attr_encode (IFLA_NET_NS_PID, le_bytes32 pid)"

definition veth_info :: "u32 \<Rightarrow> bytes" where
  "veth_info pid = attr_encode (IFLA_INFO_KIND, c_bytes ''veth'') @
     attr_encode (IFLA_INFO_DATA, attr_encode (VETH_INFO_PEER, veth_peer pid))"

lemma length_attr_encode: "length (attr_encode (t, v)) = align4 (4 + length v)"
  by (simp add: attr_encode_def numeral_eq_Suc)

lemma length_c_bytes [simp]: "length (c_bytes cs) = length cs + 1"
  by (simp add: c_bytes_def)

lemma veth_body:
  "nm_body (veth_create_msg pid) =
     replicate 16 0 @ attr_encode (IFLA_IFNAME, c_bytes ''wdb0'') @ attr_encode (IFLA_LINKINFO, veth_info pid)"
proof -
  define nh where "nh = \<lparr>nm_type = RTM_NEWLINK, nm_flags = 0x605, nm_seq = 1, nm_body = []\<rparr>"
  have start: "\<lparr>nm_type = RTM_NEWLINK, nm_flags = 0x605, nm_seq = 1, nm_body = replicate 16 0\<rparr> = nh\<lparr>nm_body := replicate 16 0\<rparr>"
    by (simp add: nh_def)
  define b where "b = replicate 16 0 @ attr_encode (IFLA_IFNAME, c_bytes ''wdb0'')"
  define k where "k = attr_encode (IFLA_INFO_KIND, c_bytes ''veth'')"
  define e where "e = attr_encode (IFLA_IFNAME, c_bytes ''eth0'')"
  define i where "i = attr_encode (IFLA_NET_NS_PID, le_bytes32 pid)"
  have sizes: "length b = 28" "length k = 12" "length e = 12" "length i = 8"
    by (simp_all add: b_def k_def e_def i_def length_attr_encode align4_def)
  let ?L = "le_bytes16 4 @ le_bytes16 IFLA_LINKINFO" and ?D = "le_bytes16 4 @ le_bytes16 IFLA_INFO_DATA" and
    ?P = "le_bytes16 4 @ le_bytes16 VETH_INFO_PEER"
  have peer: "veth_peer pid = replicate 16 0 @ e @ i" by (simp add: veth_peer_def e_def i_def)
  have written: "veth_create_msg pid =
      nla_nest_end 28 (nla_nest_end 44 (nla_nest_end 48 (nh\<lparr>nm_body := b @ ?L @ k @ ?D @ ?P @ veth_peer pid\<rparr>)))"
    by (simp add: veth_create_msg_def start nla_put_body nla_nest_start_body peer sizes align4_def flip: b_def k_def e_def i_def)
  have "nla_nest_end 48 (nh\<lparr>nm_body := (b @ ?L @ k @ ?D) @ le_bytes16 4 @ le_bytes16 VETH_INFO_PEER @ veth_peer pid\<rparr>) =
      nh\<lparr>nm_body := (b @ ?L @ k @ ?D) @ attr_encode (VETH_INFO_PEER, veth_peer pid)\<rparr>"
    by (rule nla_nest_end_body) (simp_all add: peer sizes align4_def)
  moreover have "nla_nest_end 44 (nh\<lparr>nm_body := (b @ ?L @ k) @ le_bytes16 4 @ le_bytes16 IFLA_INFO_DATA @
        attr_encode (VETH_INFO_PEER, veth_peer pid)\<rparr>) =
      nh\<lparr>nm_body := (b @ ?L @ k) @ attr_encode (IFLA_INFO_DATA, attr_encode (VETH_INFO_PEER, veth_peer pid))\<rparr>"
    by (rule nla_nest_end_body) (simp_all add: length_attr_encode sizes)
  moreover have "nla_nest_end 28 (nh\<lparr>nm_body := b @ le_bytes16 4 @ le_bytes16 IFLA_LINKINFO @ veth_info pid\<rparr>) =
      nh\<lparr>nm_body := b @ attr_encode (IFLA_LINKINFO, veth_info pid)\<rparr>"
    by (rule nla_nest_end_body) (simp_all add: veth_info_def length_attr_encode sizes align4_add)
  ultimately have "veth_create_msg pid = nh\<lparr>nm_body := b @ attr_encode (IFLA_LINKINFO, veth_info pid)\<rparr>"
    by (simp add: written veth_info_def flip: k_def)
  then show ?thesis by (simp add: b_def)
qed

text \<open>
  The link request says what it should. The message asks for the host end \<open>wdb0\<close> of kind \<open>veth\<close> with
  its peer \<open>eth0\<close> in the network namespace of the container's process; every nested length is that of
  what is inside it, and it fits the buffer.
\<close>

lemma veth_request:
  "take 16 (nm_body (veth_create_msg pid)) = replicate 16 0 \<and>
   (\<exists>info data peer.
      attrs (drop 16 (nm_body (veth_create_msg pid))) = [(IFLA_IFNAME, c_bytes ''wdb0''), (IFLA_LINKINFO, info)] \<and>
      attrs info = [(IFLA_INFO_KIND, c_bytes ''veth''), (IFLA_INFO_DATA, data)] \<and>
      attrs data = [(VETH_INFO_PEER, peer)] \<and> take 16 peer = replicate 16 0 \<and>
      attrs (drop 16 peer) = [(IFLA_IFNAME, c_bytes ''eth0''), (IFLA_NET_NS_PID, le_bytes32 pid)]) \<and>
   16 + length (nm_body (veth_create_msg pid)) \<le> 1024"
proof (intro conjI exI)
  let ?data = "attr_encode (VETH_INFO_PEER, veth_peer pid)"
  have sizes: "length (veth_peer pid) = 36" by (simp add: veth_peer_def length_attr_encode align4_def)
  then have data: "length ?data = 40" by (simp add: length_attr_encode align4_def)
  then have info: "length (veth_info pid) = 56" by (simp add: veth_info_def length_attr_encode align4_def)
  have nil: "attrs [] = []" by (simp add: attrs.simps)
  show "take 16 (nm_body (veth_create_msg pid)) = replicate 16 0" by (simp add: veth_body)
  show "attrs (drop 16 (nm_body (veth_create_msg pid))) = [(IFLA_IFNAME, c_bytes ''wdb0''), (IFLA_LINKINFO, veth_info pid)]"
    using attrs_encode [of "(IFLA_LINKINFO, veth_info pid)" "[]"] info by (simp add: veth_body attrs_encode nil)
  show "attrs (veth_info pid) = [(IFLA_INFO_KIND, c_bytes ''veth''), (IFLA_INFO_DATA, ?data)]"
    using attrs_encode [of "(IFLA_INFO_DATA, ?data)" "[]"] data by (simp add: veth_info_def attrs_encode nil)
  show "attrs ?data = [(VETH_INFO_PEER, veth_peer pid)]"
    using attrs_encode [of "(VETH_INFO_PEER, veth_peer pid)" "[]"] sizes by (simp add: nil)
  show "take 16 (veth_peer pid) = replicate 16 0" by (simp add: veth_peer_def)
  show "attrs (drop 16 (veth_peer pid)) = [(IFLA_IFNAME, c_bytes ''eth0''), (IFLA_NET_NS_PID, le_bytes32 pid)]"
    using attrs_encode [of "(IFLA_NET_NS_PID, le_bytes32 pid)" "[]"] by (simp add: veth_peer_def attrs_encode nil)
  show "16 + length (nm_body (veth_create_msg pid)) \<le> 1024"
    using info by (simp add: veth_body length_attr_encode align4_def)
qed

end
