(* ===== verification/Wd_Nat.thy ===== *)
theory Wd_Nat
  imports Wd_Netlink
begin

text \<open>
  Address translation for the container and the guard for its input pipes (\<open>ipt_op\<close>, \<open>nat_setup\<close>,
  \<open>nat_teardown\<close> and \<open>hold_fifo_writers\<close> in \<open>waydroid/launcher/waydroidd.c\<close>). The program \<open>iptables\<close> is a
  parameter: it takes the arguments and the state of the firewall and gives its exit status and the new
  state. \<open>ipt_laws\<close> is what its manual says of \<open>-C\<close>, \<open>-A\<close> and \<open>-D\<close>, in terms of how often a rule occurs.
\<close>

section \<open>Rules\<close>

record ipt_rule =
  ir_table :: string
  ir_chain :: string
  ir_spec :: "string list"

definition g_nat_rules :: "ipt_rule list" where
  "g_nat_rules =
     [\<lparr>ir_table = ''nat'', ir_chain = ''POSTROUTING'',
       ir_spec = [''-s'', ''192.168.240.0/24'', ''!'', ''-d'', ''192.168.240.0/24'', ''-j'', ''MASQUERADE'']\<rparr>,
      \<lparr>ir_table = ''filter'', ir_chain = ''FORWARD'', ir_spec = [''-i'', ''wdb0'', ''-j'', ''ACCEPT'']\<rparr>,
      \<lparr>ir_table = ''filter'', ir_chain = ''FORWARD'', ir_spec = [''-o'', ''wdb0'', ''-j'', ''ACCEPT'']\<rparr>]"

type_synonym 'f iptables = "string list \<Rightarrow> 'f \<Rightarrow> int \<times> 'f"

definition ipt_argv :: "ipt_rule \<Rightarrow> string \<Rightarrow> string list" where
  "ipt_argv r op = [''iptables'', ''-t'', ir_table r, op, ir_chain r] @ take 12 (ir_spec r)"

definition ipt_op :: "'f iptables \<Rightarrow> ipt_rule \<Rightarrow> string \<Rightarrow> 'f \<Rightarrow> int \<times> 'f" where
  "ipt_op ipt r op fw = ipt (ipt_argv r op) fw"

definition setup_rule :: "'f iptables \<Rightarrow> ipt_rule \<Rightarrow> 'f \<Rightarrow> 'f" where
  "setup_rule ipt r fw =
     (case ipt_op ipt r ''-C'' fw of (rc, fw) \<Rightarrow> if rc \<noteq> 0 then snd (ipt_op ipt r ''-A'' fw) else fw)"

definition nat_setup :: "'f iptables \<Rightarrow> 'f \<Rightarrow> 'f" where
  "nat_setup ipt fw = fold (setup_rule ipt) g_nat_rules fw"

text \<open>The loop that deletes a rule until that fails may run forever; \<open>None\<close> is that.\<close>

partial_function (option) drop_rule :: "'f iptables \<Rightarrow> ipt_rule \<Rightarrow> 'f \<Rightarrow> 'f option" where
  "drop_rule ipt r fw =
     (case ipt_op ipt r ''-D'' fw of (rc, fw) \<Rightarrow> if rc = 0 then drop_rule ipt r fw else Some fw)"

fun drop_rules :: "'f iptables \<Rightarrow> ipt_rule list \<Rightarrow> 'f \<Rightarrow> 'f option" where
  "drop_rules ipt [] fw = Some fw"
| "drop_rules ipt (r # rs) fw = (case drop_rule ipt r fw of None \<Rightarrow> None | Some fw \<Rightarrow> drop_rules ipt rs fw)"

text \<open>Then the copy of the default route is deleted: the message sent for the dump \<open>rs\<close>.\<close>

definition nat_teardown :: "'f iptables \<Rightarrow> (bytes \<times> nat) list \<Rightarrow> bytes option \<Rightarrow> 'f \<Rightarrow> ('f \<times> nlmsg option option) option" where
  "nat_teardown ipt rs ack fw = map_option (\<lambda>fw. (fw, nl_del_main_default rs ack)) (drop_rules ipt g_nat_rules fw)"

section \<open>The laws of iptables\<close>

definition rule_key :: "ipt_rule \<Rightarrow> string list" where
  "rule_key r = ir_table r # ir_chain r # ir_spec r"

definition nat_keys :: "string list set" where
  "nat_keys = rule_key ` set g_nat_rules"

definition ipt_laws :: "'f iptables \<Rightarrow> ('f \<Rightarrow> string list \<Rightarrow> nat) \<Rightarrow> bool" where
  "ipt_laws ipt n \<longleftrightarrow> (\<forall>r \<in> set g_nat_rules. \<forall>fw.
     (case ipt (ipt_argv r ''-C'') fw of (rc, fw') \<Rightarrow> (rc = 0 \<longleftrightarrow> 0 < n fw (rule_key r)) \<and> n fw' = n fw) \<and>
     (case ipt (ipt_argv r ''-A'') fw of (rc, fw') \<Rightarrow>
        n fw' = (if rc = 0 then (n fw)(rule_key r := n fw (rule_key r) + 1) else n fw)) \<and>
     (case ipt (ipt_argv r ''-D'') fw of (rc, fw') \<Rightarrow>
        (rc = 0 \<longleftrightarrow> 0 < n fw (rule_key r)) \<and> n fw' = (n fw)(rule_key r := n fw (rule_key r) - 1)))"

lemma ipt_check:
  assumes "ipt_laws ipt n" "r \<in> set g_nat_rules" "ipt_op ipt r ''-C'' fw = (rc, fw')"
  shows "rc = 0 \<longleftrightarrow> 0 < n fw (rule_key r)" "n fw' = n fw"
  using bspec [OF assms(1) [unfolded ipt_laws_def] assms(2), THEN spec, of fw] assms(3) by (simp_all add: ipt_op_def)

lemma ipt_append:
  assumes "ipt_laws ipt n" "r \<in> set g_nat_rules" "ipt_op ipt r ''-A'' fw = (rc, fw')"
  shows "n fw' = (if rc = 0 then (n fw)(rule_key r := n fw (rule_key r) + 1) else n fw)"
  using bspec [OF assms(1) [unfolded ipt_laws_def] assms(2), THEN spec, of fw] assms(3) by (simp add: ipt_op_def)

lemma ipt_delete:
  assumes "ipt_laws ipt n" "r \<in> set g_nat_rules" "ipt_op ipt r ''-D'' fw = (rc, fw')"
  shows "rc = 0 \<longleftrightarrow> 0 < n fw (rule_key r)" "n fw' = (n fw)(rule_key r := n fw (rule_key r) - 1)"
  using bspec [OF assms(1) [unfolded ipt_laws_def] assms(2), THEN spec, of fw] assms(3) by (simp_all add: ipt_op_def)

section \<open>Setting up and tearing down\<close>

lemma setup_rule_count:
  assumes "ipt_laws ipt n" "r \<in> set g_nat_rules"
  shows "(\<forall>k. k \<noteq> rule_key r \<longrightarrow> n (setup_rule ipt r fw) k = n fw k) \<and>
     n (setup_rule ipt r fw) (rule_key r) \<le> max 1 (n fw (rule_key r))"
proof -
  obtain c fw1 where c: "ipt_op ipt r ''-C'' fw = (c, fw1)" by fastforce
  obtain d fw2 where d: "ipt_op ipt r ''-A'' fw1 = (d, fw2)" by fastforce
  show ?thesis using ipt_check [OF assms c] ipt_append [OF assms d] c d by (auto simp: setup_rule_def)
qed

lemma max_one_trans: "a \<le> max 1 b \<Longrightarrow> b \<le> max 1 c \<Longrightarrow> a \<le> max 1 (c :: nat)"
  by linarith

lemma setup_rules_count:
  assumes "ipt_laws ipt n" "set rs \<subseteq> set g_nat_rules"
  shows "(\<forall>k. k \<notin> nat_keys \<longrightarrow> n (fold (setup_rule ipt) rs fw) k = n fw k) \<and>
     (\<forall>k. n (fold (setup_rule ipt) rs fw) k \<le> max 1 (n fw k))"
  using assms(2)
proof (induction rs arbitrary: fw)
  case (Cons r rs)
  have r: "r \<in> set g_nat_rules" and rs: "set rs \<subseteq> set g_nat_rules" using Cons.prems by auto
  note step = setup_rule_count [OF assms(1) r, of fw] and IH = Cons.IH [OF rs, of "setup_rule ipt r fw"]
  have "n (setup_rule ipt r fw) k \<le> max 1 (n fw k)" for k using step by (cases "k = rule_key r") auto
  then have "n (fold (setup_rule ipt) rs (setup_rule ipt r fw)) k \<le> max 1 (n fw k)" for k
    using IH max_one_trans by blast
  moreover have "k \<notin> nat_keys \<Longrightarrow> k \<noteq> rule_key r" for k using r by (auto simp: nat_keys_def)
  ultimately show ?case using IH step by auto
qed simp

lemma drop_rule_count:
  assumes "ipt_laws ipt n" "r \<in> set g_nat_rules"
  shows "\<exists>fw'. drop_rule ipt r fw = Some fw' \<and> n fw' = (n fw)(rule_key r := 0)"
proof (induction "n fw (rule_key r)" arbitrary: fw rule: less_induct)
  case less
  obtain c fw1 where c: "ipt_op ipt r ''-D'' fw = (c, fw1)" by fastforce
  note law = ipt_delete [OF assms c]
  show ?case
  proof (cases "c = 0")
    case True
    then have "n fw1 (rule_key r) < n fw (rule_key r)" using law by simp
    then obtain fw' where "drop_rule ipt r fw1 = Some fw'" "n fw' = (n fw1)(rule_key r := 0)" using less by blast
    then show ?thesis using c True law by (subst drop_rule.simps) simp
  next
    case False
    then show ?thesis using c law by (subst drop_rule.simps) auto
  qed
qed

lemma drop_rules_count:
  assumes "ipt_laws ipt n" "set rs \<subseteq> set g_nat_rules"
  shows "\<exists>fw'. drop_rules ipt rs fw = Some fw' \<and> (\<forall>k. n fw' k = (if k \<in> rule_key ` set rs then 0 else n fw k))"
  using assms(2)
proof (induction rs arbitrary: fw)
  case (Cons r rs)
  obtain fw1 where fw1: "drop_rule ipt r fw = Some fw1" "n fw1 = (n fw)(rule_key r := 0)"
    using drop_rule_count [OF assms(1)] Cons.prems by fastforce
  obtain fw2 where "drop_rules ipt rs fw1 = Some fw2" "\<forall>k. n fw2 k = (if k \<in> rule_key ` set rs then 0 else n fw1 k)"
    using Cons by fastforce
  with fw1 show ?case by auto
qed simp

text \<open>
  C38: The translation rules come and go without a trace. After any number of setups, as left behind by
  killed launchers, a rule is there at most once unless it was there more often before; and one teardown
  ends, removes every copy, and leaves all other rules as they were before the first setup.
\<close>

theorem nat_leaves_no_trace:
  assumes "ipt_laws ipt n"
  shows "(\<forall>k. n ((nat_setup ipt ^^ m) fw) k \<le> max 1 (n fw k)) \<and>
     (\<exists>fw'. nat_teardown ipt rs ack ((nat_setup ipt ^^ m) fw) = Some (fw', nl_del_main_default rs ack) \<and>
        (\<forall>k. n fw' k = (if k \<in> nat_keys then 0 else n fw k)))"
proof -
  have many: "(\<forall>k. k \<notin> nat_keys \<longrightarrow> n ((nat_setup ipt ^^ m) fw) k = n fw k) \<and> (\<forall>k. n ((nat_setup ipt ^^ m) fw) k \<le> max 1 (n fw k))"
  proof (induction m)
    case (Suc m)
    have "(\<forall>k. k \<notin> nat_keys \<longrightarrow> n (nat_setup ipt fw) k = n fw k) \<and> (\<forall>k. n (nat_setup ipt fw) k \<le> max 1 (n fw k))" for fw
      unfolding nat_setup_def by (rule setup_rules_count [OF assms subset_refl])
    with Suc show ?case using max_one_trans by (metis comp_apply funpow.simps(2))
  qed simp
  moreover obtain fw' where "nat_teardown ipt rs ack ((nat_setup ipt ^^ m) fw) = Some (fw', nl_del_main_default rs ack)"
    "\<forall>k. n fw' k = (if k \<in> nat_keys then 0 else n ((nat_setup ipt ^^ m) fw) k)"
    using drop_rules_count [OF assms subset_refl, of "(nat_setup ipt ^^ m) fw"] by (auto simp: nat_teardown_def nat_keys_def)
  ultimately show ?thesis by auto
qed

text \<open>An instance of the laws: the firewall as the list of its rules.\<close>

fun list_iptables :: "string list list iptables" where
  "list_iptables (p # t # table # op # chain # spec) fw =
     (let k = table # chain # spec
      in if op = ''-C'' then (if k \<in> set fw then 0 else 1, fw)
         else if op = ''-A'' then (0, fw @ [k])
         else (if k \<in> set fw then 0 else 1, remove1 k fw))"
| "list_iptables argv fw = (2, fw)"

lemma list_iptables_laws: "ipt_laws list_iptables count_list"
proof -
  have spec: "ipt_argv r op = [''iptables'', ''-t'', ir_table r, op, ir_chain r] @ ir_spec r" if "r \<in> set g_nat_rules" for r op
    using that by (auto simp: ipt_argv_def g_nat_rules_def)
  have pos: "0 < count_list fw k \<longleftrightarrow> k \<in> set fw" for k and fw :: "string list list"
    by (metis count_notin gr0I count_list_0_iff less_nat_zero_code)
  have rem: "count_list (remove1 k fw) = (count_list fw)(k := count_list fw k - 1)" for k and fw :: "string list list"
    by (induction fw) (auto simp: fun_eq_iff)
  show ?thesis unfolding ipt_laws_def by (auto simp: spec rule_key_def pos rem Let_def fun_eq_iff)
qed

theorem nat_leaves_no_trace_witness:
  "ipt_laws list_iptables count_list \<and>
   (\<exists>fw'. nat_teardown list_iptables [] None ((nat_setup list_iptables ^^ 2) [[''filter'', ''INPUT'', ''-j'', ''DROP'']]) =
       Some (fw', nl_del_main_default [] None) \<and>
     count_list fw' [''filter'', ''INPUT'', ''-j'', ''DROP''] = 1)"
proof -
  have "[''filter'', ''INPUT'', ''-j'', ''DROP''] \<notin> nat_keys" by (simp add: nat_keys_def g_nat_rules_def rule_key_def)
  then show ?thesis
    using nat_leaves_no_trace [OF list_iptables_laws, of 2 "[[''filter'', ''INPUT'', ''-j'', ''DROP'']]" "[]" None] list_iptables_laws by auto
qed

section \<open>The input pipes\<close>

text \<open>
  \<open>g_fifo_fd\<close> as the inode each descriptor has open. The answers of \<open>stat\<close> (inode, whether a pipe), \<open>fstat\<close>
  and \<open>open\<close> (the inode it opened; the path may have changed meanwhile) are per pipe.
\<close>

record fifo_answers =
  fa_stat :: "bool \<Rightarrow> (nat \<times> bool) option"
  fa_fstat :: "bool \<Rightarrow> bool"
  fa_open :: "bool \<Rightarrow> nat option"

definition hold_fifo_writer :: "fifo_answers \<Rightarrow> bool \<Rightarrow> (bool \<Rightarrow> nat option) \<Rightarrow> bool \<Rightarrow> nat option" where
  "hold_fifo_writer a i fd =
     (case fa_stat a i of
        None \<Rightarrow> fd
      | Some (ino, fifo) \<Rightarrow>
          if \<not> fifo then fd
          else if fa_fstat a i \<and> fd i = Some ino then fd
          else fd(i := fa_open a i))"

definition hold_fifo_writers :: "fifo_answers \<Rightarrow> (bool \<Rightarrow> nat option) \<Rightarrow> bool \<Rightarrow> nat option" where
  "hold_fifo_writers a fd = hold_fifo_writer a True (hold_fifo_writer a False fd)"

text \<open>A pipe that is there and can be opened has a writer after the round, also when it was made anew.\<close>

lemma fifo_has_writer:
  "fa_stat a i = Some (ino, True) \<Longrightarrow> fa_open a i = Some ino \<Longrightarrow> hold_fifo_writers a fd i = Some ino"
  by (cases i) (simp_all add: hold_fifo_writers_def hold_fifo_writer_def split: option.split)

end
