(* ===== verification/Wd_Relay.thy ===== *)
theory Wd_Relay
  imports Prelude "HOL-Library.Sublist"
begin

text \<open>
  The TCP relay of the debug bridge (\<open>waydroid/launcher/tcprelay.c\<close>), one connection of it.

  \<^item> \<open>relay\<close> is the state of \<open>forward\<close>: the two poll entries, \<open>open_dirs\<close>, whether it has returned; and,
    for the statements, what was read from each side and what was done to each side.
  \<^item> The answers of \<open>poll\<close>, \<open>read\<close> and \<open>write\<close> are arguments. \<open>poll\<close> reports nothing for a
    negative descriptor, \<open>write\<close> to one fails: both are documented.
\<close>

section \<open>State\<close>

datatype side_event = Se_Bytes bytes | Se_Shutdown

record relay =
  rl_fd :: "bool \<Rightarrow> int"
  rl_events :: "bool \<Rightarrow> bool"
  rl_open :: int
  rl_returned :: bool
  rl_read :: "bool \<Rightarrow> bytes"
  rl_done :: "bool \<Rightarrow> side_event list"

text \<open>The index of a poll entry is a truth value; \<open>i ^ 1\<close> is its negation.\<close>

datatype read_answer = Rd_Bytes bytes | Rd_End

record turn =
  tu_ready :: "bool \<Rightarrow> bool"
  tu_read :: "bool \<Rightarrow> read_answer"
  tu_write :: "bool \<Rightarrow> nat \<Rightarrow> nat"

datatype poll_answer = Po_Eintr | Po_Fail | Po_Turn turn

section \<open>The program\<close>

text \<open>The write loop: an answer of 0 is a failed or empty write.\<close>

function write_all :: "int \<Rightarrow> (nat \<Rightarrow> nat) \<Rightarrow> bytes \<Rightarrow> bytes \<times> bool" where
  "write_all fd ans buf =
     (if buf = [] then ([], True)
      else let w = min (ans 0) (length buf)
           in if fd < 0 \<or> w = 0 then ([], False)
              else let (out, ok) = write_all fd (\<lambda>k. ans (Suc k)) (drop w buf)
                   in (take w buf @ out, ok))"
  by auto

termination by (relation "measure (\<lambda>(fd, ans, buf). length buf)") auto

declare write_all.simps [simp del]

definition end_direction :: "bool \<Rightarrow> relay \<Rightarrow> relay" where
  "end_direction i s =
     s\<lparr>rl_done := (if rl_fd s (\<not> i) < 0 then rl_done s else (rl_done s)(\<not> i := rl_done s (\<not> i) @ [Se_Shutdown])),
       rl_events := (rl_events s)(i := False),
       rl_fd := (rl_fd s)(i := - rl_fd s i - 1),
       rl_open := rl_open s - 1\<rparr>"

definition relay_bytes :: "(nat \<Rightarrow> nat) \<Rightarrow> bool \<Rightarrow> bytes \<Rightarrow> relay \<Rightarrow> relay" where
  "relay_bytes ans i buf s =
     (let (out, ok) = write_all (rl_fd s (\<not> i)) ans buf
      in s\<lparr>rl_read := (rl_read s)(i := rl_read s i @ buf),
           rl_done := (rl_done s)(\<not> i := rl_done s (\<not> i) @ [Se_Bytes out]),
           rl_returned := \<not> ok\<rparr>)"

text \<open>A read gives at most the buffer of 65536 bytes; nothing read is the end.\<close>

definition serve :: "turn \<Rightarrow> bool \<Rightarrow> relay \<Rightarrow> relay" where
  "serve t i s =
     (if rl_returned s \<or> rl_fd s i < 0 \<or> \<not> tu_ready t i then s
      else case tu_read t i of
             Rd_End \<Rightarrow> end_direction i s
           | Rd_Bytes d \<Rightarrow>
               if d = [] then end_direction i s else relay_bytes (tu_write t i) i (take 65536 d) s)"

definition forward_turn :: "poll_answer \<Rightarrow> relay \<Rightarrow> relay" where
  "forward_turn p s =
     (if rl_returned s \<or> rl_open s \<le> 0 then s
      else case p of
             Po_Eintr \<Rightarrow> s
           | Po_Fail \<Rightarrow> s\<lparr>rl_returned := True\<rparr>
           | Po_Turn t \<Rightarrow> serve t True (serve t False s))"

definition forward_init :: "int \<Rightarrow> int \<Rightarrow> relay" where
  "forward_init a b =
     \<lparr>rl_fd = (\<lambda>i. if i then b else a), rl_events = (\<lambda>_. True), rl_open = 2, rl_returned = False,
      rl_read = (\<lambda>_. []), rl_done = (\<lambda>_. [])\<rparr>"

definition forward :: "int \<Rightarrow> int \<Rightarrow> poll_answer list \<Rightarrow> relay" where
  "forward a b ps = fold forward_turn ps (forward_init a b)"

section \<open>Bytes in order\<close>

text \<open>The byte stream a side has been sent.\<close>

definition sent :: "side_event list \<Rightarrow> bytes" where
  "sent es = concat (map (\<lambda>e. case e of Se_Bytes d \<Rightarrow> d | Se_Shutdown \<Rightarrow> []) es)"

lemma sent_simps [simp]: "sent [] = []" "sent (es @ [Se_Bytes d]) = sent es @ d" "sent (es @ [Se_Shutdown]) = sent es"
  by (simp_all add: sent_def)

lemma write_all_prefix: "write_all fd ans buf = (out, ok) \<Longrightarrow> prefix out buf \<and> (ok \<longrightarrow> out = buf) \<and> (fd < 0 \<and> buf \<noteq> [] \<longrightarrow> out = [] \<and> \<not> ok)"
proof (induction fd ans buf arbitrary: out ok rule: write_all.induct)
  case (1 fd ans buf)
  define w where "w = min (ans 0) (length buf)"
  show ?case
  proof (cases "buf = [] \<or> fd < 0 \<or> w = 0")
    case True
    then show ?thesis using "1.prems" by (subst (asm) write_all.simps) (auto simp: w_def split: if_splits)
  next
    case False
    obtain o' k' where rec: "write_all fd (\<lambda>k. ans (Suc k)) (drop w buf) = (o', k')" by fastforce
    have "prefix o' (drop w buf) \<and> (k' \<longrightarrow> o' = drop w buf)" using "1.IH" False rec by (auto simp: w_def)
    moreover have "out = take w buf @ o'" "ok = k'"
      using "1.prems" False rec by (auto simp: write_all.simps [of fd ans buf] Let_def w_def [symmetric])
    ultimately show ?thesis using False by (metis append_take_drop_id same_prefix_prefix)
  qed
qed

text \<open>What holds of one direction: all that was read was sent while the relay runs, and a shutdown is last.\<close>

definition side_ok :: "relay \<Rightarrow> bool \<Rightarrow> bool" where
  "side_ok s i \<longleftrightarrow> prefix (sent (rl_done s (\<not> i))) (rl_read s i) \<and>
     (\<not> rl_returned s \<longrightarrow> sent (rl_done s (\<not> i)) = rl_read s i) \<and>
     (rl_fd s i \<ge> 0 \<longrightarrow> Se_Shutdown \<notin> set (rl_done s (\<not> i))) \<and>
     (Se_Shutdown \<in> set (rl_done s (\<not> i)) \<longrightarrow>
        sent (rl_done s (\<not> i)) = rl_read s i \<and> last (rl_done s (\<not> i)) = Se_Shutdown)"

lemma side_end:
  assumes "side_ok s i" "side_ok s (\<not> i)" "\<not> rl_returned s" "rl_fd s i \<ge> 0"
  shows "side_ok (end_direction i s) i \<and> side_ok (end_direction i s) (\<not> i)"
  using assms by (auto simp: side_ok_def end_direction_def)

lemma side_bytes:
  assumes "side_ok s i" "side_ok s (\<not> i)" "\<not> rl_returned s" "rl_fd s i \<ge> 0"
  shows "side_ok (relay_bytes ans i buf s) i \<and> side_ok (relay_bytes ans i buf s) (\<not> i)"
proof -
  obtain out ok where w: "write_all (rl_fd s (\<not> i)) ans buf = (out, ok)" by fastforce
  from write_all_prefix [OF w] have "prefix out buf" "ok \<longrightarrow> out = buf" by auto
  then show ?thesis using assms w by (auto simp: side_ok_def relay_bytes_def)
qed

lemma serve_sides:
  assumes "side_ok s False" "side_ok s True"
  shows "side_ok (serve t i s) False \<and> side_ok (serve t i s) True"
proof (cases "rl_returned s \<or> rl_fd s i < 0 \<or> \<not> tu_ready t i")
  case True
  then show ?thesis using assms by (simp add: serve_def)
next
  case False
  have both: "side_ok s i" "side_ok s (\<not> i)" using assms by (cases i; simp)+
  have goal: "side_ok (serve t i s) i \<and> side_ok (serve t i s) (\<not> i)"
    using False side_end [OF both] side_bytes [OF both] by (simp add: serve_def split: read_answer.split)
  then show ?thesis by (cases i) auto
qed

lemma forward_turn_sides: "side_ok s False \<and> side_ok s True \<Longrightarrow> side_ok (forward_turn p s) False \<and> side_ok (forward_turn p s) True"
  using serve_sides [of s] serve_sides by (auto simp: forward_turn_def side_ok_def split: poll_answer.split)

lemma forward_sides: "side_ok (forward a b ps) False \<and> side_ok (forward a b ps) True"
proof -
  have "side_ok s False \<and> side_ok s True \<Longrightarrow> side_ok (fold forward_turn ps s) False \<and> side_ok (fold forward_turn ps s) True" for s
    by (induction ps arbitrary: s) (auto simp: forward_turn_sides)
  then show ?thesis by (simp add: forward_def side_ok_def forward_init_def)
qed

text \<open>
  C39: The relay delivers bytes in order. Whatever the calls answer, what one side was sent is a prefix of
  what the other side sent; nothing is missing while the relay runs; and a side is told that the
  stream ended only after all of it was delivered, and is sent nothing afterwards.
\<close>

theorem relay_in_order:
  "prefix (sent (rl_done (forward a b ps) (\<not> i))) (rl_read (forward a b ps) i) \<and>
   (rl_returned (forward a b ps) \<or> sent (rl_done (forward a b ps) (\<not> i)) = rl_read (forward a b ps) i) \<and>
   (Se_Shutdown \<notin> set (rl_done (forward a b ps) (\<not> i)) \<or>
    sent (rl_done (forward a b ps) (\<not> i)) = rl_read (forward a b ps) i \<and>
    last (rl_done (forward a b ps) (\<not> i)) = Se_Shutdown)"
proof -
  have "side_ok (forward a b ps) i" using forward_sides by (cases i) auto
  then show ?thesis by (auto simp: side_ok_def)
qed

definition sample_turn :: "bool \<Rightarrow> read_answer \<Rightarrow> turn" where
  "sample_turn i r = \<lparr>tu_ready = (\<lambda>j. j = i), tu_read = (\<lambda>_. r), tu_write = (\<lambda>_ _. 1)\<rparr>"

lemma sample_run:
  "let s = forward 3 4 [Po_Turn (sample_turn False (Rd_Bytes [72, 105])), Po_Turn (sample_turn False Rd_End)]
   in Se_Shutdown \<in> set (rl_done s True) \<and> \<not> rl_returned s \<and> rl_read s False = [72, 105]"
  by (simp add: forward_def forward_init_def forward_turn_def serve_def relay_bytes_def end_direction_def sample_turn_def
      write_all.simps)

theorem relay_in_order_witness:
  "let s = forward 3 4 [Po_Turn (sample_turn False (Rd_Bytes [72, 105])), Po_Turn (sample_turn False Rd_End)]
   in sent (rl_done s True) = [72, 105] \<and> last (rl_done s True) = Se_Shutdown"
  using sample_run relay_in_order [of 3 4 "[Po_Turn (sample_turn False (Rd_Bytes [72, 105])), Po_Turn (sample_turn False Rd_End)]" False]
  by (auto simp: Let_def)

text \<open>
  C40: A half-closed connection loses its answer. When one side has ended its stream, the first bytes of the
  other side are read and not delivered, and the relay returns.
\<close>

theorem relay_half_close_loses:
  assumes "0 \<le> a" "0 \<le> b" "tu_ready t False" "\<not> tu_ready t True" "tu_read t False = Rd_End"
    "tu_ready u True" "tu_read u True = Rd_Bytes d" "d \<noteq> []"
  shows "let s = forward a b [Po_Turn t, Po_Turn u]
         in rl_returned s \<and> rl_read s True = take 65536 d \<and> sent (rl_done s False) = []"
proof -
  obtain out ok where w: "write_all (- a - 1) (tu_write u True) (take 65536 d) = (out, ok)" by fastforce
  have "out = []" "\<not> ok" using write_all_prefix [OF w] assms(1,8) by auto
  then show ?thesis using assms w
    by (simp add: forward_def forward_init_def forward_turn_def serve_def end_direction_def relay_bytes_def)
      (simp add: sent_def)
qed

theorem relay_half_close_loses_witness:
  "let s = forward 3 4 [Po_Turn (sample_turn False Rd_End), Po_Turn (sample_turn True (Rd_Bytes [79, 75]))]
   in rl_returned s \<and> rl_read s True = [79, 75] \<and> sent (rl_done s False) = []"
  using relay_half_close_loses [of 3 4 "sample_turn False Rd_End" "sample_turn True (Rd_Bytes [79, 75])" "[79, 75]"]
  by (simp add: sample_turn_def)

end
